(* ===== verification/Prelude.thy ===== *)
theory Prelude
  imports Main "HOL-Library.Char_ord" "HOL-Library.List_Lexorder" "HOL-Library.AList" "HOL-Library.Multiset"
begin

text \<open>
  What every component of the model shares: the reading of Go's basic types, Go maps and
  their unspecified iteration order, \<open>sort.Slice\<close>, and the source of everything a call
  cannot compute (clock readings, random bytes, the iteration order, a failing driver).
\<close>

named_theorems store_simps \<open>unfolding of the store operations\<close>
named_theorems api_simps \<open>unfolding of the request handlers and their responses\<close>

section \<open>Basic types\<close>

text \<open>
  A Go \<open>string\<close> or \<open>[]byte\<close> is a list of bytes, here a list of 8-bit characters; its
  order is the bytewise lexicographic one of \<open>List_Lexorder\<close>.  A \<open>time.Time\<close> is the number
  of nanoseconds since Go's zero time (1 January of year 1, UTC), so that \<open>IsZero\<close> is
  equality with 0; a \<open>time.Duration\<close> is a number of nanoseconds.
\<close>

type_synonym gostring = string
type_synonym time = int
type_synonym duration = int

abbreviation millisecond :: duration where "millisecond \<equiv> 1000000"
abbreviation second :: duration where "second \<equiv> 1000000000"
abbreviation minute :: duration where "minute \<equiv> 60 * second"
abbreviation hour :: duration where "hour \<equiv> 60 * minute"

text \<open>
  One draw from the environment: what a single call reads from the clock, from
  \<open>crypto/rand\<close>, from the runtime's map iteration order, and whether the database driver
  fails it.  Operations that read several of these take a numbered family of draws, in
  program order.
\<close>

record Draw =
  d_now :: time
  d_rand :: "nat \<Rightarrow> char"
  d_order :: "nat \<Rightarrow> nat"
  d_fault :: "gostring option"

definition rand_bytes :: "Draw \<Rightarrow> nat \<Rightarrow> gostring" where
  "rand_bytes d n = List.map (d_rand d) [0..<n]"

lemma length_rand_bytes [simp]: "length (rand_bytes d n) = n"
  by (simp add: rand_bytes_def)

section \<open>Go maps\<close>

text \<open>
  A Go map is an association list with distinct keys: \<open>m[k]\<close> is \<open>map_of\<close>, an assignment is
  \<open>AList.update\<close>, \<open>delete\<close> is \<open>AList.delete\<close>.  A \<open>range\<close> loop sees the entries in an order
  the language leaves open; \<open>shuffle p\<close> is that order, and every permutation is the shuffle
  of some \<open>p\<close>.
\<close>

type_synonym 'v gomap = "(gostring \<times> 'v) list"

fun shuffle :: "(nat \<Rightarrow> nat) \<Rightarrow> 'a list \<Rightarrow> 'a list" where
  "shuffle p [] = []"
| "shuffle p (x # xs) =
     (let ys = shuffle p xs; i = p (length xs) mod Suc (length xs)
      in take i ys @ x # drop i ys)"

lemma mset_shuffle [simp]: "mset (shuffle p xs) = mset xs"
proof (induction xs)
  case (Cons x xs)
  then show ?case
    by (metis (no_types, lifting) append_take_drop_id mset.simps(2) mset_append shuffle.simps(2)
        union_mset_add_mset_right)
qed simp

lemma set_shuffle [simp]: "set (shuffle p xs) = set xs"
  by (metis mset_shuffle set_mset_mset)

lemma length_shuffle [simp]: "length (shuffle p xs) = length xs"
  by (metis mset_shuffle size_mset)

lemma distinct_shuffle [simp]: "distinct (shuffle p xs) = distinct xs"
  by (rule mset_eq_imp_distinct_iff) simp

lemma distinct_map_shuffle [simp]: "distinct (map f (shuffle p xs)) = distinct (map f xs)"
  by (rule mset_eq_imp_distinct_iff) simp

definition range_vals :: "Draw \<Rightarrow> 'v gomap \<Rightarrow> 'v list" where
  "range_vals d m = map snd (shuffle (d_order d) m)"

lemma mset_range_vals: "mset (range_vals d m) = mset (map snd m)"
  by (simp add: range_vals_def)

lemma set_range_vals [simp]: "set (range_vals d m) = snd ` set m"
  by (simp add: range_vals_def)

definition gomap_ok :: "'v gomap \<Rightarrow> bool" where
  "gomap_ok m \<longleftrightarrow> distinct (map fst m)"

lemma gomap_ok_Nil [simp]: "gomap_ok []"
  by (simp add: gomap_ok_def)

lemma gomap_ok_update [simp]: "gomap_ok m \<Longrightarrow> gomap_ok (AList.update k v m)"
  by (simp add: gomap_ok_def distinct_update)

lemma gomap_ok_delete [simp]: "gomap_ok m \<Longrightarrow> gomap_ok (AList.delete k m)"
  by (simp add: gomap_ok_def distinct_delete)

lemma gomap_ok_filter [simp]: "gomap_ok m \<Longrightarrow> gomap_ok (filter P m)"
  by (simp add: gomap_ok_def distinct_map_filter)

lemma map_fst_map_vals [simp]: "map fst (map (\<lambda>(k, v). (k, f k v)) m) = map fst m"
  by (induction m) auto

lemma gomap_ok_map_vals [simp]: "gomap_ok (map (\<lambda>(k, v). (k, f k v)) m) = gomap_ok m"
  unfolding gomap_ok_def map_fst_map_vals ..

lemma map_of_map_vals: "map_of (map (\<lambda>(k, v). (k, f k v)) m) k = map_option (f k) (map_of m k)"
  by (induction m) auto

lemma gomap_mem_iff: "gomap_ok m \<Longrightarrow> (k, v) \<in> set m \<longleftrightarrow> map_of m k = Some v"
  by (simp add: gomap_ok_def)

lemma gomap_ran: "gomap_ok m \<Longrightarrow> snd ` set m = ran (map_of m)"
  by (auto simp: gomap_ok_def ran_distinct)

lemma gomap_vals_iff: "gomap_ok m \<Longrightarrow> v \<in> snd ` set m \<longleftrightarrow> (\<exists>k. map_of m k = Some v)"
  by (simp add: gomap_ran ran_def)

lemma gomap_all:
  "gomap_ok m \<Longrightarrow> (\<forall>(k, v) \<in> set m. P k v) \<longleftrightarrow> (\<forall>k v. map_of m k = Some v \<longrightarrow> P k v)"
  by (auto simp: gomap_mem_iff [symmetric])

section \<open>Searching loops\<close>

text \<open>A \<open>for ... { if cond { return x } }\<close> loop is \<open>find\<close>.\<close>

lemma find_None_all: "List.find P xs = None \<longleftrightarrow> (\<forall>x \<in> set xs. \<not> P x)"
  by (auto simp: find_None_iff)

lemma find_Some_mem: "List.find P xs = Some x \<Longrightarrow> x \<in> set xs \<and> P x"
  by (auto simp: find_Some_iff in_set_conv_nth)

lemma find_unique:
  assumes "x \<in> set xs" and "P x" and "\<And>y. y \<in> set xs \<Longrightarrow> P y \<Longrightarrow> y = x"
  shows "List.find P xs = Some x"
proof (cases "List.find P xs")
  case None
  then show ?thesis
    using assms(1,2) by (simp add: find_None_all)
next
  case (Some y)
  then show ?thesis
    using assms(3) find_Some_mem [OF Some] by simp
qed

lemma find_range_Some:
  assumes "gomap_ok m" and "map_of m k = Some v" and "P v"
    and "\<And>j w. map_of m j = Some w \<Longrightarrow> P w \<Longrightarrow> j = k"
  shows "List.find P (range_vals d m) = Some v"
proof (rule find_unique)
  show "v \<in> set (range_vals d m)"
    using assms(1,2) by (auto simp: gomap_vals_iff)
next
  fix w
  assume "w \<in> set (range_vals d m)" and "P w"
  then obtain j where j: "map_of m j = Some w"
    using assms(1) by (auto simp: gomap_vals_iff)
  then show "w = v"
    using assms(2,4) \<open>P w\<close> by fastforce
qed (rule assms(3))

lemma find_range_None:
  "gomap_ok m \<Longrightarrow> (\<And>j w. map_of m j = Some w \<Longrightarrow> \<not> P w) \<Longrightarrow> List.find P (range_vals d m) = None"
  by (auto simp: find_None_all gomap_mem_iff)

lemma map_of_filter_vals:
  assumes "gomap_ok m"
  shows "map_of (filter (\<lambda>(k, v). P k v) m) k =
    (case map_of m k of None \<Rightarrow> None | Some v \<Rightarrow> if P k v then Some v else None)"
proof (cases "map_of (filter (\<lambda>(k, v). P k v) m) k")
  case None
  then have "(k, v) \<notin> set (filter (\<lambda>(k, v). P k v) m)" for v
    unfolding map_of_eq_None_iff by (metis fst_conv image_eqI)
  then show ?thesis
    using None assms by (auto simp: gomap_mem_iff split: option.split)
next
  case (Some v)
  then have "(k, v) \<in> set (filter (\<lambda>(k, v). P k v) m)"
    by (rule map_of_SomeD)
  then show ?thesis
    using Some assms by (simp add: gomap_mem_iff)
qed

section \<open>sort.Slice\<close>

text \<open>
  \<open>sort.Slice(xs, less)\<close> permutes \<open>xs\<close> so that no element is \<open>less\<close> than an earlier one.
  For the strict total orders the code passes, that permutation is unique
  (\<open>sorted_perm_unique\<close>), so insertion sort computes the one result it can have.
\<close>

fun insert_by :: "('a \<Rightarrow> 'a \<Rightarrow> bool) \<Rightarrow> 'a \<Rightarrow> 'a list \<Rightarrow> 'a list" where
  "insert_by lt x [] = [x]"
| "insert_by lt x (y # ys) = (if lt y x then y # insert_by lt x ys else x # y # ys)"

fun sort_slice :: "('a \<Rightarrow> 'a \<Rightarrow> bool) \<Rightarrow> 'a list \<Rightarrow> 'a list" where
  "sort_slice lt [] = []"
| "sort_slice lt (x # xs) = insert_by lt x (sort_slice lt xs)"

lemma mset_insert_by [simp]: "mset (insert_by lt x xs) = add_mset x (mset xs)"
  by (induction xs) auto

lemma mset_sort_slice [simp]: "mset (sort_slice lt xs) = mset xs"
  by (induction xs) auto

lemma set_sort_slice [simp]: "set (sort_slice lt xs) = set xs"
  by (metis mset_sort_slice set_mset_mset)

lemma set_insert_by [simp]: "set (insert_by lt x xs) = insert x (set xs)"
  by (induction xs) auto

lemma length_sort_slice [simp]: "length (sort_slice lt xs) = length xs"
  by (metis mset_sort_slice size_mset)

definition strict_total :: "('a \<Rightarrow> 'a \<Rightarrow> bool) \<Rightarrow> 'a set \<Rightarrow> bool" where
  "strict_total lt A \<longleftrightarrow>
     (\<forall>x \<in> A. \<not> lt x x) \<and>
     (\<forall>x \<in> A. \<forall>y \<in> A. \<forall>z \<in> A. lt x y \<longrightarrow> lt y z \<longrightarrow> lt x z) \<and>
     (\<forall>x \<in> A. \<forall>y \<in> A. x \<noteq> y \<longrightarrow> lt x y \<or> lt y x)"

lemma strict_total_subset: "strict_total lt A \<Longrightarrow> B \<subseteq> A \<Longrightarrow> strict_total lt B"
  unfolding strict_total_def by blast

lemma sorted_insert_by:
  assumes "strict_total lt (insert x (set xs))" and "x \<notin> set xs" and "sorted_wrt lt xs"
  shows "sorted_wrt lt (insert_by lt x xs)"
  using assms
proof (induction xs)
  case (Cons y ys)
  show ?case
  proof (cases "lt y x")
    case True
    have "strict_total lt (insert x (set ys))"
      using Cons.prems(1) by (rule strict_total_subset) auto
    then have "sorted_wrt lt (insert_by lt x ys)"
      using Cons by auto
    then show ?thesis
      using True Cons.prems(3) by simp
  next
    case False
    have xy: "lt x y"
      using False Cons.prems(1,2) by (auto simp: strict_total_def)
    have "lt x z" if "z \<in> set ys" for z
    proof -
      have "lt y z"
        using that Cons.prems(3) by simp
      then show ?thesis
        using that xy Cons.prems(1) unfolding strict_total_def by (meson insertCI list.set_intros)
    qed
    then show ?thesis
      using False xy Cons.prems(3) by simp
  qed
qed simp

lemma sorted_sort_slice:
  assumes "strict_total lt (set xs)" and "distinct xs"
  shows "sorted_wrt lt (sort_slice lt xs)"
  using assms
proof (induction xs)
  case (Cons x xs)
  have "strict_total lt (set xs)"
    using Cons.prems(1) by (rule strict_total_subset) auto
  then show ?case
    using Cons by (auto intro: sorted_insert_by)
qed simp

lemma sorted_perm_unique:
  assumes "strict_total lt (set xs)" and "mset xs = mset ys"
    and "sorted_wrt lt xs" and "sorted_wrt lt ys"
  shows "xs = ys"
  using assms
proof (induction xs arbitrary: ys)
  case (Cons x xs)
  obtain y ys' where ys: "ys = y # ys'"
    using Cons.prems(2) by (cases ys) auto
  have set_eq: "set (x # xs) = set ys"
    using Cons.prems(2) by (metis set_mset_mset)
  have "x = y"
  proof (rule ccontr)
    assume ne: "x \<noteq> y"
    then have "x \<in> set ys'" and "y \<in> set xs"
      using set_eq ys by auto
    then have "lt x y" and "lt y x"
      using Cons.prems(3,4) ys by auto
    then show False
      using Cons.prems(1) \<open>y \<in> set xs\<close> unfolding strict_total_def by (meson list.set_intros)
  qed
  moreover have "xs = ys'"
  proof (rule Cons.IH)
    show "strict_total lt (set xs)"
      using Cons.prems(1) by (rule strict_total_subset) auto
    show "mset xs = mset ys'"
      using Cons.prems(2) ys \<open>x = y\<close> by simp
  qed (use Cons.prems(3,4) ys in auto)
  ultimately show ?case
    using ys by simp
qed simp

lemma sort_slice_cong_mset:
  assumes "strict_total lt (set xs)" and "distinct xs" and "mset xs = mset ys"
  shows "sort_slice lt xs = sort_slice lt ys"
proof (rule sorted_perm_unique)
  have set_eq: "set xs = set ys" and dist: "distinct ys"
    using assms(2,3) by (metis set_mset_mset, metis mset_eq_imp_distinct_iff)
  show "strict_total lt (set (sort_slice lt xs))"
    using assms(1) by simp
  show "mset (sort_slice lt xs) = mset (sort_slice lt ys)"
    using assms(3) by simp
  show "sorted_wrt lt (sort_slice lt xs)"
    using assms(1,2) by (rule sorted_sort_slice)
  show "sorted_wrt lt (sort_slice lt ys)"
    using assms(1) set_eq dist by (auto intro: sorted_sort_slice)
qed

text \<open>Sorting by a numeric key, where elements with equal keys may come in any order.\<close>

lemma sorted_by_key: "sorted (map k (sort_slice (\<lambda>a b. k a < (k b :: int)) xs))"
proof (induction xs)
  case (Cons x xs)
  have "sorted (map k ys) \<Longrightarrow> sorted (map k (insert_by (\<lambda>a b. k a < k b) x ys))" for ys
    by (induction ys) (auto simp: order.trans)
  then show ?case
    using Cons by simp
qed simp

end
