(* ===== verification/GoStrings.thy ===== *)
theory GoStrings
  imports Prelude
begin

text \<open>
  The parts of Go's standard string handling the program uses: UTF-8 decoding as
  \<open>unicode/utf8\<close> does it (an invalid byte is one \<open>RuneError\<close> of width 1), \<open>strings.TrimSpace\<close>,
  \<open>Cut\<close>, \<open>ToLower\<close>, \<open>EqualFold\<close>, \<open>TrimRight\<close>, and \<open>strconv\<close>'s \<open>Atoi\<close>, \<open>Itoa\<close> and
  \<open>ParseBool\<close>.
\<close>

section \<open>UTF-8\<close>

definition byte_at :: "gostring \<Rightarrow> nat \<Rightarrow> nat" where
  "byte_at s i = (if i < length s then of_char (s ! i) else 0)"

definition in_range :: "nat \<Rightarrow> nat \<Rightarrow> nat \<Rightarrow> bool" where
  "in_range lo hi b \<longleftrightarrow> lo \<le> b \<and> b \<le> hi"

definition rune_error :: nat where "rune_error = 0xFFFD"

text \<open>\<open>utf8.DecodeRuneInString\<close> on a non-empty string: the rune and its width in bytes.\<close>

definition decode_rune :: "gostring \<Rightarrow> nat \<times> nat" where
  "decode_rune s =
     (let b0 = byte_at s 0; b1 = byte_at s 1; b2 = byte_at s 2; b3 = byte_at s 3;
          cont = in_range 0x80 0xBF
      in if b0 < 0x80 then (b0, 1)
         else if in_range 0xC2 0xDF b0 \<and> cont b1 then ((b0 - 0xC0) * 64 + (b1 - 0x80), 2)
         else if in_range 0xE0 0xEF b0
              \<and> in_range (if b0 = 0xE0 then 0xA0 else 0x80) (if b0 = 0xED then 0x9F else 0xBF) b1
              \<and> cont b2
           then ((b0 - 0xE0) * 4096 + (b1 - 0x80) * 64 + (b2 - 0x80), 3)
         else if in_range 0xF0 0xF4 b0
              \<and> in_range (if b0 = 0xF0 then 0x90 else 0x80) (if b0 = 0xF4 then 0x8F else 0xBF) b1
              \<and> cont b2 \<and> cont b3
           then ((b0 - 0xF0) * 262144 + (b1 - 0x80) * 4096 + (b2 - 0x80) * 64 + (b3 - 0x80), 4)
         else (rune_error, 1))"

lemma decode_rune_width: "1 \<le> snd (decode_rune s) \<and> snd (decode_rune s) \<le> 4"
  by (simp add: decode_rune_def Let_def)

text \<open>The runes of a string in order, each with the bytes that encode it.\<close>

function runes :: "gostring \<Rightarrow> (nat \<times> gostring) list" where
  "runes [] = []"
| "runes (b # bs) =
     (let (r, n) = decode_rune (b # bs)
      in (r, take n (b # bs)) # runes (drop (n - 1) bs))"
  by pat_completeness auto
termination
  by (relation "measure length") auto

text \<open>\<open>utf8.RuneCountInString\<close>.\<close>

definition rune_count :: "gostring \<Rightarrow> nat" where
  "rune_count s = length (runes s)"

definition is_ascii :: "gostring \<Rightarrow> bool" where
  "is_ascii s \<longleftrightarrow> list_all (\<lambda>c. of_char c < (128 :: nat)) s"

lemma decode_rune_ascii: "of_char b < (128 :: nat) \<Longrightarrow> decode_rune (b # bs) = (of_char b, 1)"
  by (simp add: decode_rune_def byte_at_def)

lemma runes_ascii_Cons:
  "of_char b < (128 :: nat) \<Longrightarrow> runes (b # bs) = (of_char b, [b]) # runes bs"
  by (simp add: decode_rune_ascii)

lemma runes_ascii: "is_ascii s \<Longrightarrow> runes s = map (\<lambda>c. (of_char c, [c])) s"
proof (induction s)
  case (Cons b bs)
  then show ?case
    by (simp add: is_ascii_def runes_ascii_Cons del: runes.simps(2))
qed simp

lemma rune_count_ascii: "is_ascii s \<Longrightarrow> rune_count s = length s"
  by (simp add: rune_count_def runes_ascii)

lemma concat_runes: "concat (map snd (runes s)) = s"
proof (induction s rule: runes.induct)
  case (2 b bs)
  obtain r n where rn: "decode_rune (b # bs) = (r, n)"
    by fastforce
  have n: "1 \<le> n"
    using decode_rune_width [of "b # bs"] rn by simp
  have "take n (b # bs) @ drop (n - 1) bs = b # bs"
    using n by (cases n) simp_all
  moreover have "concat (map snd (runes (drop (n - 1) bs))) = drop (n - 1) bs"
    using 2 rn by simp
  ultimately show ?case
    using rn by simp
qed simp

lemma rune_count_le_length: "rune_count s \<le> length s"
proof (induction s rule: runes.induct)
  case (2 b bs)
  obtain r n where rn: "decode_rune (b # bs) = (r, n)"
    by fastforce
  have "rune_count (drop (n - 1) bs) \<le> length (drop (n - 1) bs)"
    using 2 rn by simp
  then show ?case
    using rn by (simp add: rune_count_def)
qed (simp add: rune_count_def)

lemma rune_count_pos: "s \<noteq> [] \<Longrightarrow> 1 \<le> rune_count s"
  by (cases s) (simp_all add: rune_count_def case_prod_beta)

text \<open>\<open>utf8.EncodeRune\<close>; a surrogate or an out-of-range rune encodes \<open>RuneError\<close>.\<close>

definition encode_rune :: "nat \<Rightarrow> gostring" where
  "encode_rune r0 =
     (let r = (if r0 > 0x10FFFF \<or> in_range 0xD800 0xDFFF r0 then rune_error else r0)
      in if r < 0x80 then [char_of r]
         else if r < 0x800 then [char_of (0xC0 + r div 64), char_of (0x80 + r mod 64)]
         else if r < 0x10000 then
           [char_of (0xE0 + r div 4096), char_of (0x80 + r div 64 mod 64), char_of (0x80 + r mod 64)]
         else
           [char_of (0xF0 + r div 262144), char_of (0x80 + r div 4096 mod 64),
            char_of (0x80 + r div 64 mod 64), char_of (0x80 + r mod 64)])"

section \<open>White space\<close>

text \<open>\<open>unicode.IsSpace\<close>: the White\_Space property.\<close>

definition is_space :: "nat \<Rightarrow> bool" where
  "is_space r \<longleftrightarrow>
     r \<in> {0x09, 0x0A, 0x0B, 0x0C, 0x0D, 0x20, 0x85, 0xA0, 0x1680, 0x2028, 0x2029, 0x202F, 0x205F, 0x3000}
     \<or> in_range 0x2000 0x200A r"

definition trim_runes :: "(nat \<times> gostring) list \<Rightarrow> (nat \<times> gostring) list" where
  "trim_runes rs =
     rev (dropWhile (\<lambda>p. is_space (fst p)) (rev (dropWhile (\<lambda>p. is_space (fst p)) rs)))"

text \<open>\<open>strings.TrimSpace\<close>.\<close>

definition trim_space :: "gostring \<Rightarrow> gostring" where
  "trim_space s = concat (map snd (trim_runes (runes s)))"

lemma trim_runes_subset: "set (trim_runes rs) \<subseteq> set rs"
  unfolding trim_runes_def by (metis (no_types, lifting) set_dropWhileD set_rev subsetI)

lemma trim_space_Nil [simp]: "trim_space [] = []"
  by (simp add: trim_space_def trim_runes_def)

lemma trim_space_ascii:
  assumes "is_ascii s"
  shows "trim_space s =
    rev (dropWhile (\<lambda>c. is_space (of_char c)) (rev (dropWhile (\<lambda>c. is_space (of_char c)) s)))"
proof -
  have "map snd (map (\<lambda>c. (of_char c :: nat, [c])) xs) = map (\<lambda>c. [c]) xs" for xs :: gostring
    by simp
  moreover have "concat (map (\<lambda>c. [c]) xs) = xs" for xs :: gostring
    by (induction xs) auto
  ultimately show ?thesis
    unfolding trim_space_def trim_runes_def runes_ascii [OF assms]
    by (simp add: dropWhile_map rev_map o_def)
qed

lemma trim_space_id:
  assumes "is_ascii s" and "s \<noteq> [] \<Longrightarrow> \<not> is_space (of_char (hd s))"
    and "s \<noteq> [] \<Longrightarrow> \<not> is_space (of_char (last s))"
  shows "trim_space s = s"
proof (cases "s = []")
  case False
  have "dropWhile (\<lambda>c. is_space (of_char c)) s = s"
    using False assms(2) by (cases s) auto
  moreover have "dropWhile (\<lambda>c. is_space (of_char c)) (rev s) = rev s"
    using False assms(3) by (cases "rev s") (auto simp: last_rev hd_rev [symmetric])
  ultimately show ?thesis
    by (simp add: trim_space_ascii [OF assms(1)])
qed simp

section \<open>Case, cutting, trimming\<close>

definition lower_byte :: "char \<Rightarrow> char" where
  "lower_byte c = (if in_range 65 90 (of_char c) then char_of (of_char c + 32 :: nat) else c)"

text \<open>
  \<open>strings.ToLower\<close>.  The Unicode table of lower-case mappings beyond ASCII is the parameter
  \<open>uni\<close>.
\<close>

definition to_lower :: "(nat \<Rightarrow> nat) \<Rightarrow> gostring \<Rightarrow> gostring" where
  "to_lower uni s =
     (if is_ascii s then map lower_byte s
      else concat (map (\<lambda>(r, _). if r < 128 then [lower_byte (char_of r)] else encode_rune (uni r)) (runes s)))"

lemma lower_byte_idem [simp]: "lower_byte (lower_byte c) = lower_byte c"
  by (auto simp: lower_byte_def in_range_def)

lemma lower_byte_ascii: "of_char c < (128 :: nat) \<Longrightarrow> of_char (lower_byte c) < (128 :: nat)"
  by (auto simp: lower_byte_def in_range_def)

lemma to_lower_ascii [simp]: "is_ascii s \<Longrightarrow> to_lower uni s = map lower_byte s"
  by (simp add: to_lower_def)

lemma to_lower_idem_ascii: "is_ascii s \<Longrightarrow> to_lower uni (to_lower uni s) = to_lower uni s"
  by (simp add: to_lower_def is_ascii_def list_all_iff lower_byte_ascii)

text \<open>
  \<open>strings.EqualFold\<close> against an ASCII word none of whose letters folds to a rune outside
  ASCII (the code only compares with \<open>Bearer\<close>).
\<close>

definition equal_fold :: "gostring \<Rightarrow> gostring \<Rightarrow> bool" where
  "equal_fold s t \<longleftrightarrow> map lower_byte s = map lower_byte t"

text \<open>\<open>strings.Cut\<close> at a one-byte separator: before, after, found.\<close>

fun cut :: "char \<Rightarrow> gostring \<Rightarrow> gostring \<times> gostring \<times> bool" where
  "cut sep [] = ([], [], False)"
| "cut sep (c # cs) =
     (if c = sep then ([], cs, True)
      else let (before, after, found) = cut sep cs in (c # before, after, found))"

lemma cut_not_found: "sep \<notin> set s \<Longrightarrow> cut sep s = (s, [], False)"
  by (induction s) auto

lemma cut_found: "sep \<notin> set s \<Longrightarrow> cut sep (s @ sep # t) = (s, t, True)"
  by (induction s) auto

text \<open>\<open>strings.TrimRight\<close> with a one-byte cutset.\<close>

definition trim_right :: "char \<Rightarrow> gostring \<Rightarrow> gostring" where
  "trim_right c s = rev (dropWhile (\<lambda>x. x = c) (rev s))"

lemma trim_right_last: "trim_right c s = [] \<or> last (trim_right c s) \<noteq> c"
proof (cases "dropWhile (\<lambda>x. x = c) (rev s)")
  case (Cons y ys)
  then have "y \<noteq> c"
    using hd_dropWhile [of "\<lambda>x. x = c" "rev s"] by simp
  then show ?thesis
    by (simp add: trim_right_def Cons)
qed (simp add: trim_right_def)

text \<open>\<open>strings.Join\<close>.\<close>

fun join :: "gostring \<Rightarrow> gostring list \<Rightarrow> gostring" where
  "join sep [] = []"
| "join sep [x] = x"
| "join sep (x # y # zs) = x @ sep @ join sep (y # zs)"

section \<open>Numbers\<close>

definition is_digit :: "char \<Rightarrow> bool" where
  "is_digit c \<longleftrightarrow> in_range 48 57 (of_char c)"

definition digit_val :: "char \<Rightarrow> nat" where
  "digit_val c = of_char c - 48"

definition digits_val :: "gostring \<Rightarrow> nat" where
  "digits_val s = foldl (\<lambda>acc c. acc * 10 + digit_val c) 0 s"

definition min_int64 :: int where "min_int64 = - (2 ^ 63)"
definition max_int64 :: int where "max_int64 = 2 ^ 63 - 1"

text \<open>\<open>strconv.Atoi\<close>: an optional sign, decimal digits, the range of a 64-bit \<open>int\<close>.\<close>

definition atoi :: "gostring \<Rightarrow> int option" where
  "atoi s =
     (let neg = (case s of c # _ \<Rightarrow> c = CHR ''-'' | [] \<Rightarrow> False);
          ds = (case s of c # cs \<Rightarrow> if c = CHR ''-'' \<or> c = CHR ''+'' then cs else s | [] \<Rightarrow> s);
          v = (if neg then - int (digits_val ds) else int (digits_val ds))
      in if ds = [] \<or> \<not> list_all is_digit ds then None
         else if v < min_int64 \<or> v > max_int64 then None
         else Some v)"

definition digit_char :: "nat \<Rightarrow> char" where
  "digit_char d = char_of (48 + d)"

fun show_nat :: "nat \<Rightarrow> gostring" where
  "show_nat n = (if n < 10 then [digit_char n] else show_nat (n div 10) @ [digit_char (n mod 10)])"

declare show_nat.simps [simp del]

text \<open>\<open>strconv.Itoa\<close>.\<close>

definition itoa :: "int \<Rightarrow> gostring" where
  "itoa i = (if i < 0 then CHR ''-'' # show_nat (nat (- i)) else show_nat (nat i))"

lemma digit_char_val: "d < 10 \<Longrightarrow> digit_val (digit_char d) = d \<and> is_digit (digit_char d)"
  by (simp add: digit_val_def digit_char_def is_digit_def in_range_def)

lemma digits_val_snoc: "digits_val (s @ [c]) = digits_val s * 10 + digit_val c"
  by (simp add: digits_val_def)

lemma show_nat_digits: "list_all is_digit (show_nat n) \<and> show_nat n \<noteq> [] \<and> digits_val (show_nat n) = n"
proof (induction n rule: show_nat.induct)
  case (1 n)
  show ?case
  proof (cases "n < 10")
    case True
    then show ?thesis
      using digit_char_val [of n] digits_val_snoc [of "[]"]
      by (simp add: show_nat.simps [of n] digits_val_def)
  next
    case False
    then show ?thesis
      using "1.IH" digit_char_val [of "n mod 10"]
      by (simp add: show_nat.simps [of n] digits_val_snoc)
  qed
qed

lemma atoi_itoa: "min_int64 \<le> i \<Longrightarrow> i \<le> max_int64 \<Longrightarrow> atoi (itoa i) = Some i"
proof -
  assume r: "min_int64 \<le> i" "i \<le> max_int64"
  let ?n = "nat \<bar>i\<bar>"
  obtain c cs where c: "show_nat ?n = c # cs"
    using show_nat_digits [of ?n] by (cases "show_nat ?n") auto
  have "is_digit c"
    using show_nat_digits [of ?n] c by simp
  then have "c \<noteq> CHR ''-''" and "c \<noteq> CHR ''+''"
    by (auto simp: is_digit_def in_range_def)
  then show ?thesis
    using r show_nat_digits [of ?n] c
    by (cases "i < 0") (auto simp: atoi_def itoa_def Let_def)
qed

text \<open>\<open>strconv.ParseBool\<close>.\<close>

definition parse_bool :: "gostring \<Rightarrow> bool option" where
  "parse_bool s =
     (if s \<in> {''1'', ''t'', ''T'', ''TRUE'', ''true'', ''True''} then Some True
      else if s \<in> {''0'', ''f'', ''F'', ''FALSE'', ''false'', ''False''} then Some False
      else None)"

end
