(* ===== verification/CivilTime.thy ===== *)
theory CivilTime
  imports GoStrings
begin

text \<open>
  The calendar of Go's \<open>time\<close> package in UTC: splitting an instant into a civil date and a
  time of day, and back.  Years are proleptic Gregorian; day 0 is 1 January of year 1.
\<close>

section \<open>Years\<close>

definition is_leap :: "int \<Rightarrow> bool" where
  "is_leap y \<longleftrightarrow> y mod 4 = 0 \<and> (y mod 100 \<noteq> 0 \<or> y mod 400 = 0)"

text \<open>Days from 1 January of year 1 to 1 January of year \<open>y\<close>.\<close>

definition days_before_year :: "int \<Rightarrow> int" where
  "days_before_year y = 365 * (y - 1) + (y - 1) div 4 - (y - 1) div 100 + (y - 1) div 400"

text \<open>The year a day falls in, and the day's index in that year.\<close>

definition year_yday :: "int \<Rightarrow> int \<times> int" where
  "year_yday d =
     (let n400 = d div 146097; r400 = d mod 146097;
          n100 = min 3 (r400 div 36524); r100 = r400 - 36524 * n100;
          n4 = r100 div 1461; r4 = r100 mod 1461;
          n1 = min 3 (r4 div 365)
      in (400 * n400 + 100 * n100 + 4 * n4 + n1 + 1, r4 - 365 * n1))"

lemma cycle_parts:
  fixes a b c e :: int
  assumes "0 \<le> b" "b \<le> 3" "0 \<le> c" "c \<le> 24" "0 \<le> e" "e \<le> 3"
  defines "y \<equiv> 400 * a + 100 * b + 4 * c + e"
  shows "y div 4 = 100 * a + 25 * b + c"
    and "y div 100 = 4 * a + b"
    and "y div 400 = a"
    and "(y + 1) mod 4 = 0 \<longleftrightarrow> e = 3"
    and "(y + 1) mod 100 = 0 \<longleftrightarrow> c = 24 \<and> e = 3"
    and "(y + 1) mod 400 = 0 \<longleftrightarrow> b = 3 \<and> c = 24 \<and> e = 3"
proof -
  show "y div 4 = 100 * a + 25 * b + c"
    using assms by (intro int_div_pos_eq [where r = e]) auto
  show "y div 100 = 4 * a + b"
    using assms by (intro int_div_pos_eq [where r = "4 * c + e"]) auto
  show "y div 400 = a"
    using assms by (intro int_div_pos_eq [where r = "100 * b + 4 * c + e"]) auto
  have m4: "(y + 1) mod 4 = (if e = 3 then 0 else e + 1)"
    using assms by (intro int_mod_pos_eq [where q = "100 * a + 25 * b + c + (if e = 3 then 1 else 0)"]) auto
  then show "(y + 1) mod 4 = 0 \<longleftrightarrow> e = 3"
    using assms by auto
  have "(y + 1) mod 100 = (if c = 24 \<and> e = 3 then 0 else 4 * c + e + 1)"
    using assms by (intro int_mod_pos_eq [where q = "4 * a + b + (if c = 24 \<and> e = 3 then 1 else 0)"]) auto
  then show "(y + 1) mod 100 = 0 \<longleftrightarrow> c = 24 \<and> e = 3"
    using assms by auto
  have "(y + 1) mod 400 = (if b = 3 \<and> c = 24 \<and> e = 3 then 0 else 100 * b + 4 * c + e + 1)"
    using assms
    by (intro int_mod_pos_eq [where q = "a + (if b = 3 \<and> c = 24 \<and> e = 3 then 1 else 0)"]) auto
  then show "(y + 1) mod 400 = 0 \<longleftrightarrow> b = 3 \<and> c = 24 \<and> e = 3"
    using assms by auto
qed

lemma capped_div:
  fixes r k :: int
  assumes "0 \<le> r" and "0 < k"
  defines "q \<equiv> min 3 (r div k)"
  shows "0 \<le> q" and "q \<le> 3" and "0 \<le> r - k * q" and "q < 3 \<Longrightarrow> r - k * q < k"
proof -
  have d: "0 \<le> r div k" and r: "r = k * (r div k) + r mod k" and m: "0 \<le> r mod k" "r mod k < k"
    using assms(1,2) by (simp_all add: pos_imp_zdiv_nonneg_iff)
  show "0 \<le> q" and "q \<le> 3"
    using d by (simp_all add: q_def)
  have "k * q \<le> k * (r div k)"
    using assms(2) by (simp add: q_def mult_left_mono)
  then show "0 \<le> r - k * q"
    using r m by linarith
  show "r - k * q < k" if "q < 3"
  proof -
    have "k * q = k * (r div k)"
      using that by (simp add: q_def)
    then show ?thesis
      using r m by linarith
  qed
qed

lemma year_yday_correct:
  assumes "year_yday d = (y, yd)"
  shows "days_before_year y + yd = d"
    and "0 \<le> yd" and "yd < (if is_leap y then 366 else 365)"
proof -
  define a where "a = d div 146097"
  define r400 where "r400 = d mod 146097"
  define b where "b = min 3 (r400 div 36524)"
  define r100 where "r100 = r400 - 36524 * b"
  define c where "c = r100 div 1461"
  define r4 where "r4 = r100 mod 1461"
  define e where "e = min 3 (r4 div 365)"
  have y: "y = 400 * a + 100 * b + 4 * c + e + 1" and yd: "yd = r4 - 365 * e"
    using assms unfolding year_yday_def Let_def a_def [symmetric] r400_def [symmetric] b_def [symmetric]
      r100_def [symmetric] c_def [symmetric] r4_def [symmetric] e_def [symmetric] by simp_all
  have r400: "0 \<le> r400" "r400 < 146097" by (simp_all add: r400_def)
  note B = capped_div [OF r400(1), of 36524, folded b_def, folded r100_def, simplified]
  have r100_le: "r100 \<le> 36524" using B r400 unfolding r100_def by linarith
  have r4: "0 \<le> r4" "r4 < 1461" and r100_eq: "r100 = 1461 * c + r4" by (simp_all add: r4_def c_def)
  then have c: "0 \<le> c" "c \<le> 24" using B(3) r100_le by linarith+
  note E = capped_div [OF r4(1), of 365, folded e_def, simplified]
  note b = B(1,2) and e = E(1,2)
  have yd_le: "0 \<le> yd" "yd \<le> 365" "e < 3 \<Longrightarrow> yd < 365"
    using E r4 unfolding yd by linarith+
  note parts = cycle_parts [OF b c e, of a]
  have "d = 146097 * a + r400" by (simp add: a_def r400_def)
  moreover note r100_eq
  moreover have "r400 = 36524 * b + r100" by (simp add: r100_def)
  ultimately show "days_before_year y + yd = d"
    using parts(1-3) by (simp add: days_before_year_def y yd)
  show "0 \<le> yd" using yd_le by simp
  show "yd < (if is_leap y then 366 else 365)"
  proof (cases "is_leap y")
    case True
    then show ?thesis using yd_le by simp
  next
    case False
    then have "e = 3 \<Longrightarrow> c = 24 \<and> b < 3"
      using parts(4-6) b by (auto simp: is_leap_def y)
    then show ?thesis
      using False yd_le B(4) E(2) r100_eq yd by fastforce
  qed
qed

section \<open>Months\<close>

definition month_starts :: "int list" where
  "month_starts = [0, 31, 59, 90, 120, 151, 181, 212, 243, 273, 304, 334]"

definition leap_shift :: "bool \<Rightarrow> int \<Rightarrow> int" where
  "leap_shift leap m = (if leap \<and> m \<ge> 3 then 1 else 0)"

text \<open>Days in a year before month \<open>m\<close> (1 to 12).\<close>

definition days_before_month :: "bool \<Rightarrow> int \<Rightarrow> int" where
  "days_before_month leap m = month_starts ! nat (m - 1) + leap_shift leap m"

definition days_in_month :: "bool \<Rightarrow> int \<Rightarrow> int" where
  "days_in_month leap m =
     (if m = 2 then (if leap then 29 else 28) else if m \<in> {4, 6, 9, 11} then 30 else 31)"

definition month_of :: "bool \<Rightarrow> int \<Rightarrow> int" where
  "month_of leap yd =
     (let l = (if leap then 1 else 0)
      in if yd < 31 then 1 else if yd < 59 + l then 2 else if yd < 90 + l then 3
         else if yd < 120 + l then 4 else if yd < 151 + l then 5 else if yd < 181 + l then 6
         else if yd < 212 + l then 7 else if yd < 243 + l then 8 else if yd < 273 + l then 9
         else if yd < 304 + l then 10 else if yd < 334 + l then 11 else 12)"

definition month_day :: "bool \<Rightarrow> int \<Rightarrow> int \<times> int" where
  "month_day leap yd = (let m = month_of leap yd in (m, yd - days_before_month leap m + 1))"

lemma month_of_cases: "month_of leap yd \<in> {1, 2, 3, 4, 5, 6, 7, 8, 9, 10, 11, 12}"
  by (simp add: month_of_def Let_def)

lemma month_of_bounds:
  assumes "0 \<le> yd" and "yd < (if leap then 366 else 365)" and "m = month_of leap yd"
  shows "days_before_month leap m \<le> yd" and "yd < days_before_month leap m + days_in_month leap m"
proof -
  have "days_before_month leap m \<le> yd \<and> yd < days_before_month leap m + days_in_month leap m"
    using month_of_cases [of leap yd] assms unfolding insert_iff empty_iff
    by (elim disjE; cases leap)
      (simp_all add: month_of_def Let_def days_before_month_def month_starts_def leap_shift_def
        days_in_month_def split: if_splits)
  then show "days_before_month leap m \<le> yd" and "yd < days_before_month leap m + days_in_month leap m"
    by auto
qed

lemma month_day_correct:
  assumes "0 \<le> yd" and "yd < (if leap then 366 else 365)" and "month_day leap yd = (m, day)"
  shows "1 \<le> m" and "m \<le> 12" and "1 \<le> day" and "day \<le> days_in_month leap m"
    and "days_before_month leap m + (day - 1) = yd"
proof -
  have m: "m = month_of leap yd" and day: "day = yd - days_before_month leap m + 1"
    using assms(3) by (auto simp: month_day_def Let_def)
  show "1 \<le> m" and "m \<le> 12"
    using month_of_cases [of leap yd] by (auto simp: m)
  show "1 \<le> day" and "day \<le> days_in_month leap m" and "days_before_month leap m + (day - 1) = yd"
    using month_of_bounds [OF assms(1,2) m] by (simp_all add: day)
qed

section \<open>Instants\<close>

record Civil =
  cv_year :: int
  cv_month :: int
  cv_day :: int
  cv_hour :: int
  cv_min :: int
  cv_sec :: int
  cv_nsec :: int

text \<open>\<open>time.Date(year, month, day, hour, min, sec, nsec, time.UTC)\<close> with fields in range.\<close>

definition date_utc :: "Civil \<Rightarrow> time" where
  "date_utc c =
     ((((days_before_year (cv_year c) + days_before_month (is_leap (cv_year c)) (cv_month c) + (cv_day c - 1)) * 24
        + cv_hour c) * 60 + cv_min c) * 60 + cv_sec c) * second + cv_nsec c"

text \<open>The fields of an instant in UTC.\<close>

definition civil :: "time \<Rightarrow> Civil" where
  "civil t =
     (let days = t div (24 * hour); r = t mod (24 * hour);
          (y, yd) = year_yday days; (m, d) = month_day (is_leap y) yd
      in \<lparr>cv_year = y, cv_month = m, cv_day = d, cv_hour = r div hour, cv_min = r div minute mod 60,
          cv_sec = r div second mod 60, cv_nsec = r mod second\<rparr>)"

definition civil_ok :: "Civil \<Rightarrow> bool" where
  "civil_ok c \<longleftrightarrow>
     1 \<le> cv_month c \<and> cv_month c \<le> 12 \<and> 1 \<le> cv_day c
     \<and> cv_day c \<le> days_in_month (is_leap (cv_year c)) (cv_month c)
     \<and> 0 \<le> cv_hour c \<and> cv_hour c \<le> 23 \<and> 0 \<le> cv_min c \<and> cv_min c \<le> 59
     \<and> 0 \<le> cv_sec c \<and> cv_sec c \<le> 59 \<and> 0 \<le> cv_nsec c \<and> cv_nsec c < second"

lemma time_of_day_parts:
  fixes r :: int
  assumes "0 \<le> r" and "r < 24 * hour"
  shows "0 \<le> r div hour \<and> r div hour \<le> 23"
    and "((r div hour * 60 + r div minute mod 60) * 60 + r div second mod 60) * second + r mod second = r"
proof -
  have h: "r div hour = r div second div 60 div 60" and m: "r div minute = r div second div 60"
    by (simp_all add: zdiv_zmult2_eq [symmetric])
  show "0 \<le> r div hour \<and> r div hour \<le> 23"
    using assms zdiv_mono1 [of r "24 * hour - 1" hour] by (simp add: pos_imp_zdiv_nonneg_iff)
  have "(q div 60 div 60 * 60 + q div 60 mod 60) * 60 + q mod 60 = q" for q :: int
    by (simp add: mult.commute)
  then show "((r div hour * 60 + r div minute mod 60) * 60 + r div second mod 60) * second + r mod second = r"
    unfolding h m by simp
qed

lemma civil_date: "civil_ok (civil t) \<and> date_utc (civil t) = t"
proof -
  define days where "days = t div (24 * hour)"
  define r where "r = t mod (24 * hour)"
  obtain y yd where y: "year_yday days = (y, yd)"
    by fastforce
  obtain m d where m: "month_day (is_leap y) yd = (m, d)"
    by fastforce
  have c: "civil t = \<lparr>cv_year = y, cv_month = m, cv_day = d, cv_hour = r div hour,
      cv_min = r div minute mod 60, cv_sec = r div second mod 60, cv_nsec = r mod second\<rparr>"
    unfolding civil_def days_def [symmetric] r_def [symmetric] by (simp only: Let_def y m prod.case)
  have r: "0 \<le> r" "r < 24 * hour" and t: "t = days * (24 * hour) + r"
    by (simp_all add: r_def days_def)
  note Y = year_yday_correct [OF y]
  note M = month_day_correct [OF Y(2,3) m]
  note T = time_of_day_parts [OF r]
  have "q mod 60 \<le> 59" for q :: int
    using pos_mod_bound [of 60 q] by simp
  then have "civil_ok (civil t)"
    using M T(1) by (simp add: c civil_ok_def)
  moreover have "date_utc (civil t) = (days_before_year y + days_before_month (is_leap y) m + (d - 1)) * (24 * hour)
      + (((r div hour * 60 + r div minute mod 60) * 60 + r div second mod 60) * second + r mod second)"
    unfolding c date_utc_def by (simp add: algebra_simps)
  moreover have "days_before_year y + days_before_month (is_leap y) m + (d - 1) = days"
    using M(5) Y(1) by linarith
  ultimately show ?thesis
    unfolding T(2) t by simp
qed

end
