(* ===== verification/Timestamps.thy ===== *)
theory Timestamps
  imports CivilTime
begin

text \<open>
  Timestamps as text: RFC 3339 with nanoseconds as \<open>encoding/json\<close> writes a \<open>time.Time\<close>, its
  parser, and \<open>internal/jsontime\<close>, the API's own format with exactly three fractional digits.
  Go parses RFC 3339 with a dedicated routine and falls back to its general layout engine when
  that fails; the engine is the parameter \<open>layout_parse\<close> and is only asked in that case.
\<close>

section \<open>Decimal fields\<close>

definition pad2 :: "int \<Rightarrow> gostring" where
  "pad2 n = [digit_char (nat (n div 10) mod 10), digit_char (nat n mod 10)]"

definition zero_pad :: "nat \<Rightarrow> gostring \<Rightarrow> gostring" where
  "zero_pad w s = replicate (w - length s) CHR ''0'' @ s"

text \<open>A year, at least four digits wide.\<close>

definition show_year :: "int \<Rightarrow> gostring" where
  "show_year y = (if y < 0 then CHR ''-'' # zero_pad 4 (show_nat (nat (- y))) else zero_pad 4 (show_nat (nat y)))"

definition digits_fixed :: "nat \<Rightarrow> nat \<Rightarrow> gostring" where
  "digits_fixed w n = map (\<lambda>k. digit_char (n div 10 ^ k mod 10)) (rev [0..<w])"

text \<open>The fraction of a second: no point and no digits when it is zero, no trailing zeros.\<close>

definition strip_zeros :: "gostring \<Rightarrow> gostring" where
  "strip_zeros = trim_right CHR ''0''"

definition show_frac9 :: "int \<Rightarrow> gostring" where
  "show_frac9 ns =
     (let ds = strip_zeros (digits_fixed 9 (nat ns)) in if ds = [] then [] else CHR ''.'' # ds)"

definition show_date_time :: "Civil \<Rightarrow> gostring" where
  "show_date_time c =
     show_year (cv_year c) @ CHR ''-'' # pad2 (cv_month c) @ CHR ''-'' # pad2 (cv_day c) @
     CHR ''T'' # pad2 (cv_hour c) @ CHR '':'' # pad2 (cv_min c) @ CHR '':'' # pad2 (cv_sec c)"

definition format_rfc3339nano :: "time \<Rightarrow> gostring" where
  "format_rfc3339nano t = show_date_time (civil t) @ show_frac9 (cv_nsec (civil t)) @ ''Z''"

text \<open>\<open>time.Time.MarshalJSON\<close> without the quotes: an error outside years 0 to 9999.\<close>

definition marshal_time :: "time \<Rightarrow> gostring option" where
  "marshal_time t =
     (if 0 \<le> cv_year (civil t) \<and> cv_year (civil t) \<le> 9999 then Some (format_rfc3339nano t) else None)"

section \<open>Parsing RFC 3339\<close>

definition sub :: "gostring \<Rightarrow> nat \<Rightarrow> nat \<Rightarrow> gostring" where
  "sub s i j = take (j - i) (drop i s)"

definition parse_uint :: "gostring \<Rightarrow> int \<Rightarrow> int \<Rightarrow> int option" where
  "parse_uint s lo hi =
     (if list_all is_digit s \<and> lo \<le> int (digits_val s) \<and> int (digits_val s) \<le> hi
      then Some (int (digits_val s)) else None)"

definition parse_frac :: "gostring \<Rightarrow> int \<times> gostring" where
  "parse_frac s =
     (if 2 \<le> length s \<and> s ! 0 = CHR ''.'' \<and> is_digit (s ! 1) then
        let ds = takeWhile is_digit (drop 1 s); ds9 = take 9 ds
        in (int (digits_val ds9) * 10 ^ (9 - length ds9), drop (Suc (length ds)) s)
      else (0, s))"

definition parse_zone :: "gostring \<Rightarrow> int option" where
  "parse_zone s =
     (if s = ''Z'' then Some 0
      else if length s \<noteq> 6 then None
      else case (parse_uint (sub s 1 3) 0 23, parse_uint (sub s 4 6) 0 59) of
          (Some h, Some m) \<Rightarrow>
            if (s ! 0 = CHR ''-'' \<or> s ! 0 = CHR ''+'') \<and> s ! 3 = CHR '':''
            then Some ((if s ! 0 = CHR ''-'' then -1 else 1) * (h * 60 + m) * 60)
            else None
        | _ \<Rightarrow> None)"

definition parse_date_time :: "gostring \<Rightarrow> Civil option" where
  "parse_date_time s =
     (if length s < 19 then None
      else case (parse_uint (sub s 0 4) 0 9999, parse_uint (sub s 5 7) 1 12) of
          (Some y, Some mo) \<Rightarrow>
            (case (parse_uint (sub s 8 10) 1 (days_in_month (is_leap y) mo), parse_uint (sub s 11 13) 0 23) of
               (Some d, Some h) \<Rightarrow>
                 (case (parse_uint (sub s 14 16) 0 59, parse_uint (sub s 17 19) 0 59) of
                    (Some mi, Some sec) \<Rightarrow>
                      if s ! 4 = CHR ''-'' \<and> s ! 7 = CHR ''-'' \<and> s ! 10 = CHR ''T''
                         \<and> s ! 13 = CHR '':'' \<and> s ! 16 = CHR '':''
                      then Some \<lparr>cv_year = y, cv_month = mo, cv_day = d, cv_hour = h, cv_min = mi,
                                 cv_sec = sec, cv_nsec = 0\<rparr>
                      else None
                  | _ \<Rightarrow> None)
             | _ \<Rightarrow> None)
        | _ \<Rightarrow> None)"

text \<open>The dedicated routine for RFC 3339.\<close>

definition parse_rfc3339 :: "gostring \<Rightarrow> time option" where
  "parse_rfc3339 s =
     (case parse_date_time s of
        None \<Rightarrow> None
      | Some c \<Rightarrow>
          (case parse_frac (drop 19 s) of (ns, rest) \<Rightarrow>
             map_option (\<lambda>off. date_utc (c\<lparr>cv_nsec := ns\<rparr>) - off * second) (parse_zone rest)))"

definition parse_time :: "(gostring \<Rightarrow> time option) \<Rightarrow> gostring \<Rightarrow> time option" where
  "parse_time layout_parse s =
     (case parse_rfc3339 s of Some t \<Rightarrow> Some t | None \<Rightarrow> layout_parse s)"

section \<open>Reading back what was written\<close>

lemma pad2_field:
  assumes "0 \<le> n" and "n < 100"
  shows "parse_uint (pad2 n) lo hi = (if lo \<le> n \<and> n \<le> hi then Some n else None)"
proof -
  have d: "nat (n div 10) mod 10 < 10" "nat n mod 10 < 10"
    by simp_all
  have "digits_val (pad2 n) = (nat (n div 10) mod 10) * 10 + nat n mod 10"
    by (simp add: digits_val_def pad2_def digit_char_val)
  also have "\<dots> = nat n"
    using assms by (simp add: nat_div_distrib div_mod_decomp)
  finally have "digits_val (pad2 n) = nat n" .
  then show ?thesis
    using assms(1) digit_char_val [OF d(1)] digit_char_val [OF d(2)]
    by (simp add: parse_uint_def pad2_def)
qed

lemma length_pad2 [simp]: "length (pad2 n) = 2"
  by (simp add: pad2_def)

lemma digits_val_zeros: "digits_val (replicate k CHR ''0'' @ s) = digits_val s"
proof -
  have "foldl (\<lambda>acc c. acc * 10 + digit_val c) 0 (replicate k CHR ''0'') = 0"
    by (induction k) (simp_all add: digit_val_def)
  then show ?thesis
    by (simp add: digits_val_def)
qed

lemma length_show_nat: "n < 10 ^ w \<Longrightarrow> 1 \<le> w \<Longrightarrow> length (show_nat n) \<le> w"
proof (induction n arbitrary: w rule: show_nat.induct)
  case (1 n)
  show ?case
  proof (cases "n < 10")
    case True
    then show ?thesis
      using "1.prems" by (simp add: show_nat.simps [of n])
  next
    case False
    then obtain v where w: "w = Suc v" and v: "1 \<le> v"
      using "1.prems" by (cases w; cases "w - 1") auto
    have "n div 10 < 10 ^ v"
      using "1.prems"(1) by (simp add: w less_mult_imp_div_less mult.commute)
    then show ?thesis
      using "1.IH" [OF False _ v] False by (simp add: show_nat.simps [of n] w)
  qed
qed

lemma show_year_4:
  assumes "0 \<le> y" and "y \<le> 9999"
  shows "length (show_year y) = 4" and "parse_uint (show_year y) 0 9999 = Some y"
proof -
  have "nat y < 10 ^ 4"
    using assms by simp
  then have "length (show_nat (nat y)) \<le> 4"
    by (rule length_show_nat) simp
  then show "length (show_year y) = 4"
    using assms by (simp add: show_year_def zero_pad_def)
  have "is_digit CHR ''0''"
    by (simp add: is_digit_def in_range_def)
  then show "parse_uint (show_year y) 0 9999 = Some y"
    using assms show_nat_digits [of "nat y"]
    by (auto simp: parse_uint_def show_year_def zero_pad_def digits_val_zeros list_all_iff)
qed

lemma length_digits_fixed [simp]: "length (digits_fixed w n) = w"
  by (simp add: digits_fixed_def)

lemma digits_fixed_Suc: "digits_fixed (Suc w) n = digits_fixed w (n div 10) @ [digit_char (n mod 10)]"
proof -
  have "rev [0..<Suc w] = map Suc (rev [0..<w]) @ [0]"
    by (simp add: rev_map [symmetric] map_Suc_upt upt_conv_Cons del: upt_Suc)
  then show ?thesis
    by (simp add: digits_fixed_def div_mult2_eq o_def)
qed

lemma digits_fixed_val:
  "n < 10 ^ w \<Longrightarrow> digits_val (digits_fixed w n) = n \<and> list_all is_digit (digits_fixed w n)"
proof (induction w arbitrary: n)
  case 0
  then show ?case
    by (simp add: digits_fixed_def digits_val_def)
next
  case (Suc w)
  have "n div 10 < 10 ^ w"
    using Suc.prems by (simp add: less_mult_imp_div_less mult.commute)
  then show ?case
    using Suc.IH [of "n div 10"] digit_char_val [of "n mod 10"]
    by (simp add: digits_fixed_Suc digits_val_snoc)
qed

lemma replicate_snoc: "replicate (Suc k) x = replicate k x @ [x]"
  by (simp add: replicate_append_same)

lemma strip_zeros_snoc: "strip_zeros (s @ [c]) = (if c = CHR ''0'' then strip_zeros s else s @ [c])"
  by (simp add: strip_zeros_def trim_right_def)

lemma strip_zeros_decomp: "\<exists>k. s = strip_zeros s @ replicate k CHR ''0''"
proof (induction s rule: rev_induct)
  case Nil
  show ?case
    by (simp add: strip_zeros_def trim_right_def)
next
  case (snoc c s)
  then obtain k where k: "s = strip_zeros s @ replicate k CHR ''0''"
    by blast
  show ?case
  proof (cases "c = CHR ''0''")
    case True
    have "s @ [c] = strip_zeros (s @ [c]) @ replicate (Suc k) CHR ''0''"
      unfolding strip_zeros_snoc replicate_snoc using True k by simp
    then show ?thesis ..
  next
    case False
    then have "s @ [c] = strip_zeros (s @ [c]) @ replicate 0 CHR ''0''"
      by (simp add: strip_zeros_snoc)
    then show ?thesis ..
  qed
qed

lemma digits_val_trailing: "digits_val (s @ replicate k CHR ''0'') = digits_val s * 10 ^ k"
proof (induction k)
  case (Suc k)
  then show ?case
    unfolding replicate_snoc append_assoc [symmetric] digits_val_snoc by (simp add: digit_val_def)
qed simp

lemma parse_show_frac9:
  assumes "0 \<le> ns" and "ns < second"
  shows "parse_frac (show_frac9 ns @ ''Z'') = (ns, ''Z'')"
proof -
  define ds where "ds = digits_fixed 9 (nat ns)"
  define st where "st = strip_zeros ds"
  have val: "digits_val ds = nat ns" and dig: "list_all is_digit ds" and len: "length ds = 9"
    using digits_fixed_val [of "nat ns" 9] assms by (simp_all add: ds_def)
  obtain k where k: "ds = st @ replicate k CHR ''0''"
    using strip_zeros_decomp [of ds] st_def by blast
  have lens: "length st + k = 9" and digs: "list_all is_digit st"
    using len dig k by simp_all
  have v: "digits_val st * 10 ^ (9 - length st) = nat ns"
    using val digits_val_trailing [of st k] lens unfolding k [symmetric]
    by (metis add_diff_cancel_left')
  show ?thesis
  proof (cases "st = []")
    case True
    then have "ns = 0"
      using v assms(1) by (simp add: digits_val_def)
    moreover have "show_frac9 ns = []"
      using True by (simp add: show_frac9_def flip: ds_def st_def)
    ultimately show ?thesis
      by (simp add: parse_frac_def)
  next
    case False
    then have sf: "show_frac9 ns = CHR ''.'' # st"
      by (simp add: show_frac9_def flip: ds_def st_def)
    have nz: "\<not> is_digit CHR ''Z''"
      by (simp add: is_digit_def in_range_def)
    have tw: "takeWhile is_digit (st @ ''Z'') = st"
      using digs nz by (simp add: list_all_iff)
    have hd: "is_digit ((st @ ''Z'') ! 0)"
      using False digs by (cases st) simp_all
    have "int (digits_val st) * 10 ^ (9 - length st) = ns"
      using v assms(1) by (metis int_nat_eq of_nat_mult of_nat_numeral of_nat_power)
    then show ?thesis
      using False lens hd by (simp add: parse_frac_def sf tw Let_def)
  qed
qed

lemma sub_layout:
  fixes y0 y1 y2 y3 m0 m1 d0 d1 h0 h1 i0 i1 s0 s1 :: char and rest :: gostring
  defines "s \<equiv> [y0, y1, y2, y3, CHR ''-'', m0, m1, CHR ''-'', d0, d1, CHR ''T'', h0, h1, CHR '':'', i0, i1,
      CHR '':'', s0, s1] @ rest"
  shows "sub s 0 4 = [y0, y1, y2, y3]" and "sub s 5 7 = [m0, m1]" and "sub s 8 10 = [d0, d1]"
    and "sub s 11 13 = [h0, h1]" and "sub s 14 16 = [i0, i1]" and "sub s 17 19 = [s0, s1]"
    and "s ! 4 = CHR ''-'' \<and> s ! 7 = CHR ''-'' \<and> s ! 10 = CHR ''T'' \<and> s ! 13 = CHR '':'' \<and> s ! 16 = CHR '':''"
    and "\<not> length s < 19" and "drop 19 s = rest"
  by (simp_all add: s_def sub_def)

lemma pad2_pair: "\<exists>a b. pad2 n = [a, b]"
  by (simp add: pad2_def)

lemma parse_show_date_time:
  assumes ok: "civil_ok c" and y: "0 \<le> cv_year c" "cv_year c \<le> 9999"
  shows "parse_date_time (show_date_time c @ rest) = Some (c\<lparr>cv_nsec := 0\<rparr>)"
    and "drop 19 (show_date_time c @ rest) = rest"
proof -
  obtain y0 y1 y2 y3 where Y: "show_year (cv_year c) = [y0, y1, y2, y3]"
    using show_year_4(1) [OF y] by (auto simp: length_Suc_conv numeral_eq_Suc)
  obtain m0 m1 d0 d1 where M: "pad2 (cv_month c) = [m0, m1]" and D: "pad2 (cv_day c) = [d0, d1]"
    using pad2_pair by metis
  obtain h0 h1 i0 i1 s0 s1 where H: "pad2 (cv_hour c) = [h0, h1]" and I: "pad2 (cv_min c) = [i0, i1]"
      and S: "pad2 (cv_sec c) = [s0, s1]"
    using pad2_pair by metis
  have "days_in_month (is_leap (cv_year c)) (cv_month c) \<le> 31"
    by (simp add: days_in_month_def)
  then have day: "cv_day c < 100"
    using ok unfolding civil_ok_def by linarith
  have fields: "parse_uint [m0, m1] 1 12 = Some (cv_month c)"
      "parse_uint [d0, d1] 1 (days_in_month (is_leap (cv_year c)) (cv_month c)) = Some (cv_day c)"
      "parse_uint [h0, h1] 0 23 = Some (cv_hour c)"
      "parse_uint [i0, i1] 0 59 = Some (cv_min c)"
      "parse_uint [s0, s1] 0 59 = Some (cv_sec c)"
    using ok day unfolding M [symmetric] D [symmetric] H [symmetric] I [symmetric] S [symmetric]
    by (simp_all add: civil_ok_def pad2_field)
  have layout: "show_date_time c @ rest = [y0, y1, y2, y3, CHR ''-'', m0, m1, CHR ''-'', d0, d1, CHR ''T'', h0, h1,
      CHR '':'', i0, i1, CHR '':'', s0, s1] @ rest"
    by (simp add: show_date_time_def Y M D H I S)
  show "parse_date_time (show_date_time c @ rest) = Some (c\<lparr>cv_nsec := 0\<rparr>)"
    unfolding layout parse_date_time_def
    using show_year_4(2) [OF y]
    by (simp only: sub_layout fields Y option.case prod.case if_False if_True) simp
  show "drop 19 (show_date_time c @ rest) = rest"
    unfolding layout by (rule sub_layout)
qed

lemma parse_format_rfc3339nano:
  assumes "0 \<le> cv_year (civil t)" and "cv_year (civil t) \<le> 9999"
  shows "parse_rfc3339 (format_rfc3339nano t) = Some t"
proof -
  have ok: "civil_ok (civil t)" and date: "date_utc (civil t) = t"
    using civil_date [of t] by auto
  have ns: "0 \<le> cv_nsec (civil t)" "cv_nsec (civil t) < second"
    using ok by (simp_all add: civil_ok_def)
  show ?thesis
    unfolding parse_rfc3339_def format_rfc3339nano_def
      parse_show_date_time [OF ok assms] option.case parse_show_frac9 [OF ns] prod.case
    using date by (simp add: parse_zone_def)
qed

lemma parse_time_format [simp]:
  assumes "0 \<le> cv_year (civil t)" and "cv_year (civil t) \<le> 9999"
  shows "parse_time layout_parse (format_rfc3339nano t) = Some t"
  by (simp add: parse_time_def parse_format_rfc3339nano [OF assms])

section \<open>The API's timestamps (jsontime)\<close>

text \<open>\<open>jsontime.New\<close> keeps whole milliseconds.\<close>

definition jsontime_New :: "time \<Rightarrow> time" where
  "jsontime_New t = t - t mod millisecond"

text \<open>\<open>jsontime.Now\<close>.\<close>

definition jsontime_Now :: "Draw \<Rightarrow> time" where
  "jsontime_Now d = jsontime_New (d_now d)"

text \<open>\<open>Time.MarshalJSON\<close>: the layout \<open>2006-01-02T15:04:05.000Z\<close> between quotes.\<close>

definition jsontime_Marshal :: "time \<Rightarrow> gostring" where
  "jsontime_Marshal t =
     CHR 0x22 # show_date_time (civil t) @ CHR ''.'' # digits_fixed 3 (nat (cv_nsec (civil t) div millisecond))
       @ [CHR ''Z'', CHR 0x22]"

text \<open>\<open>Time.UnmarshalJSON\<close>: \<open>None\<close> is the error.\<close>

definition trim_quotes :: "gostring \<Rightarrow> gostring" where
  "trim_quotes s = trim_right CHR 0x22 (dropWhile (\<lambda>c. c = CHR 0x22) s)"

definition jsontime_Unmarshal :: "(gostring \<Rightarrow> time option) \<Rightarrow> gostring \<Rightarrow> time option" where
  "jsontime_Unmarshal layout_parse raw =
     (let s = trim_quotes raw
      in if s = [] \<or> s = ''null'' then Some 0
         else map_option jsontime_New (parse_time layout_parse s))"

lemma jsontime_New_idem [simp]: "jsontime_New (jsontime_New t) = jsontime_New t"
  by (simp add: jsontime_New_def)

lemma jsontime_New_bounds: "jsontime_New t \<le> t \<and> t < jsontime_New t + millisecond"
  using pos_mod_bound [of millisecond t] by (simp add: jsontime_New_def)

lemma jsontime_New_mono: "t \<le> u \<Longrightarrow> jsontime_New t \<le> jsontime_New u"
  by (simp add: jsontime_New_def minus_mod_eq_mult_div zdiv_mono1)

lemma parse_frac_3:
  assumes "0 \<le> ms" and "ms < 1000"
  shows "parse_frac (CHR ''.'' # digits_fixed 3 (nat ms) @ ''Z'') = (ms * millisecond, ''Z'')"
proof -
  define ds where "ds = digits_fixed 3 (nat ms)"
  have val: "digits_val ds = nat ms" and dig: "list_all is_digit ds" and len: "length ds = 3"
    using digits_fixed_val [of "nat ms" 3] assms by (simp_all add: ds_def)
  have "\<not> is_digit CHR ''Z''"
    by (simp add: is_digit_def in_range_def)
  then have tw: "takeWhile is_digit (ds @ ''Z'') = ds"
    using dig by (simp add: list_all_iff)
  have hd: "is_digit ((ds @ ''Z'') ! 0)"
    using len dig by (cases ds) simp_all
  show ?thesis
    unfolding ds_def [symmetric] using assms(1) len val hd by (simp add: parse_frac_def tw Let_def)
qed

lemma civil_whole_ms:
  assumes "t mod millisecond = 0"
  shows "cv_nsec (civil t) = cv_nsec (civil t) div millisecond * millisecond"
proof -
  have "cv_nsec (civil t) = t mod (24 * hour) mod second"
    by (simp add: civil_def Let_def case_prod_beta)
  also have "\<dots> = t mod second"
    by (simp add: mod_mod_cancel)
  finally have "cv_nsec (civil t) mod millisecond = t mod second mod millisecond"
    by simp
  also have "\<dots> = 0"
    using assms by (simp add: mod_mod_cancel)
  finally show ?thesis
    by (simp add: minus_mod_eq_div_mult [symmetric])
qed

lemma jsontime_roundtrip_New:
  assumes y: "0 \<le> cv_year (civil t)" "cv_year (civil t) \<le> 9999" and ms: "t mod millisecond = 0"
  shows "jsontime_Unmarshal layout_parse (jsontime_Marshal t) = Some t"
proof -
  let ?c = "civil t"
  let ?ms = "cv_nsec ?c div millisecond"
  define body where "body = show_date_time ?c @ CHR ''.'' # digits_fixed 3 (nat ?ms) @ ''Z''"
  have ok: "civil_ok ?c" and date: "date_utc ?c = t"
    using civil_date [of t] by auto
  have "0 \<le> cv_nsec ?c" "cv_nsec ?c \<le> second - 1"
    using ok by (simp_all add: civil_ok_def)
  then have r: "0 \<le> ?ms" "?ms < 1000"
    using zdiv_mono1 [of "cv_nsec ?c" "second - 1" millisecond] by (simp_all add: pos_imp_zdiv_nonneg_iff)
  have "parse_rfc3339 body = Some t"
    unfolding parse_rfc3339_def body_def parse_show_date_time [OF ok y] option.case parse_frac_3 [OF r] prod.case
      civil_whole_ms [OF ms, symmetric]
    using date by (simp add: parse_zone_def)
  moreover obtain y0 ys where head: "body = y0 # ys" and "is_digit y0"
    using show_year_4 [OF y]
    by (cases "show_year (cv_year ?c)") (auto simp: parse_uint_def body_def show_date_time_def split: if_splits)
  moreover from \<open>is_digit y0\<close> have ne: "y0 \<noteq> CHR 0x22" "y0 \<noteq> CHR ''n''"
    by (auto simp: is_digit_def in_range_def)
  moreover obtain zs where tail: "body = zs @ ''Z''"
    by (simp add: body_def)
  moreover have "jsontime_Marshal t = CHR 0x22 # body @ [CHR 0x22]"
    by (simp add: jsontime_Marshal_def body_def)
  moreover have "dropWhile (\<lambda>c. c = CHR 0x22) (body @ [CHR 0x22]) = body @ [CHR 0x22]"
    using head ne by simp
  then have "trim_quotes (CHR 0x22 # body @ [CHR 0x22]) = body"
    by (simp add: trim_quotes_def trim_right_def tail)
  ultimately show ?thesis
    using ms by (simp add: jsontime_Unmarshal_def Let_def parse_time_def jsontime_New_def)
qed

end
