(* ===== verification/Encoding.thy ===== *)
theory Encoding
  imports GoStrings
begin

text \<open>
  The byte encodings the program uses: \<open>encoding/hex\<close>, unpadded base32 over the alphabet of
  \<open>store/id.go\<close>, standard padded base64 (with its decoder, for cursors) and unpadded
  URL-safe base64 (for refresh tokens).
\<close>

section \<open>Bytes as numbers\<close>

lemma of_char_lt: "of_char (c :: char) < (256 :: nat)"
  by simp

lemma shift_add_div:
  fixes r t m :: nat
  assumes "t < m"
  shows "(r * m + t) div m = r" and "(r * m + t) mod m = t"
  using assms by simp_all

section \<open>hex\<close>

definition hex_char :: "nat \<Rightarrow> char" where
  "hex_char d = (if d < 10 then char_of (48 + d) else char_of (87 + d))"

definition hex_encode :: "gostring \<Rightarrow> gostring" where
  "hex_encode s = concat (map (\<lambda>c. [hex_char (of_char c div 16), hex_char (of_char c mod 16)]) s)"

lemma length_hex_encode [simp]: "length (hex_encode s) = 2 * length s"
  by (induction s) (simp_all add: hex_encode_def)

section \<open>base32 and opaque identifiers\<close>

definition b32_char :: "nat \<Rightarrow> char" where
  "b32_char d = (if d < 26 then char_of (97 + d) else char_of (24 + d))"

text \<open>One 5-byte block, as the 40-bit number it spells, is 8 characters.\<close>

definition b32_digits :: "nat \<Rightarrow> gostring" where
  "b32_digits n = map (\<lambda>k. b32_char (n div 32 ^ k mod 32)) [7, 6, 5, 4, 3, 2, 1, 0]"

fun b32_encode :: "gostring \<Rightarrow> gostring" where
  "b32_encode (a # b # c # d # e # rest) =
     b32_digits ((((of_char a * 256 + of_char b) * 256 + of_char c) * 256 + of_char d) * 256 + of_char e)
     @ b32_encode rest"
| "b32_encode [] = []"
| "b32_encode [a] = take 2 (b32_digits (of_char a * 256 ^ 4))"
| "b32_encode [a, b] = take 4 (b32_digits ((of_char a * 256 + of_char b) * 256 ^ 3))"
| "b32_encode [a, b, c] = take 5 (b32_digits (((of_char a * 256 + of_char b) * 256 + of_char c) * 256 ^ 2))"
| "b32_encode [a, b, c, d] =
     take 7 (b32_digits ((((of_char a * 256 + of_char b) * 256 + of_char c) * 256 + of_char d) * 256))"

definition is_id_char :: "char \<Rightarrow> bool" where
  "is_id_char c \<longleftrightarrow> in_range 97 122 (of_char c) \<or> in_range 50 55 (of_char c)"

lemma is_id_char_b32: "d < 32 \<Longrightarrow> is_id_char (b32_char d)"
  by (auto simp: is_id_char_def b32_char_def in_range_def)

lemma b32_digits_id: "list_all is_id_char (b32_digits n)"
  by (simp add: b32_digits_def is_id_char_b32)

lemma list_all_take: "list_all P xs \<Longrightarrow> list_all P (take n xs)"
  by (auto simp: list_all_iff dest: in_set_takeD)

lemma b32_encode_id: "list_all is_id_char (b32_encode s)"
  by (induction s rule: b32_encode.induct) (simp_all add: b32_digits_id list_all_take)

lemma length_b32_digits [simp]: "length (b32_digits n) = 8"
  by (simp add: b32_digits_def)

text \<open>\<open>store.NewID\<close>: 16 random bytes in base32.\<close>

definition NewID :: "Draw \<Rightarrow> gostring" where
  "NewID d = b32_encode (rand_bytes d 16)"

lemma length_b32_encode: "length (b32_encode s) = (8 * length s + 4) div 5"
  by (induction s rule: b32_encode.induct) auto

lemma length_NewID [simp]: "length (NewID d) = 26"
  by (simp add: NewID_def length_b32_encode)

lemma NewID_nonempty [simp]: "NewID d \<noteq> []"
proof
  assume "NewID d = []"
  then have "length (NewID d) = 0" by simp
  then show False by simp
qed

lemma NewID_chars: "list_all is_id_char (NewID d)"
  by (simp add: NewID_def b32_encode_id)

lemma is_id_char_ascii: "is_id_char c \<Longrightarrow> of_char c < (128 :: nat)"
  by (auto simp: is_id_char_def in_range_def)

section \<open>base64\<close>

definition b64_char :: "nat \<Rightarrow> char" where
  "b64_char d =
     char_of (if d < 26 then d + 65 else if d < 52 then d + 71 else if d < 62 then d - 4
              else if d = 62 then 43 else 47)"

definition b64_val :: "char \<Rightarrow> nat option" where
  "b64_val c =
     (let n = of_char c
      in if in_range 65 90 n then Some (n - 65)
         else if in_range 97 122 n then Some (n - 71)
         else if in_range 48 57 n then Some (n + 4)
         else if n = 43 then Some 62
         else if n = 47 then Some 63
         else None)"

lemma b64_val_char [simp]: "d < 64 \<Longrightarrow> b64_val (b64_char d) = Some d"
  by (auto simp: b64_val_def b64_char_def in_range_def Let_def)

text \<open>\<open>base64.StdEncoding.EncodeToString\<close>.\<close>

fun b64_encode :: "gostring \<Rightarrow> gostring" where
  "b64_encode (a # b # c # rest) =
     (let x = of_char a; y = of_char b; z = of_char c
      in [b64_char (x div 4), b64_char (x mod 4 * 16 + y div 16), b64_char (y mod 16 * 4 + z div 64),
          b64_char (z mod 64)] @ b64_encode rest)"
| "b64_encode [] = []"
| "b64_encode [a] =
     (let x = of_char a in [b64_char (x div 4), b64_char (x mod 4 * 16), CHR ''='', CHR ''=''])"
| "b64_encode [a, b] =
     (let x = of_char a; y = of_char b
      in [b64_char (x div 4), b64_char (x mod 4 * 16 + y div 16), b64_char (y mod 16 * 4), CHR ''=''])"

text \<open>
  \<open>base64.StdEncoding.DecodeString\<close>: carriage returns and newlines are skipped, the last
  quantum may be padded, bits a padded quantum does not use are ignored, and anything after
  the padding is an error.
\<close>

fun b64_quanta :: "gostring \<Rightarrow> gostring option" where
  "b64_quanta [] = Some []"
| "b64_quanta (a # b # c # d # rest) =
     (case (b64_val a, b64_val b) of
        (Some w, Some x) \<Rightarrow>
          if c = CHR ''='' then
            (if d = CHR ''='' \<and> rest = [] then Some [char_of (w * 4 + x div 16)] else None)
          else (case b64_val c of
            None \<Rightarrow> None
          | Some y \<Rightarrow>
              if d = CHR ''='' then
                (if rest = [] then Some [char_of (w * 4 + x div 16), char_of (x mod 16 * 16 + y div 4)]
                 else None)
              else (case b64_val d of
                None \<Rightarrow> None
              | Some z \<Rightarrow>
                  map_option
                    (\<lambda>bs. char_of (w * 4 + x div 16) # char_of (x mod 16 * 16 + y div 4)
                          # char_of (y mod 4 * 64 + z) # bs)
                    (b64_quanta rest)))
      | _ \<Rightarrow> None)"
| "b64_quanta _ = None"

definition b64_decode :: "gostring \<Rightarrow> gostring option" where
  "b64_decode s = b64_quanta (filter (\<lambda>c. c \<noteq> CHR 0x0A \<and> c \<noteq> CHR 0x0D) s)"

lemma b64_char_code: "d < 64 \<Longrightarrow> of_char (b64_char d) =
    (if d < 26 then d + 65 else if d < 52 then d + 71 else if d < 62 then d - 4
     else if d = 62 then 43 else 47)"
  by (simp add: b64_char_def)

lemma b64_char_neq:
  assumes "d < 64"
  shows "b64_char d \<noteq> CHR ''=''" and "b64_char d \<noteq> CHR 0x0A" and "b64_char d \<noteq> CHR 0x0D"
proof -
  have "of_char (b64_char d) \<noteq> (61 :: nat)" "of_char (b64_char d) \<noteq> (10 :: nat)"
      "of_char (b64_char d) \<noteq> (13 :: nat)"
    unfolding b64_char_code [OF assms] by (auto split: if_splits)
  then show "b64_char d \<noteq> CHR ''=''" and "b64_char d \<noteq> CHR 0x0A" and "b64_char d \<noteq> CHR 0x0D"
    by auto
qed

lemma b64_digits_lt:
  fixes a b c :: char
  shows "of_char a div 4 < (64 :: nat)" and "of_char a mod 4 * 16 < (64 :: nat)"
    and "of_char a mod 4 * 16 + of_char b div 16 < (64 :: nat)"
    and "of_char b mod 16 * 4 < (64 :: nat)"
    and "of_char b mod 16 * 4 + of_char c div 64 < (64 :: nat)"
    and "of_char c mod 64 < (64 :: nat)"
proof -
  have div_lt: "of_char a div 4 < (64 :: nat)" "of_char b div 16 < (16 :: nat)" "of_char c div 64 < (4 :: nat)"
    using of_char_lt [of a] of_char_lt [of b] of_char_lt [of c]
    by (auto intro: less_mult_imp_div_less)
  note mod_lt = mod_less_divisor [of 4 "of_char a"] mod_less_divisor [of 16 "of_char b"]
  show "of_char a div 4 < (64 :: nat)" and "of_char a mod 4 * 16 < (64 :: nat)"
    and "of_char a mod 4 * 16 + of_char b div 16 < (64 :: nat)"
    and "of_char b mod 16 * 4 < (64 :: nat)"
    and "of_char b mod 16 * 4 + of_char c div 64 < (64 :: nat)"
    and "of_char c mod 64 < (64 :: nat)"
    using div_lt mod_lt by linarith+
qed

lemma b64_bytes:
  fixes x y z :: nat
  assumes "y < 256" "z < 256"
  shows "x div 4 * 4 + (x mod 4 * 16 + y div 16) div 16 = x"
    and "x div 4 * 4 + x mod 4 * 16 div 16 = x"
    and "(x mod 4 * 16 + y div 16) mod 16 * 16 + (y mod 16 * 4 + z div 64) div 4 = y"
    and "(x mod 4 * 16 + y div 16) mod 16 * 16 + y mod 16 * 4 div 4 = y"
    and "(y mod 16 * 4 + z div 64) mod 4 * 64 + z mod 64 = z"
proof -
  have y: "y div 16 < 16" and z: "z div 64 < 4"
    using assms by auto
  show "x div 4 * 4 + (x mod 4 * 16 + y div 16) div 16 = x"
    and "x div 4 * 4 + x mod 4 * 16 div 16 = x"
    and "(x mod 4 * 16 + y div 16) mod 16 * 16 + (y mod 16 * 4 + z div 64) div 4 = y"
    and "(x mod 4 * 16 + y div 16) mod 16 * 16 + y mod 16 * 4 div 4 = y"
    and "(y mod 16 * 4 + z div 64) mod 4 * 64 + z mod 64 = z"
    by (simp_all only: shift_add_div [OF y] shift_add_div [OF z] div_mult_mod_eq nonzero_mult_div_cancel_right
        zero_neq_numeral not_False_eq_True mult.commute [of _ "4 :: nat"] mult_div_mod_eq)
      (use z in simp_all)
qed

lemma b64_quanta_encode: "b64_quanta (b64_encode s) = Some s"
proof (induction s rule: b64_encode.induct)
  case (1 a b c rest)
  note eq = b64_bytes [OF of_char_lt of_char_lt]
  show ?case
    using 1 by (simp only: b64_encode.simps Let_def append.simps b64_quanta.simps b64_val_char [OF b64_digits_lt(1)]
        b64_val_char [OF b64_digits_lt(3)] b64_val_char [OF b64_digits_lt(5)] b64_val_char [OF b64_digits_lt(6)]
        b64_char_neq(1) [OF b64_digits_lt(5)] b64_char_neq(1) [OF b64_digits_lt(6)] eq char_of_char prod.case option.case
        if_False option.map)
next
  case (3 a)
  note eq = b64_bytes [OF of_char_lt of_char_lt]
  show ?case
    by (simp only: b64_encode.simps Let_def b64_quanta.simps b64_val_char [OF b64_digits_lt(1)]
        b64_val_char [OF b64_digits_lt(2)] eq char_of_char prod.case option.case if_True simp_thms)
next
  case (4 a b)
  note eq = b64_bytes [OF of_char_lt of_char_lt]
  show ?case
    by (simp only: b64_encode.simps Let_def b64_quanta.simps b64_val_char [OF b64_digits_lt(1)]
        b64_val_char [OF b64_digits_lt(3)] b64_val_char [OF b64_digits_lt(4)] b64_char_neq(1) [OF b64_digits_lt(4)] eq char_of_char
        prod.case option.case if_True if_False simp_thms)
qed simp

lemma b64_encode_no_newline:
  "list_all (\<lambda>c. c \<noteq> CHR 0x0A \<and> c \<noteq> CHR 0x0D) (b64_encode s)"
proof (induction s rule: b64_encode.induct)
  case (1 a b c rest)
  show ?case
    using 1 by (simp add: Let_def b64_char_neq(2,3) [OF b64_digits_lt(1)] b64_char_neq(2,3) [OF b64_digits_lt(3)]
        b64_char_neq(2,3) [OF b64_digits_lt(5)] b64_char_neq(2,3) [OF b64_digits_lt(6)])
next
  case (3 a)
  show ?case
    by (simp add: Let_def b64_char_neq(2,3) [OF b64_digits_lt(1)] b64_char_neq(2,3) [OF b64_digits_lt(2)])
next
  case (4 a b)
  show ?case
    by (simp add: Let_def b64_char_neq(2,3) [OF b64_digits_lt(1)] b64_char_neq(2,3) [OF b64_digits_lt(3)]
        b64_char_neq(2,3) [OF b64_digits_lt(4)])
qed simp

lemma b64_decode_encode: "b64_decode (b64_encode s) = Some s"
proof -
  have "filter (\<lambda>c. c \<noteq> CHR 0x0A \<and> c \<noteq> CHR 0x0D) (b64_encode s) = b64_encode s"
    using b64_encode_no_newline [of s] by (simp add: list_all_iff)
  then show ?thesis
    unfolding b64_decode_def by (simp only: b64_quanta_encode)
qed

lemma b64_encode_Nil_iff: "b64_encode s = [] \<longleftrightarrow> s = []"
  by (cases s rule: b64_encode.cases) (simp_all add: Let_def)

text \<open>\<open>base64.RawURLEncoding.EncodeToString\<close>: the URL-safe alphabet, no padding.\<close>

definition b64_url :: "gostring \<Rightarrow> gostring" where
  "b64_url s =
     map (\<lambda>c. if c = CHR ''+'' then CHR ''-'' else if c = CHR ''/'' then CHR ''_'' else c)
       (filter (\<lambda>c. c \<noteq> CHR ''='') (b64_encode s))"

end
