(* ===== verification/Json.thy ===== *)
theory Json
  imports GoStrings
begin

text \<open>
  The part of \<open>encoding/json\<close> the program relies on: the grammar its scanner accepts (with
  its nesting limit), string literals written by \<open>Marshal\<close>, and string literals read back by
  \<open>Unmarshal\<close>.  A parsed string keeps its raw bytes, because \<open>time.Time\<close> decodes the raw
  literal while a Go string decodes the unquoted one.
\<close>

abbreviation dquote :: char where "dquote \<equiv> CHR 0x22"
abbreviation backslash :: char where "backslash \<equiv> CHR 0x5C"

datatype json =
    JNull
  | JBool bool
  | JNum gostring
  | JStr gostring
  | JArr "json list"
  | JObj "(gostring \<times> json) list"

section \<open>Scanning\<close>

definition is_ws :: "char \<Rightarrow> bool" where
  "is_ws c \<longleftrightarrow> c \<in> {CHR '' '', CHR 0x09, CHR 0x0A, CHR 0x0D}"

definition skip_ws :: "gostring \<Rightarrow> gostring" where
  "skip_ws = dropWhile is_ws"

definition hex_val :: "char \<Rightarrow> nat option" where
  "hex_val c =
     (let n = of_char c
      in if in_range 48 57 n then Some (n - 48)
         else if in_range 97 102 n then Some (n - 87)
         else if in_range 65 70 n then Some (n - 55)
         else None)"

definition is_hex :: "char \<Rightarrow> bool" where
  "is_hex c \<longleftrightarrow> hex_val c \<noteq> None"

definition plain_char :: "char \<Rightarrow> bool" where
  "plain_char c \<longleftrightarrow> c \<noteq> dquote \<and> c \<noteq> backslash \<and> (32 :: nat) \<le> of_char c"

text \<open>The raw bytes of a string literal after its opening quote, and what follows it.\<close>

fun scan_string :: "gostring \<Rightarrow> (gostring \<times> gostring) option" where
  "scan_string [] = None"
| "scan_string (c # cs) =
     (if c = dquote then Some ([], cs)
      else if c = backslash then
        (case cs of
           [] \<Rightarrow> None
         | e # es \<Rightarrow>
             if e \<in> {dquote, backslash, CHR ''/'', CHR ''b'', CHR ''f'', CHR ''n'', CHR ''r'', CHR ''t''} then
               map_option (\<lambda>(raw, rest). (c # e # raw, rest)) (scan_string es)
             else if e = CHR ''u'' then
               (case es of
                  h1 # h2 # h3 # h4 # rest' \<Rightarrow>
                    if list_all is_hex [h1, h2, h3, h4] then
                      map_option (\<lambda>(raw, rest). (c # e # h1 # h2 # h3 # h4 # raw, rest)) (scan_string rest')
                    else None
                | _ \<Rightarrow> None)
             else None)
      else if plain_char c then map_option (\<lambda>(raw, rest). (c # raw, rest)) (scan_string cs)
      else None)"

definition scan_digits :: "gostring \<Rightarrow> gostring \<times> gostring" where
  "scan_digits s = (takeWhile is_digit s, dropWhile is_digit s)"

definition scan_int :: "gostring \<Rightarrow> (gostring \<times> gostring) option" where
  "scan_int s =
     (case s of
        [] \<Rightarrow> None
      | c # cs \<Rightarrow>
          if c = CHR ''0'' then Some ([c], cs)
          else if is_digit c then Some (scan_digits s)
          else None)"

definition scan_frac :: "gostring \<Rightarrow> (gostring \<times> gostring) option" where
  "scan_frac s =
     (case s of
        c # cs \<Rightarrow>
          if c = CHR ''.'' then
            (case scan_digits cs of (ds, rest) \<Rightarrow> if ds = [] then None else Some (c # ds, rest))
          else Some ([], s)
      | [] \<Rightarrow> Some ([], []))"

definition scan_exp :: "gostring \<Rightarrow> (gostring \<times> gostring) option" where
  "scan_exp s =
     (case s of
        c # cs \<Rightarrow>
          if c = CHR ''e'' \<or> c = CHR ''E'' then
            (let (sign, ds0) =
                   (case cs of g # gs \<Rightarrow> if g = CHR ''+'' \<or> g = CHR ''-'' then ([g], gs) else ([], cs) | [] \<Rightarrow> ([], []));
                 (ds, rest) = scan_digits ds0
             in if ds = [] then None else Some (c # sign @ ds, rest))
          else Some ([], s)
      | [] \<Rightarrow> Some ([], []))"

definition scan_number :: "gostring \<Rightarrow> (gostring \<times> gostring) option" where
  "scan_number s =
     (let (sign, s1) = (case s of c # cs \<Rightarrow> if c = CHR ''-'' then ([c], cs) else ([], s) | [] \<Rightarrow> ([], []))
      in case scan_int s1 of
           None \<Rightarrow> None
         | Some (i, s2) \<Rightarrow>
             (case scan_frac s2 of
                None \<Rightarrow> None
              | Some (f, s3) \<Rightarrow>
                  map_option (\<lambda>(e, s4). (sign @ i @ f @ e, s4)) (scan_exp s3)))"

text \<open>
  Values.  Every recursive call has consumed a byte or moved from a list to its first
  element, so \<open>2 * length s + 2\<close> units of fuel are enough for a text \<open>s\<close>.  \<open>d\<close> is the
  nesting the scanner still allows.
\<close>

fun json_value :: "nat \<Rightarrow> nat \<Rightarrow> gostring \<Rightarrow> (json \<times> gostring) option"
  and json_elems :: "nat \<Rightarrow> nat \<Rightarrow> gostring \<Rightarrow> (json list \<times> gostring) option"
  and json_members :: "nat \<Rightarrow> nat \<Rightarrow> gostring \<Rightarrow> ((gostring \<times> json) list \<times> gostring) option" where
  "json_value 0 d s = None"
| "json_value (Suc n) d s =
     (case skip_ws s of
        [] \<Rightarrow> None
      | c # cs \<Rightarrow>
          if c = dquote then map_option (\<lambda>(raw, rest). (JStr raw, rest)) (scan_string cs)
          else if c = CHR ''{'' then
            (if d = 0 then None
             else (case skip_ws cs of
                 [] \<Rightarrow> None
               | c2 # cs2 \<Rightarrow>
                   if c2 = CHR ''}'' then Some (JObj [], cs2)
                   else map_option (\<lambda>(ms, rest). (JObj ms, rest)) (json_members n (d - 1) cs)))
          else if c = CHR ''['' then
            (if d = 0 then None
             else (case skip_ws cs of
                 [] \<Rightarrow> None
               | c2 # cs2 \<Rightarrow>
                   if c2 = CHR '']'' then Some (JArr [], cs2)
                   else map_option (\<lambda>(vs, rest). (JArr vs, rest)) (json_elems n (d - 1) cs)))
          else if take 4 (c # cs) = ''true'' then Some (JBool True, drop 4 (c # cs))
          else if take 5 (c # cs) = ''false'' then Some (JBool False, drop 5 (c # cs))
          else if take 4 (c # cs) = ''null'' then Some (JNull, drop 4 (c # cs))
          else map_option (\<lambda>(raw, rest). (JNum raw, rest)) (scan_number (c # cs)))"
| "json_elems 0 d s = None"
| "json_elems (Suc n) d s =
     (case json_value n d s of
        None \<Rightarrow> None
      | Some (v, rest) \<Rightarrow>
          (case skip_ws rest of
             [] \<Rightarrow> None
           | c # cs \<Rightarrow>
               if c = CHR '']'' then Some ([v], cs)
               else if c = CHR '','' then map_option (\<lambda>(vs, rest'). (v # vs, rest')) (json_elems n d cs)
               else None))"
| "json_members 0 d s = None"
| "json_members (Suc n) d s =
     (case skip_ws s of
        [] \<Rightarrow> None
      | q # qs \<Rightarrow>
          if q \<noteq> dquote then None
          else (case scan_string qs of
              None \<Rightarrow> None
            | Some (k, rest) \<Rightarrow>
                (case skip_ws rest of
                   [] \<Rightarrow> None
                 | c # cs \<Rightarrow>
                     if c \<noteq> CHR '':'' then None
                     else (case json_value n d cs of
                         None \<Rightarrow> None
                       | Some (v, rest2) \<Rightarrow>
                           (case skip_ws rest2 of
                              [] \<Rightarrow> None
                            | e # es \<Rightarrow>
                                if e = CHR ''}'' then Some ([(k, v)], es)
                                else if e = CHR '','' then
                                  map_option (\<lambda>(ms, rest3). ((k, v) # ms, rest3)) (json_members n d es)
                                else None)))))"

definition max_nesting :: nat where "max_nesting = 10000"

text \<open>The one value of a complete JSON text, as \<open>json.Unmarshal\<close> checks it.\<close>

definition json_parse :: "gostring \<Rightarrow> json option" where
  "json_parse s =
     (case json_value (2 * length s + 2) max_nesting s of
        None \<Rightarrow> None
      | Some (v, rest) \<Rightarrow> if skip_ws rest = [] then Some v else None)"

section \<open>String literals\<close>

definition hex_digit :: "nat \<Rightarrow> char" where
  "hex_digit d = (if d < 10 then char_of (48 + d) else char_of (87 + d))"

definition u_escape :: "nat \<Rightarrow> gostring" where
  "u_escape r =
     [backslash, CHR ''u'', hex_digit (r div 4096 mod 16), hex_digit (r div 256 mod 16),
      hex_digit (r div 16 mod 16), hex_digit (r mod 16)]"

text \<open>How \<open>json.Marshal\<close> writes one rune of a string (with HTML escaping on).\<close>

definition escape_rune :: "nat \<times> gostring \<Rightarrow> gostring" where
  "escape_rune p =
     (case p of (r, bs) \<Rightarrow>
        if r = 0x22 \<or> r = 0x5C then backslash # bs
        else if r = 0x08 then [backslash, CHR ''b'']
        else if r = 0x0C then [backslash, CHR ''f'']
        else if r = 0x0A then [backslash, CHR ''n'']
        else if r = 0x0D then [backslash, CHR ''r'']
        else if r = 0x09 then [backslash, CHR ''t'']
        else if r < 32 \<or> r = 0x3C \<or> r = 0x3E \<or> r = 0x26 then u_escape r
        else if r = rune_error \<and> length bs = 1 then u_escape rune_error
        else if r = 0x2028 \<or> r = 0x2029 then u_escape r
        else bs)"

definition json_string :: "gostring \<Rightarrow> gostring" where
  "json_string s = dquote # concat (map escape_rune (runes s)) @ [dquote]"

definition is_surrogate :: "nat \<Rightarrow> bool" where
  "is_surrogate r \<longleftrightarrow> in_range 0xD800 0xDFFF r"

definition hex4 :: "char \<Rightarrow> char \<Rightarrow> char \<Rightarrow> char \<Rightarrow> nat" where
  "hex4 a b c d =
     (let v = (\<lambda>x. case hex_val x of None \<Rightarrow> 0 | Some n \<Rightarrow> n)
      in ((v a * 16 + v b) * 16 + v c) * 16 + v d)"

text \<open>\<open>utf16.DecodeRune\<close>: \<open>None\<close> when the two halves are not a surrogate pair.\<close>

definition utf16_decode :: "nat \<Rightarrow> nat \<Rightarrow> nat option" where
  "utf16_decode r1 r2 =
     (if in_range 0xD800 0xDBFF r1 \<and> in_range 0xDC00 0xDFFF r2
      then Some ((r1 - 0xD800) * 1024 + (r2 - 0xDC00) + 0x10000) else None)"

definition simple_escape :: "char \<Rightarrow> char" where
  "simple_escape e =
     (if e = CHR ''b'' then CHR 0x08 else if e = CHR ''f'' then CHR 0x0C
      else if e = CHR ''n'' then CHR 0x0A else if e = CHR ''r'' then CHR 0x0D
      else if e = CHR ''t'' then CHR 0x09 else e)"

text \<open>
  The Go string a scanned literal denotes: escapes resolved, surrogate pairs joined, invalid
  UTF-8 and lone surrogates replaced by U+FFFD.
\<close>

function unquote :: "gostring \<Rightarrow> gostring" where
  "unquote [] = []"
| "unquote (c # cs) =
     (if c = backslash then
        (case cs of
           [] \<Rightarrow> []
         | e # es \<Rightarrow>
             if e = CHR ''u'' then
               (case es of
                  a # b # x # y # rest \<Rightarrow>
                    (let r = hex4 a b x y
                     in if is_surrogate r then
                          (case rest of
                             b2 # u2 # a' # b' # x' # y' # rest' \<Rightarrow>
                               (case (if b2 = backslash \<and> u2 = CHR ''u'' \<and> list_all is_hex [a', b', x', y']
                                      then utf16_decode r (hex4 a' b' x' y') else None) of
                                  Some r' \<Rightarrow> encode_rune r' @ unquote rest'
                                | None \<Rightarrow> encode_rune rune_error @ unquote rest)
                           | _ \<Rightarrow> encode_rune rune_error @ unquote rest)
                        else encode_rune r @ unquote rest)
                | _ \<Rightarrow> [])
             else simple_escape e # unquote es)
      else if of_char c < (128 :: nat) then c # unquote cs
      else (case decode_rune (c # cs) of
              (r, w) \<Rightarrow> encode_rune r @ unquote (drop (w - 1) cs)))"
  by pat_completeness auto
termination
  by (relation "measure length") auto

section \<open>Plain text goes through unchanged\<close>

lemma scan_string_plain:
  "list_all plain_char s \<Longrightarrow> scan_string (s @ dquote # rest) = Some (s, rest)"
  by (induction s) (auto simp: plain_char_def)

lemma unquote_plain:
  "list_all plain_char s \<Longrightarrow> is_ascii s \<Longrightarrow> unquote s = s"
  by (induction s) (auto simp: plain_char_def is_ascii_def)

definition literal_char :: "char \<Rightarrow> bool" where
  "literal_char c \<longleftrightarrow> plain_char c \<and> of_char c < (128 :: nat)
     \<and> c \<noteq> CHR ''<'' \<and> c \<noteq> CHR ''>'' \<and> c \<noteq> CHR ''&''"

lemma literal_char_plain: "list_all literal_char s \<Longrightarrow> list_all plain_char s \<and> is_ascii s"
  by (auto simp: list_all_iff literal_char_def is_ascii_def)

lemma literal_char_code:
  "literal_char c \<longleftrightarrow> (32 :: nat) \<le> of_char c \<and> of_char c < (128 :: nat)
     \<and> of_char c \<notin> {34 :: nat, 92, 60, 62, 38}"
  using of_char_eq_iff [of c dquote, where 'a = nat] of_char_eq_iff [of c backslash, where 'a = nat]
    of_char_eq_iff [of c "CHR ''<''", where 'a = nat] of_char_eq_iff [of c "CHR ''>''", where 'a = nat]
    of_char_eq_iff [of c "CHR ''&''", where 'a = nat]
  by (auto simp: literal_char_def plain_char_def)

lemma escape_literal: "literal_char c \<Longrightarrow> escape_rune (of_char c, [c]) = [c]"
  by (auto simp: literal_char_code escape_rune_def rune_error_def)

lemma json_string_literal:
  assumes "list_all literal_char s"
  shows "json_string s = dquote # s @ [dquote]"
proof -
  have "runes s = map (\<lambda>c. (of_char c, [c])) s"
    using literal_char_plain [OF assms] by (simp add: runes_ascii)
  moreover have "concat (map (\<lambda>c. escape_rune (of_char c, [c])) s) = s"
    using assms by (induction s) (simp_all add: escape_literal)
  ultimately show ?thesis
    by (simp add: json_string_def o_def)
qed

end
