(* ===== verification/StoreTypes.thy ===== *)
theory StoreTypes
  imports Prelude
begin

text \<open>
  The domain models and persistence interfaces of \<open>internal/store/store.go\<close>: each Go struct
  is a record with the struct's fields in order, each interface a record of operations over
  a store state \<open>'s\<close>.  An operation that only reads returns its result; one that writes
  returns the next state as well.  Every operation takes one \<open>Draw\<close>.
\<close>

section \<open>Errors\<close>

text \<open>
  \<open>ErrOther\<close> is any error that is none of the sentinels: a driver failure, a cancelled
  context.
\<close>

datatype store_error =
    ErrNotFound
  | ErrForbidden
  | ConflictError (conflict_Field: gostring) (conflict_Reason: gostring)
  | ErrInvalidCursor
  | ErrOther gostring

section \<open>Domain models\<close>

record User =
  u_ID :: gostring
  u_Email :: gostring
  u_Username :: gostring
  u_DisplayName :: gostring
  u_Bio :: gostring
  u_AvatarKey :: "gostring option"
  u_CreatedAt :: time
  u_UpdatedAt :: time

record NewUser =
  nu_Email :: gostring
  nu_Username :: gostring
  nu_DisplayName :: gostring
  nu_PasswordHash :: gostring

record UserUpdate =
  uu_DisplayName :: "gostring option"
  uu_Bio :: "gostring option"
  uu_AvatarKey :: "gostring option"
  uu_ClearAvatar :: bool

record Credentials =
  cr_UserID :: gostring
  cr_PasswordHash :: gostring

record Post =
  p_ID :: gostring
  p_AuthorID :: gostring
  p_Author :: "User option"
  p_ImageKey :: "gostring option"
  p_Caption :: gostring
  p_CreatedAt :: time

record NewPost =
  np_AuthorID :: gostring
  np_ImageKey :: "gostring option"
  np_Caption :: gostring

record RefreshToken =
  rt_ID :: gostring
  rt_UserID :: gostring
  rt_FamilyID :: gostring
  rt_TokenHash :: gostring
  rt_ExpiresAt :: time
  rt_CreatedAt :: time
  rt_UsedAt :: "time option"
  rt_RevokedAt :: "time option"

text \<open>\<open>(*RefreshToken).Active\<close>.\<close>

definition rt_Active :: "RefreshToken \<Rightarrow> time \<Rightarrow> bool" where
  "rt_Active t now \<longleftrightarrow> rt_UsedAt t = None \<and> rt_RevokedAt t = None \<and> now < rt_ExpiresAt t"

record Upload =
  ul_Key :: gostring
  ul_UserID :: gostring
  ul_Purpose :: gostring
  ul_ContentType :: gostring
  ul_ContentLength :: int
  ul_CreatedAt :: time
  ul_AttachedAt :: "time option"

record 'a Page =
  pg_Items :: "'a list"
  pg_NextCursor :: gostring

record PageRequest =
  pr_Cursor :: gostring
  pr_Limit :: int

section \<open>Interfaces\<close>

record 's UserStore =
  us_Create :: "Draw \<Rightarrow> NewUser \<Rightarrow> 's \<Rightarrow> (store_error + User) \<times> 's"
  us_ByID :: "Draw \<Rightarrow> gostring \<Rightarrow> 's \<Rightarrow> store_error + User"
  us_ByUsername :: "Draw \<Rightarrow> gostring \<Rightarrow> 's \<Rightarrow> store_error + User"
  us_CredentialsByEmail :: "Draw \<Rightarrow> gostring \<Rightarrow> 's \<Rightarrow> store_error + Credentials"
  us_Update :: "Draw \<Rightarrow> gostring \<Rightarrow> UserUpdate \<Rightarrow> 's \<Rightarrow> (store_error + User) \<times> 's"

record 's PostStore =
  ps_Create :: "Draw \<Rightarrow> NewPost \<Rightarrow> 's \<Rightarrow> (store_error + Post) \<times> 's"
  ps_ByID :: "Draw \<Rightarrow> gostring \<Rightarrow> 's \<Rightarrow> store_error + Post"
  ps_Delete :: "Draw \<Rightarrow> gostring \<Rightarrow> gostring \<Rightarrow> 's \<Rightarrow> (store_error + unit) \<times> 's"
  ps_Feed :: "Draw \<Rightarrow> PageRequest \<Rightarrow> 's \<Rightarrow> store_error + Post Page"
  ps_ByAuthor :: "Draw \<Rightarrow> gostring \<Rightarrow> PageRequest \<Rightarrow> 's \<Rightarrow> store_error + Post Page"

record 's TokenStore =
  ts_Issue :: "Draw \<Rightarrow> RefreshToken \<Rightarrow> 's \<Rightarrow> (store_error + unit) \<times> 's"
  ts_ByHash :: "Draw \<Rightarrow> gostring \<Rightarrow> 's \<Rightarrow> store_error + RefreshToken"
  ts_MarkUsed :: "Draw \<Rightarrow> gostring \<Rightarrow> time \<Rightarrow> 's \<Rightarrow> (store_error + unit) \<times> 's"
  ts_RevokeFamily :: "Draw \<Rightarrow> gostring \<Rightarrow> time \<Rightarrow> 's \<Rightarrow> (store_error + unit) \<times> 's"
  ts_RevokeAllForUser :: "Draw \<Rightarrow> gostring \<Rightarrow> time \<Rightarrow> 's \<Rightarrow> (store_error + unit) \<times> 's"
  ts_DeleteExpired :: "Draw \<Rightarrow> time \<Rightarrow> 's \<Rightarrow> (store_error + int) \<times> 's"

record 's UploadStore =
  up_Reserve :: "Draw \<Rightarrow> Upload \<Rightarrow> 's \<Rightarrow> (store_error + unit) \<times> 's"
  up_Claim :: "Draw \<Rightarrow> gostring \<Rightarrow> gostring \<Rightarrow> gostring \<Rightarrow> time \<Rightarrow> 's \<Rightarrow> (store_error + unit) \<times> 's"
  up_ReleaseAbandoned :: "Draw \<Rightarrow> time \<Rightarrow> int \<Rightarrow> 's \<Rightarrow> (store_error + gostring list) \<times> 's"

record 's Store =
  st_Users :: "'s UserStore"
  st_Posts :: "'s PostStore"
  st_Tokens :: "'s TokenStore"
  st_Uploads :: "'s UploadStore"
  st_Ping :: "Draw \<Rightarrow> 's \<Rightarrow> store_error + unit"

section \<open>Pagination limits\<close>

text \<open>\<open>DefaultPageLimit\<close>, \<open>MaxPageLimit\<close> and \<open>PageRequest.Normalise\<close> of \<open>cursor.go\<close>.\<close>

definition DefaultPageLimit :: int where "DefaultPageLimit = 20"
definition MaxPageLimit :: int where "MaxPageLimit = 50"

definition Normalise :: "PageRequest \<Rightarrow> PageRequest" where
  "Normalise r =
     (if pr_Limit r \<le> 0 then r\<lparr>pr_Limit := DefaultPageLimit\<rparr>
      else if pr_Limit r > MaxPageLimit then r\<lparr>pr_Limit := MaxPageLimit\<rparr>
      else r)"

lemma Normalise_bounds: "1 \<le> pr_Limit (Normalise r) \<and> pr_Limit (Normalise r) \<le> 50"
  by (simp add: Normalise_def DefaultPageLimit_def MaxPageLimit_def)

lemma Normalise_cursor [simp]: "pr_Cursor (Normalise r) = pr_Cursor r"
  by (simp add: Normalise_def)

lemma Normalise_idem [simp]: "Normalise (Normalise r) = Normalise r"
  by (simp add: Normalise_def DefaultPageLimit_def MaxPageLimit_def)

end
