(* ===== verification/Cursor.thy ===== *)
theory Cursor
  imports Timestamps Encoding Json StoreTypes
begin

text \<open>
  The opaque page cursor of \<open>internal/store/cursor.go\<close>: base64 of the JSON object
  \<open>{"createdAt": ..., "id": ...}\<close>.
\<close>

record CursorPayload =
  cp_CreatedAt :: time
  cp_ID :: gostring

definition key_createdAt :: gostring where "key_createdAt = ''createdAt''"
definition key_id :: gostring where "key_id = ''id''"

text \<open>\<open>json.Marshal(cursorPayload)\<close>: an error exactly when the time cannot be marshalled.\<close>

definition marshal_payload :: "CursorPayload \<Rightarrow> gostring option" where
  "marshal_payload p =
     (case marshal_time (cp_CreatedAt p) of
        None \<Rightarrow> None
      | Some s \<Rightarrow>
          Some (CHR ''{'' # dquote # key_createdAt @ [dquote, CHR '':''] @ dquote # s @ dquote #
                CHR '','' # dquote # key_id @ [dquote, CHR '':''] @ json_string (cp_ID p) @ ''}''))"

text \<open>\<open>EncodeCursor\<close>: the empty string on the marshalling error.\<close>

definition EncodeCursor :: "time \<Rightarrow> gostring \<Rightarrow> gostring" where
  "EncodeCursor createdAt ident =
     (case marshal_payload \<lparr>cp_CreatedAt = createdAt, cp_ID = ident\<rparr> of
        None \<Rightarrow> []
      | Some raw \<Rightarrow> b64_encode raw)"

text \<open>
  \<open>json.Unmarshal\<close> into the payload: members in order, a key matching a field exactly or up to
  case, unknown keys skipped, \<open>null\<close> leaving the field alone, a value of the wrong kind or an
  unreadable timestamp an error.
\<close>

definition set_member ::
    "(gostring \<Rightarrow> time option) \<Rightarrow> CursorPayload \<Rightarrow> gostring \<times> json \<Rightarrow> CursorPayload option" where
  "set_member layout_parse p m =
     (let k = unquote (fst m); v = snd m
      in if equal_fold k key_createdAt then
           (case v of
              JNull \<Rightarrow> Some p
            | JStr raw \<Rightarrow> map_option (\<lambda>t. p\<lparr>cp_CreatedAt := t\<rparr>) (parse_time layout_parse raw)
            | _ \<Rightarrow> None)
         else if equal_fold k key_id then
           (case v of
              JNull \<Rightarrow> Some p
            | JStr raw \<Rightarrow> Some (p\<lparr>cp_ID := unquote raw\<rparr>)
            | _ \<Rightarrow> None)
         else Some p)"

fun set_members ::
    "(gostring \<Rightarrow> time option) \<Rightarrow> CursorPayload \<Rightarrow> (gostring \<times> json) list \<Rightarrow> CursorPayload option" where
  "set_members layout_parse p [] = Some p"
| "set_members layout_parse p (m # ms) =
     (case set_member layout_parse p m of
        None \<Rightarrow> None
      | Some p' \<Rightarrow> set_members layout_parse p' ms)"

definition unmarshal_payload :: "(gostring \<Rightarrow> time option) \<Rightarrow> gostring \<Rightarrow> CursorPayload option" where
  "unmarshal_payload layout_parse raw =
     (let zero = \<lparr>cp_CreatedAt = 0, cp_ID = []\<rparr>
      in case json_parse raw of
           Some (JObj ms) \<Rightarrow> set_members layout_parse zero ms
         | Some JNull \<Rightarrow> Some zero
         | _ \<Rightarrow> None)"

text \<open>\<open>DecodeCursor\<close>: every failure is \<open>ErrInvalidCursor\<close>.\<close>

definition DecodeCursor ::
    "(gostring \<Rightarrow> time option) \<Rightarrow> gostring \<Rightarrow> store_error + (time \<times> gostring)" where
  "DecodeCursor layout_parse cursor =
     (case b64_decode cursor of
        None \<Rightarrow> Inl ErrInvalidCursor
      | Some raw \<Rightarrow>
          (case unmarshal_payload layout_parse raw of
             None \<Rightarrow> Inl ErrInvalidCursor
           | Some p \<Rightarrow>
               if cp_ID p = [] \<or> cp_CreatedAt p = 0 then Inl ErrInvalidCursor
               else Inr (cp_CreatedAt p, cp_ID p)))"

section \<open>Reading back an issued cursor\<close>

lemma literal_digit_char: "d < 10 \<Longrightarrow> literal_char (digit_char d)"
  by (auto simp: literal_char_code digit_char_def)

lemma literal_show_nat: "list_all literal_char (show_nat n)"
proof (induction n rule: show_nat.induct)
  case (1 n)
  then show ?case
    by (cases "n < 10") (simp_all add: show_nat.simps [of n] literal_digit_char)
qed

lemma literal_consts:
  "literal_char CHR ''0''" "literal_char CHR ''-''" "literal_char CHR '':''" "literal_char CHR ''T''"
  "literal_char CHR ''.''" "literal_char CHR ''Z''"
  by (simp_all add: literal_char_def plain_char_def)

lemma literal_pad2: "list_all literal_char (pad2 n)"
  by (simp add: pad2_def literal_digit_char)

lemma literal_show_year: "list_all literal_char (show_year y)"
  by (auto simp: show_year_def zero_pad_def literal_consts literal_show_nat list_all_iff [of _ "replicate _ _"])

lemma literal_show_frac9: "list_all literal_char (show_frac9 ns)"
proof -
  have "list_all literal_char (digits_fixed 9 n)" for n
    by (auto simp: digits_fixed_def list_all_iff literal_digit_char)
  then have "list_all literal_char (strip_zeros (digits_fixed 9 n))" for n
    unfolding strip_zeros_def trim_right_def list_all_iff by (metis set_dropWhileD set_rev)
  then show ?thesis
    by (simp add: show_frac9_def Let_def literal_consts)
qed

lemma literal_rfc3339nano: "list_all literal_char (format_rfc3339nano t)"
  by (simp add: format_rfc3339nano_def show_date_time_def literal_show_year literal_pad2 literal_consts
      literal_show_frac9)

lemma literal_id: "list_all is_id_char s \<Longrightarrow> list_all literal_char s"
  by (auto simp: list_all_iff is_id_char_def in_range_def literal_char_code)

text \<open>The two-member object \<open>EncodeCursor\<close> writes is parsed as such.\<close>

lemma json_parse_pair:
  assumes k1: "list_all plain_char k1" and s1: "list_all plain_char s1"
    and k2: "list_all plain_char k2" and s2: "list_all plain_char s2"
  shows "json_parse (CHR ''{'' # dquote # k1 @ [dquote, CHR '':''] @ dquote # s1 @ dquote # CHR '','' #
           dquote # k2 @ [dquote, CHR '':''] @ dquote # s2 @ dquote # ''}'')
         = Some (JObj [(k1, JStr s1), (k2, JStr s2)])"
proof -
  define body2 where "body2 = dquote # k2 @ dquote # CHR '':'' # dquote # s2 @ dquote # ''}''"
  define body1 where "body1 = dquote # k1 @ dquote # CHR '':'' # dquote # s1 @ dquote # CHR '','' # body2"
  define n where "n = length k1 + length s1 + length k2 + length s2"
  have ws: "\<not> is_ws dquote" "\<not> is_ws CHR '':''" "\<not> is_ws CHR '',''" "\<not> is_ws CHR ''{''" "\<not> is_ws CHR ''}''"
    by (simp_all add: is_ws_def)
  have str_value: "json_value (Suc m) d (dquote # s @ dquote # rest) = Some (JStr s, rest)"
    if "list_all plain_char s" for m d s rest
    using that ws by (simp add: skip_ws_def scan_string_plain)
  have m2: "json_members (Suc (Suc m)) d body2 = Some ([(k2, JStr s2)], [])" for m d
    unfolding body2_def using ws str_value [OF s2] k2
    by (subst json_members.simps) (simp add: skip_ws_def scan_string_plain del: json_value.simps)
  have m1: "json_members (Suc (Suc (Suc m))) d body1 = Some ([(k1, JStr s1), (k2, JStr s2)], [])" for m d
    unfolding body1_def using ws str_value [OF s1] k1 m2
    by (subst json_members.simps) (simp add: skip_ws_def scan_string_plain del: json_value.simps json_members.simps)
  have len: "length (CHR ''{'' # body1) = n + 13"
    by (simp add: body1_def body2_def n_def)
  have v: "json_value (Suc (Suc (Suc (Suc m)))) (Suc d) (CHR ''{'' # body1)
      = Some (JObj [(k1, JStr s1), (k2, JStr s2)], [])" for m d
  proof -
    have "skip_ws body1 = body1" and "\<exists>c cs. body1 = c # cs \<and> c \<noteq> CHR ''}''"
      using ws by (simp_all add: body1_def skip_ws_def)
    then show ?thesis
      using ws m1 by (subst json_value.simps) (auto simp: skip_ws_def simp del: json_members.simps)
  qed
  have fuel: "2 * length (CHR ''{'' # body1) + 2 = Suc (Suc (Suc (Suc (2 * n + 24))))"
    unfolding len by simp
  have "json_parse (CHR ''{'' # body1) = Some (JObj [(k1, JStr s1), (k2, JStr s2)])"
    unfolding json_parse_def fuel using v [of "2 * n + 24" 9999]
    by (simp add: max_nesting_def skip_ws_def del: json_value.simps)
  then show ?thesis
    by (simp add: body1_def body2_def)
qed

lemma set_members_pair:
  assumes "parse_time layout_parse s = Some t" and "list_all literal_char ident"
  shows "set_members layout_parse p [(key_createdAt, JStr s), (key_id, JStr ident)]
         = Some (p\<lparr>cp_CreatedAt := t, cp_ID := ident\<rparr>)"
proof -
  have "unquote key_createdAt = key_createdAt" and "unquote key_id = key_id"
    by (simp_all add: key_createdAt_def key_id_def)
  moreover have "unquote ident = ident"
    using literal_char_plain [OF assms(2)] by (simp add: unquote_plain)
  moreover have "\<not> equal_fold key_id key_createdAt"
    by (simp add: equal_fold_def key_id_def key_createdAt_def)
  ultimately show ?thesis
    using assms(1) by (simp add: set_member_def equal_fold_def)
qed

lemma Decode_EncodeCursor:
  assumes y: "0 \<le> cv_year (civil t)" "cv_year (civil t) \<le> 9999" and t: "t \<noteq> 0"
    and ident: "list_all is_id_char ident" "ident \<noteq> []"
  shows "DecodeCursor layout_parse (EncodeCursor t ident) = Inr (t, ident)" and "EncodeCursor t ident \<noteq> []"
proof -
  let ?s = "format_rfc3339nano t"
  let ?raw = "CHR ''{'' # dquote # key_createdAt @ [dquote, CHR '':''] @ dquote # ?s @ dquote #
                CHR '','' # dquote # key_id @ [dquote, CHR '':''] @ dquote # ident @ dquote # ''}''"
  have lit: "list_all literal_char ?s" "list_all literal_char ident"
    using ident by (simp_all add: literal_rfc3339nano literal_id)
  have keys: "list_all plain_char key_createdAt" "list_all plain_char key_id"
    by (simp_all add: key_createdAt_def key_id_def plain_char_def)
  have enc: "EncodeCursor t ident = b64_encode ?raw"
    using y lit by (simp add: EncodeCursor_def marshal_payload_def marshal_time_def json_string_literal)
  have "json_parse ?raw = Some (JObj [(key_createdAt, JStr ?s), (key_id, JStr ident)])"
    using literal_char_plain [OF lit(1)] literal_char_plain [OF lit(2)] keys by (intro json_parse_pair) auto
  then have "unmarshal_payload layout_parse ?raw = Some \<lparr>cp_CreatedAt = t, cp_ID = ident\<rparr>"
    using set_members_pair [OF parse_time_format [OF y] lit(2)]
    by (simp add: unmarshal_payload_def Let_def del: set_members.simps)
  then show "DecodeCursor layout_parse (EncodeCursor t ident) = Inr (t, ident)"
    using t ident by (simp add: DecodeCursor_def enc b64_decode_encode del: b64_encode.simps)
  show "EncodeCursor t ident \<noteq> []"
    unfolding enc b64_encode_Nil_iff by simp
qed

end
