(* ===== verification/Paging.thy ===== *)
theory Paging
  imports Cursor
begin

text \<open>
  Keyset pagination, shared by both stores: the feed order, the position a cursor stands for,
  the cut at the page limit, and a client's walk that passes every \<open>nextCursor\<close> back.
\<close>

section \<open>Definitions\<close>

text \<open>\<open>hydrate\<close> (the join of the Postgres queries): the post with its author filled in.\<close>

definition hydrate :: "Post \<Rightarrow> User option \<Rightarrow> Post" where
  "hydrate p author = p\<lparr>p_Author := author\<rparr>"

text \<open>Feed order: newest first, the identifier breaking ties, both descending.\<close>

definition feed_less :: "Post \<Rightarrow> Post \<Rightarrow> bool" where
  "feed_less p q \<longleftrightarrow>
     (if p_CreatedAt p \<noteq> p_CreatedAt q then p_CreatedAt p > p_CreatedAt q else p_ID p > p_ID q)"

definition after_cursor :: "time \<times> gostring \<Rightarrow> Post \<Rightarrow> bool" where
  "after_cursor c p \<longleftrightarrow> p_CreatedAt p < fst c \<or> (p_CreatedAt p = fst c \<and> p_ID p < snd c)"

text \<open>
  The cursor of a request: none, a position, or an error.  The position is compared at the
  precision \<open>stamp\<close> of the store (nanoseconds in memory, microseconds in Postgres).
\<close>

definition request_cursor ::
    "(time \<Rightarrow> time) \<Rightarrow> (gostring \<Rightarrow> time option) \<Rightarrow> PageRequest \<Rightarrow> store_error + (time \<times> gostring) option" where
  "request_cursor stamp layout_parse req =
     (if pr_Cursor req \<noteq> [] then
        (case DecodeCursor layout_parse (pr_Cursor req) of
           Inl e \<Rightarrow> Inl e
         | Inr (createdAt, ident) \<Rightarrow> Inr (Some (stamp createdAt, ident)))
      else Inr None)"

text \<open>The last lines of \<open>page\<close>: cut at the limit, and point at the last item kept.\<close>

definition cut_page :: "int \<Rightarrow> Post list \<Rightarrow> Post Page" where
  "cut_page limit matched =
     (if int (length matched) > limit then
        let items = take (nat limit) matched; l = last items
        in \<lparr>pg_Items = items, pg_NextCursor = EncodeCursor (p_CreatedAt l) (p_ID l)\<rparr>
      else \<lparr>pg_Items = matched, pg_NextCursor = []\<rparr>)"

definition seek :: "(time \<times> gostring) option \<Rightarrow> Post list \<Rightarrow> Post list" where
  "seek c L = (case c of None \<Rightarrow> L | Some pos \<Rightarrow> filter (after_cursor pos) L)"

text \<open>What a page request promises over the ordered list \<open>L\<close> of all matching posts.\<close>

definition page_of :: "(time \<Rightarrow> time) \<Rightarrow> (gostring \<Rightarrow> time option) \<Rightarrow> PageRequest \<Rightarrow> Post list \<Rightarrow> store_error + Post Page" where
  "page_of stamp layout_parse req0 L =
     (let req = Normalise req0
      in case request_cursor stamp layout_parse req of
           Inl e \<Rightarrow> Inl e
         | Inr c \<Rightarrow> Inr (cut_page (pr_Limit req) (seek c L)))"

text \<open>
  A client that follows \<open>nextCursor\<close> until it is empty, for at most \<open>n\<close> pages.
\<close>

fun walk :: "(gostring \<Rightarrow> store_error + Post Page) \<Rightarrow> nat \<Rightarrow> gostring \<Rightarrow> Post list option" where
  "walk fetch 0 c = None"
| "walk fetch (Suc n) c =
     (case fetch c of
        Inl e \<Rightarrow> None
      | Inr page \<Rightarrow>
          if pg_NextCursor page = [] then Some (pg_Items page)
          else map_option (\<lambda>rest. pg_Items page @ rest) (walk fetch n (pg_NextCursor page)))"

section \<open>The feed order\<close>

lemma feed_less_hydrate [simp]: "feed_less (hydrate p a) (hydrate q b) = feed_less p q"
  by (simp add: feed_less_def hydrate_def)

lemma hydrate_sel [simp]:
  "p_ID (hydrate p a) = p_ID p" "p_AuthorID (hydrate p a) = p_AuthorID p" "p_Author (hydrate p a) = a"
  "p_ImageKey (hydrate p a) = p_ImageKey p" "p_Caption (hydrate p a) = p_Caption p"
  "p_CreatedAt (hydrate p a) = p_CreatedAt p"
  by (simp_all add: hydrate_def)

lemma feed_less_irrefl: "\<not> feed_less p p"
  by (simp add: feed_less_def)

lemma feed_less_trans: "feed_less p q \<Longrightarrow> feed_less q r \<Longrightarrow> feed_less p r"
  by (auto simp: feed_less_def split: if_splits)

lemma feed_less_total: "p_ID p \<noteq> p_ID q \<Longrightarrow> feed_less p q \<or> feed_less q p"
  by (auto simp: feed_less_def)

lemma feed_less_strict_total: "inj_on p_ID A \<Longrightarrow> strict_total feed_less A"
  unfolding strict_total_def
  by (meson feed_less_irrefl feed_less_trans feed_less_total inj_on_def)

lemma after_cursor_less: "after_cursor (p_CreatedAt p, p_ID p) q \<longleftrightarrow> feed_less p q"
  by (auto simp: after_cursor_def feed_less_def)

lemma after_cursor_eq: "after_cursor (p_CreatedAt p, p_ID p) = feed_less p"
  by (rule ext) (rule after_cursor_less)

definition feed_list :: "Post list \<Rightarrow> bool" where
  "feed_list L \<longleftrightarrow> sorted_wrt feed_less L"

lemma feed_list_unique: "feed_list L \<Longrightarrow> feed_list M \<Longrightarrow> set L = set M \<Longrightarrow> L = M"
proof (induction L arbitrary: M)
  case (Cons p L)
  then obtain q N where M: "M = q # N"
    by (cases M) auto
  have pq: "p = q"
    using Cons.prems feed_less_irrefl feed_less_trans unfolding M feed_list_def
    by (metis insert_iff list.simps(15) sorted_wrt.simps(2))
  have "p \<notin> set L" "q \<notin> set N"
    using Cons.prems(1,2) feed_less_irrefl unfolding M feed_list_def by auto
  then have "set L = set N"
    using Cons.prems(3) pq unfolding M by auto
  then show ?case
    using Cons unfolding M feed_list_def pq by simp
qed simp

lemma feed_list_distinct: "feed_list L \<Longrightarrow> distinct L"
  by (induction L) (auto simp: feed_list_def feed_less_irrefl)

text \<open>Seeking past an element of the list leaves exactly what comes after it.\<close>

lemma seek_split:
  assumes "feed_list (xs @ p # ys)"
  shows "seek (Some (p_CreatedAt p, p_ID p)) (xs @ p # ys) = ys"
proof -
  have "filter (feed_less p) xs = []"
  proof -
    have "\<not> feed_less p x" if "x \<in> set xs" for x
    proof
      assume "feed_less p x"
      moreover have "feed_less x p"
        using assms that by (simp add: feed_list_def sorted_wrt_append)
      ultimately show False
        using feed_less_trans feed_less_irrefl by blast
    qed
    then show ?thesis
      by (simp add: filter_empty_conv)
  qed
  moreover have "filter (feed_less p) ys = ys"
    using assms by (simp add: feed_list_def sorted_wrt_append)
  ultimately show ?thesis
    by (simp add: seek_def after_cursor_eq feed_less_irrefl)
qed

section \<open>Cursors that can be issued\<close>

text \<open>
  A post whose position can be written as a cursor and read back: an identifier of the kind
  \<open>NewID\<close> makes, a creation time after the zero time and within the years JSON can carry.
\<close>

definition cursor_ok :: "Post \<Rightarrow> bool" where
  "cursor_ok p \<longleftrightarrow>
     list_all is_id_char (p_ID p) \<and> p_ID p \<noteq> [] \<and> p_CreatedAt p \<noteq> 0
     \<and> 0 \<le> cv_year (civil (p_CreatedAt p)) \<and> cv_year (civil (p_CreatedAt p)) \<le> 9999"

lemma cursor_ok_roundtrip:
  assumes "cursor_ok p"
  shows "DecodeCursor layout_parse (EncodeCursor (p_CreatedAt p) (p_ID p)) = Inr (p_CreatedAt p, p_ID p)"
    and "EncodeCursor (p_CreatedAt p) (p_ID p) \<noteq> []"
  using assms Decode_EncodeCursor by (auto simp: cursor_ok_def)

lemma request_cursor_issued:
  assumes "cursor_ok p" and "stamp (p_CreatedAt p) = p_CreatedAt p"
    and "pr_Cursor req = EncodeCursor (p_CreatedAt p) (p_ID p)"
  shows "request_cursor stamp layout_parse req = Inr (Some (p_CreatedAt p, p_ID p))"
  using cursor_ok_roundtrip [OF assms(1)] assms(2,3) by (simp add: request_cursor_def)

section \<open>Walking the feed\<close>

lemma cut_page_length: "0 \<le> k \<Longrightarrow> int (length (pg_Items (cut_page k L))) \<le> k"
  by (auto simp: cut_page_def Let_def)

lemma cut_page_prefix: "\<exists>rest. L = pg_Items (cut_page k L) @ rest"
  by (auto simp: cut_page_def Let_def intro: append_take_drop_id [symmetric])

lemma cut_page_last:
  assumes "1 \<le> k" and "\<forall>p \<in> set L. cursor_ok p"
  shows "pg_NextCursor (cut_page k L) = [] \<longleftrightarrow> int (length L) \<le> k"
proof (cases "int (length L) > k")
  case True
  then have "last (take (nat k) L) \<in> set L"
    using assms(1) by (metis in_set_takeD last_in_set less_numeral_extra(3) linorder_not_le list.size(3)
        nat_less_iff of_nat_0_le_iff take_eq_Nil2 zero_less_nat_eq zero_less_one order_less_le_trans nat_eq_iff2)
  then show ?thesis
    using True assms(2) cursor_ok_roundtrip(2) by (simp add: cut_page_def Let_def)
next
  case False
  then show ?thesis
    by (simp add: cut_page_def)
qed

lemma page_of_first:
  "page_of stamp layout_parse \<lparr>pr_Cursor = [], pr_Limit = k\<rparr> L = Inr (cut_page (pr_Limit (Normalise \<lparr>pr_Cursor = [], pr_Limit = k\<rparr>)) L)"
  by (simp add: page_of_def request_cursor_def seek_def Let_def)

text \<open>Where a walk can stand: before everything, with no cursor, or behind the post its cursor names.\<close>

definition walk_position :: "Post list \<Rightarrow> gostring \<Rightarrow> bool" where
  "walk_position xs c \<longleftrightarrow> (xs = [] \<and> c = []) \<or> (\<exists>zs p. xs = zs @ [p] \<and> c = EncodeCursor (p_CreatedAt p) (p_ID p))"

lemma position_page:
  assumes L: "feed_list (xs @ ys)" "\<forall>p \<in> set xs. cursor_ok p" "\<forall>p \<in> set xs. stamp (p_CreatedAt p) = p_CreatedAt p"
    and c: "walk_position xs c"
  shows "page_of stamp layout_parse \<lparr>pr_Cursor = c, pr_Limit = k\<rparr> (xs @ ys) =
    Inr (cut_page (pr_Limit (Normalise \<lparr>pr_Cursor = c, pr_Limit = k\<rparr>)) ys)"
proof -
  let ?req = "\<lparr>pr_Cursor = c, pr_Limit = k\<rparr>"
  have "\<exists>pos. request_cursor stamp layout_parse (Normalise ?req) = Inr pos \<and> seek pos (xs @ ys) = ys"
    using c unfolding walk_position_def
  proof
    assume "xs = [] \<and> c = []"
    then show ?thesis
      by (simp add: request_cursor_def seek_def)
  next
    assume "\<exists>zs p. xs = zs @ [p] \<and> c = EncodeCursor (p_CreatedAt p) (p_ID p)"
    then obtain zs p where p: "xs = zs @ [p]" "c = EncodeCursor (p_CreatedAt p) (p_ID p)"
      by blast
    have "cursor_ok p" and "stamp (p_CreatedAt p) = p_CreatedAt p"
      using L(2,3) p(1) by simp_all
    then show ?thesis
      using request_cursor_issued [of p stamp "Normalise ?req"] seek_split [of zs p ys] L(1) p by auto
  qed
  then show ?thesis
    unfolding page_of_def by (auto simp: Let_def)
qed

text \<open>
  From any position of an ordered list of posts, the walk returns everything after it, in
  order, each post once; one page per post is more than enough pages.
\<close>

lemma walk_from:
  assumes fetch: "\<And>c. fetch c = page_of stamp layout_parse \<lparr>pr_Cursor = c, pr_Limit = k\<rparr> L"
    and L: "feed_list L" "\<forall>p \<in> set L. cursor_ok p" "\<forall>p \<in> set L. stamp (p_CreatedAt p) = p_CreatedAt p"
    and split: "L = xs @ ys" and n: "length ys < n" and c: "walk_position xs c"
  shows "walk fetch n c = Some ys"
  using split n c
proof (induction n arbitrary: xs ys c)
  case (Suc n)
  define lim where "lim = pr_Limit (Normalise \<lparr>pr_Cursor = c, pr_Limit = k\<rparr>)"
  have lim: "1 \<le> lim"
    using Normalise_bounds [of "\<lparr>pr_Cursor = c, pr_Limit = k\<rparr>"] by (simp add: lim_def)
  have page: "fetch c = Inr (cut_page lim ys)"
    unfolding fetch lim_def Suc.prems(1) using L Suc.prems by (intro position_page) auto
  have ok: "\<forall>p \<in> set ys. cursor_ok p"
    using L(2) Suc.prems(1) by simp
  show ?case
  proof (cases "int (length ys) \<le> lim")
    case True
    then show ?thesis
      using page by (simp add: cut_page_def)
  next
    case False
    let ?items = "take (nat lim) ys" and ?rest = "drop (nat lim) ys"
    have cut: "cut_page lim ys = \<lparr>pg_Items = ?items,
        pg_NextCursor = EncodeCursor (p_CreatedAt (last ?items)) (p_ID (last ?items))\<rparr>"
      using False by (simp add: cut_page_def Let_def)
    have ne: "?items \<noteq> []"
      using lim False by auto
    have next_ne: "pg_NextCursor (cut_page lim ys) \<noteq> []"
      using cut_page_last [OF lim ok] False by simp
    have "walk fetch n (pg_NextCursor (cut_page lim ys)) = Some ?rest"
    proof (rule Suc.IH [of "xs @ ?items"])
      show "L = (xs @ ?items) @ ?rest"
        using Suc.prems(1) by simp
      show "length ?rest < n"
        using Suc.prems(2) lim False by simp
      have "xs @ ?items = (xs @ butlast ?items) @ [last ?items]"
        using ne by simp
      then show "walk_position (xs @ ?items) (pg_NextCursor (cut_page lim ys))"
        unfolding cut Page.simps walk_position_def by blast
    qed
    then show ?thesis
      using page next_ne by (simp add: cut)
  qed
qed simp

lemma walk_all:
  assumes "\<And>c. fetch c = page_of stamp layout_parse \<lparr>pr_Cursor = c, pr_Limit = k\<rparr> L"
    and "feed_list L" "\<forall>p \<in> set L. cursor_ok p" "\<forall>p \<in> set L. stamp (p_CreatedAt p) = p_CreatedAt p"
  shows "walk fetch (Suc (length L)) [] = Some L"
  using walk_from [OF assms, of "[]" L "Suc (length L)" "[]"] by (simp add: walk_position_def del: walk.simps)

section \<open>Pages while the feed changes\<close>

text \<open>
  A page that continues after a post \<open>p\<close>, taken from whatever the feed has become: it holds
  only posts strictly after \<open>p\<close>, it is a prefix of them, and it says so when there are more.
\<close>

lemma page_of_continue:
  assumes p: "cursor_ok p" "stamp (p_CreatedAt p) = p_CreatedAt p" and L: "feed_list L"
    and req: "pr_Cursor req = EncodeCursor (p_CreatedAt p) (p_ID p)"
    and page: "page_of stamp layout_parse req L = Inr page"
  shows "\<forall>q \<in> set (pg_Items page). feed_less p q"
    and "\<forall>q \<in> set L. feed_less p q \<longrightarrow> q \<in> set (pg_Items page) \<or> (\<forall>r \<in> set (pg_Items page). feed_less r q)"
proof -
  define ys where "ys = filter (feed_less p) L"
  have "seek (Some (p_CreatedAt p, p_ID p)) L = ys"
    by (simp add: seek_def ys_def after_cursor_eq)
  moreover have "request_cursor stamp layout_parse (Normalise req) = Inr (Some (p_CreatedAt p, p_ID p))"
    using request_cursor_issued [of p stamp "Normalise req"] p req by simp
  ultimately have page_eq: "page = cut_page (pr_Limit (Normalise req)) ys"
    using page by (simp add: page_of_def Let_def)
  obtain rest where rest: "ys = pg_Items page @ rest"
    using cut_page_prefix page_eq by blast
  have "feed_list ys"
    using L by (simp add: ys_def feed_list_def sorted_wrt_filter)
  then have before: "\<forall>r \<in> set (pg_Items page). \<forall>q \<in> set rest. feed_less r q"
    unfolding rest feed_list_def by (simp add: sorted_wrt_append)
  have sets: "set ys = set (pg_Items page) \<union> set rest"
    using rest by (metis set_append)
  show "\<forall>q \<in> set (pg_Items page). feed_less p q"
    using sets by (auto simp: ys_def)
  show "\<forall>q \<in> set L. feed_less p q \<longrightarrow> q \<in> set (pg_Items page) \<or> (\<forall>r \<in> set (pg_Items page). feed_less r q)"
    using before sets by (auto simp: ys_def)
qed

end
