(* ===== verification/Interfaces.thy ===== *)
theory Interfaces
  imports Paging
begin

text \<open>
  The contracts behind the persistence interfaces of \<open>store.go\<close>, one locale each: what a
  handler or the session service may rely on, whichever store is behind the interface.
  Each speaks of the stored rows through an abstraction (\<open>toks\<close>, \<open>upls\<close>, \<open>users\<close>, \<open>posts\<close>),
  of an invariant \<open>inv\<close> every operation keeps, of the draws the implementation can serve
  (\<open>ok\<close>: the database driver does not fail), of a \<open>frame\<close>, the part of the state the
  interface does not touch, and of the precision \<open>stamp\<close> at which it stores a time.  Both stores interpret all of them.
\<close>

section \<open>Refresh tokens\<close>

text \<open>The effect of a revocation on one token: a stamp, unless it carries one already.\<close>

definition revoke_if :: "(RefreshToken \<Rightarrow> bool) \<Rightarrow> time \<Rightarrow> RefreshToken \<Rightarrow> RefreshToken" where
  "revoke_if P at t = (if P t \<and> rt_RevokedAt t = None then t\<lparr>rt_RevokedAt := Some at\<rparr> else t)"

lemma revoke_if_sel [simp]:
  "rt_ID (revoke_if P at t) = rt_ID t" "rt_UserID (revoke_if P at t) = rt_UserID t"
  "rt_FamilyID (revoke_if P at t) = rt_FamilyID t" "rt_TokenHash (revoke_if P at t) = rt_TokenHash t"
  "rt_ExpiresAt (revoke_if P at t) = rt_ExpiresAt t" "rt_CreatedAt (revoke_if P at t) = rt_CreatedAt t"
  "rt_UsedAt (revoke_if P at t) = rt_UsedAt t"
  by (simp_all add: revoke_if_def)

lemma revoke_if_hit: "P t \<Longrightarrow> rt_RevokedAt (revoke_if P at t) \<noteq> None"
  by (simp add: revoke_if_def)

lemma revoke_if_miss: "\<not> P t \<Longrightarrow> revoke_if P at t = t"
  by (simp add: revoke_if_def)

lemma revoke_if_keeps: "rt_RevokedAt t \<noteq> None \<Longrightarrow> rt_RevokedAt (revoke_if P at t) \<noteq> None"
  by (simp add: revoke_if_def)

locale token_store =
  fixes T :: "'s TokenStore"
    and toks :: "'s \<Rightarrow> gostring \<Rightarrow> RefreshToken option"
    and inv :: "'s \<Rightarrow> bool"
    and ok :: "Draw \<Rightarrow> bool"
    and frame :: "'s \<Rightarrow> 'f"
    and known :: "'f \<Rightarrow> gostring \<Rightarrow> bool"
    and stamp :: "time \<Rightarrow> time"
  assumes toks_ID: "inv s \<Longrightarrow> toks s i = Some t \<Longrightarrow> rt_ID t = i"
    and toks_known: "inv s \<Longrightarrow> toks s i = Some t \<Longrightarrow> known (frame s) (rt_UserID t)"
    and hash_inj: "inv s \<Longrightarrow> toks s i = Some t \<Longrightarrow> toks s j = Some u \<Longrightarrow> rt_TokenHash t = rt_TokenHash u \<Longrightarrow> i = j"
    and ByHash_hit: "inv s \<Longrightarrow> ok d \<Longrightarrow> toks s i = Some t \<Longrightarrow> ts_ByHash T d (rt_TokenHash t) s = Inr t"
    and ByHash_miss: "inv s \<Longrightarrow> ok d \<Longrightarrow> (\<And>i t. toks s i = Some t \<Longrightarrow> rt_TokenHash t \<noteq> h) \<Longrightarrow>
      ts_ByHash T d h s = Inl ErrNotFound"
    and MarkUsed_hit: "inv s \<Longrightarrow> ok d \<Longrightarrow> toks s i = Some t \<Longrightarrow> rt_UsedAt t = None \<Longrightarrow>
      \<exists>s'. ts_MarkUsed T d i at s = (Inr (), s') \<and> inv s' \<and> frame s' = frame s
         \<and> toks s' = (toks s)(i := Some (t\<lparr>rt_UsedAt := Some (stamp at)\<rparr>))"
    and MarkUsed_miss: "inv s \<Longrightarrow> ok d \<Longrightarrow> (\<And>t. toks s i = Some t \<Longrightarrow> rt_UsedAt t \<noteq> None) \<Longrightarrow>
      ts_MarkUsed T d i at s = (Inl ErrNotFound, s)"
    and RevokeFamily: "inv s \<Longrightarrow> ok d \<Longrightarrow>
      \<exists>s'. ts_RevokeFamily T d f at s = (Inr (), s') \<and> inv s' \<and> frame s' = frame s
         \<and> toks s' = (\<lambda>i. map_option (revoke_if (\<lambda>t. rt_FamilyID t = f) (stamp at)) (toks s i))"
    and RevokeAll: "inv s \<Longrightarrow> ok d \<Longrightarrow>
      \<exists>s'. ts_RevokeAllForUser T d uid at s = (Inr (), s') \<and> inv s' \<and> frame s' = frame s
         \<and> toks s' = (\<lambda>i. map_option (revoke_if (\<lambda>t. rt_UserID t = uid) (stamp at)) (toks s i))"
    and Issue: "inv s \<Longrightarrow> ok d \<Longrightarrow> known (frame s) (rt_UserID t) \<Longrightarrow> toks s (rt_ID t) = None \<Longrightarrow>
      (\<And>i u. toks s i = Some u \<Longrightarrow> rt_TokenHash u \<noteq> rt_TokenHash t) \<Longrightarrow>
      rt_UsedAt t = None \<Longrightarrow> rt_RevokedAt t = None \<Longrightarrow>
      \<exists>s' c. ts_Issue T d t s = (Inr (), s') \<and> inv s' \<and> frame s' = frame s
         \<and> toks s' = (toks s)(rt_ID t := Some (t\<lparr>rt_ExpiresAt := stamp (rt_ExpiresAt t), rt_CreatedAt := c\<rparr>))"
    and DeleteExpired: "inv s \<Longrightarrow> ok d \<Longrightarrow>
      \<exists>s' n. ts_DeleteExpired T d before s = (Inr n, s') \<and> inv s' \<and> frame s' = frame s
         \<and> toks s' = (\<lambda>i. case toks s i of None \<Rightarrow> None | Some t \<Rightarrow> if rt_ExpiresAt t < stamp before then None else Some t)
         \<and> n = int (card {i. \<exists>t. toks s i = Some t \<and> rt_ExpiresAt t < stamp before})"

section \<open>Uploads\<close>

definition abandoned :: "time \<Rightarrow> Upload \<Rightarrow> bool" where
  "abandoned before u \<longleftrightarrow> ul_AttachedAt u = None \<and> ul_CreatedAt u < before"

locale upload_store =
  fixes P :: "'s UploadStore"
    and upls :: "'s \<Rightarrow> gostring \<Rightarrow> Upload option"
    and inv :: "'s \<Rightarrow> bool"
    and ok :: "Draw \<Rightarrow> bool"
    and frame :: "'s \<Rightarrow> 'f"
    and known :: "'f \<Rightarrow> gostring \<Rightarrow> bool"
    and stamp :: "time \<Rightarrow> time"
  assumes Reserve: "inv s \<Longrightarrow> ok d \<Longrightarrow> known (frame s) (ul_UserID u) \<Longrightarrow> upls s (ul_Key u) = None \<Longrightarrow>
      ul_Purpose u \<in> {''avatar'', ''post''} \<Longrightarrow> ul_CreatedAt u = 0 \<Longrightarrow> ul_AttachedAt u = None \<Longrightarrow>
      \<exists>s'. up_Reserve P d u s = (Inr (), s') \<and> inv s' \<and> frame s' = frame s
         \<and> upls s' = (upls s)(ul_Key u := Some (u\<lparr>ul_CreatedAt := d_now d\<rparr>))"
    and Claim_ok: "inv s \<Longrightarrow> ok d \<Longrightarrow> upls s key = Some u \<Longrightarrow>
      ul_UserID u = userID \<Longrightarrow> ul_Purpose u = purpose \<Longrightarrow> ul_AttachedAt u = None \<Longrightarrow>
      \<exists>s'. up_Claim P d key userID purpose at s = (Inr (), s') \<and> inv s' \<and> frame s' = frame s
         \<and> upls s' = (upls s)(key := Some (u\<lparr>ul_AttachedAt := Some (stamp at)\<rparr>))"
    and Claim_forbidden: "inv s \<Longrightarrow> ok d \<Longrightarrow> upls s key = Some u \<Longrightarrow>
      ul_UserID u \<noteq> userID \<or> ul_Purpose u \<noteq> purpose \<or> ul_AttachedAt u \<noteq> None \<Longrightarrow>
      up_Claim P d key userID purpose at s = (Inl ErrForbidden, s)"
    and Claim_missing: "inv s \<Longrightarrow> ok d \<Longrightarrow> upls s key = None \<Longrightarrow>
      up_Claim P d key userID purpose at s = (Inl ErrNotFound, s)"
    and Release: "inv s \<Longrightarrow> ok d \<Longrightarrow> 0 \<le> limit \<Longrightarrow>
      \<exists>s' keys. up_ReleaseAbandoned P d before limit s = (Inr keys, s') \<and> inv s' \<and> frame s' = frame s
         \<and> distinct keys \<and> set keys \<subseteq> {k. \<exists>u. upls s k = Some u \<and> abandoned (stamp before) u}
         \<and> int (length keys) = min limit (int (card {k. \<exists>u. upls s k = Some u \<and> abandoned (stamp before) u}))
         \<and> upls s' = (\<lambda>k. if k \<in> set keys then None else upls s k)"

section \<open>Users\<close>

text \<open>The fields a partial update writes.\<close>

definition apply_update :: "UserUpdate \<Rightarrow> User \<Rightarrow> User" where
  "apply_update inp user0 =
     (let user1 = (case uu_DisplayName inp of Some n \<Rightarrow> user0\<lparr>u_DisplayName := n\<rparr> | None \<Rightarrow> user0);
          user2 = (case uu_Bio inp of Some b \<Rightarrow> user1\<lparr>u_Bio := b\<rparr> | None \<Rightarrow> user1)
      in if uu_ClearAvatar inp then user2\<lparr>u_AvatarKey := None\<rparr>
         else case uu_AvatarKey inp of Some key \<Rightarrow> user2\<lparr>u_AvatarKey := Some key\<rparr> | None \<Rightarrow> user2)"

lemma apply_update_sel [simp]:
  "u_ID (apply_update inp u) = u_ID u" "u_Email (apply_update inp u) = u_Email u"
  "u_Username (apply_update inp u) = u_Username u" "u_CreatedAt (apply_update inp u) = u_CreatedAt u"
  "u_UpdatedAt (apply_update inp u) = u_UpdatedAt u"
  by (simp_all add: apply_update_def Let_def split: option.split)

lemma apply_update_fields:
  "u_DisplayName (apply_update inp u) = (case uu_DisplayName inp of Some n \<Rightarrow> n | None \<Rightarrow> u_DisplayName u)"
  "u_Bio (apply_update inp u) = (case uu_Bio inp of Some b \<Rightarrow> b | None \<Rightarrow> u_Bio u)"
  "u_AvatarKey (apply_update inp u) =
     (if uu_ClearAvatar inp then None
      else case uu_AvatarKey inp of Some key \<Rightarrow> Some key | None \<Rightarrow> u_AvatarKey u)"
  by (simp_all add: apply_update_def Let_def split: option.split)

definition new_user_row :: "Draw \<Rightarrow> NewUser \<Rightarrow> User" where
  "new_user_row d inp =
     \<lparr>u_ID = NewID d, u_Email = nu_Email inp, u_Username = nu_Username inp,
      u_DisplayName = nu_DisplayName inp, u_Bio = [], u_AvatarKey = None,
      u_CreatedAt = d_now d, u_UpdatedAt = d_now d\<rparr>"

locale user_store =
  fixes U :: "'s UserStore"
    and users :: "'s \<Rightarrow> gostring \<Rightarrow> User option"
    and hash_of :: "'s \<Rightarrow> gostring \<Rightarrow> gostring"
    and inv :: "'s \<Rightarrow> bool"
    and ok :: "Draw \<Rightarrow> bool"
    and frame :: "'s \<Rightarrow> 'f"
    and admits :: "NewUser \<Rightarrow> bool"
    and admits_update :: "UserUpdate \<Rightarrow> bool"
    and canonical :: "gostring \<Rightarrow> bool"
  assumes users_ID: "inv s \<Longrightarrow> users s i = Some u \<Longrightarrow> u_ID u = i"
    and email_inj: "inv s \<Longrightarrow> users s i = Some u \<Longrightarrow> users s j = Some v \<Longrightarrow> u_Email u = u_Email v \<Longrightarrow> i = j"
    and username_inj: "inv s \<Longrightarrow> users s i = Some u \<Longrightarrow> users s j = Some v \<Longrightarrow> u_Username u = u_Username v \<Longrightarrow> i = j"
    and ByID: "inv s \<Longrightarrow> ok d \<Longrightarrow>
      us_ByID U d i s = (case users s i of None \<Rightarrow> Inl ErrNotFound | Some u \<Rightarrow> Inr u)"
    and ByUsername_hit: "inv s \<Longrightarrow> ok d \<Longrightarrow> users s i = Some u \<Longrightarrow> us_ByUsername U d (u_Username u) s = Inr u"
    and ByUsername_miss: "inv s \<Longrightarrow> ok d \<Longrightarrow> (\<And>i u. users s i = Some u \<Longrightarrow> u_Username u \<noteq> name) \<Longrightarrow>
      us_ByUsername U d name s = Inl ErrNotFound"
    and Credentials_hit: "inv s \<Longrightarrow> ok d \<Longrightarrow> canonical (u_Email u) \<Longrightarrow> users s i = Some u \<Longrightarrow>
      us_CredentialsByEmail U d (u_Email u) s = Inr \<lparr>cr_UserID = i, cr_PasswordHash = hash_of s i\<rparr>"
    and Credentials_miss: "inv s \<Longrightarrow> ok d \<Longrightarrow> canonical e \<Longrightarrow> (\<And>i u. users s i = Some u \<Longrightarrow> u_Email u \<noteq> e) \<Longrightarrow>
      us_CredentialsByEmail U d e s = Inl ErrNotFound"
    and Create_ok: "inv s \<Longrightarrow> ok d \<Longrightarrow> admits inp \<Longrightarrow> users s (NewID d) = None \<Longrightarrow>
      (\<And>i u. users s i = Some u \<Longrightarrow> u_Email u \<noteq> nu_Email inp \<and> u_Username u \<noteq> nu_Username inp) \<Longrightarrow>
      \<exists>s'. us_Create U d inp s = (Inr (new_user_row d inp), s') \<and> inv s' \<and> frame s' = frame s
         \<and> users s' = (users s)(NewID d := Some (new_user_row d inp))
         \<and> hash_of s' = (hash_of s)(NewID d := nu_PasswordHash inp)"
    and Create_conflict: "inv s \<Longrightarrow> ok d \<Longrightarrow> admits inp \<Longrightarrow> users s (NewID d) = None \<Longrightarrow>
      users s i = Some u \<Longrightarrow> u_Email u = nu_Email inp \<or> u_Username u = nu_Username inp \<Longrightarrow>
      \<exists>field reason. us_Create U d inp s = (Inl (ConflictError field reason), s)
         \<and> (field = ''email'' \<and> (\<exists>i u. users s i = Some u \<and> u_Email u = nu_Email inp)
            \<or> field = ''username'' \<and> (\<exists>i u. users s i = Some u \<and> u_Username u = nu_Username inp))"
    and Update_ok: "inv s \<Longrightarrow> ok d \<Longrightarrow> admits_update upd \<Longrightarrow> users s i = Some u \<Longrightarrow>
      \<exists>s' c. us_Update U d i upd s = (Inr ((apply_update upd u)\<lparr>u_UpdatedAt := c\<rparr>), s') \<and> inv s' \<and> frame s' = frame s
         \<and> users s' = (users s)(i := Some ((apply_update upd u)\<lparr>u_UpdatedAt := c\<rparr>)) \<and> hash_of s' = hash_of s"
    and Update_missing: "inv s \<Longrightarrow> ok d \<Longrightarrow> users s i = None \<Longrightarrow> us_Update U d i upd s = (Inl ErrNotFound, s)"

section \<open>Posts\<close>

definition new_post_row :: "Draw \<Rightarrow> NewPost \<Rightarrow> Post" where
  "new_post_row d inp =
     \<lparr>p_ID = NewID d, p_AuthorID = np_AuthorID inp, p_Author = None, p_ImageKey = np_ImageKey inp,
      p_Caption = np_Caption inp, p_CreatedAt = d_now d\<rparr>"

locale post_store =
  fixes P :: "'s PostStore"
    and posts :: "'s \<Rightarrow> gostring \<Rightarrow> Post option"
    and author :: "'f \<Rightarrow> gostring \<Rightarrow> User option"
    and inv :: "'s \<Rightarrow> bool"
    and ok :: "Draw \<Rightarrow> bool"
    and frame :: "'s \<Rightarrow> 'f"
    and admits :: "NewPost \<Rightarrow> bool"
    and stamp :: "time \<Rightarrow> time"
    and layout_parse :: "gostring \<Rightarrow> time option"
  assumes posts_ID: "inv s \<Longrightarrow> posts s i = Some p \<Longrightarrow> p_ID p = i"
    and posts_author: "inv s \<Longrightarrow> posts s i = Some p \<Longrightarrow> author (frame s) (p_AuthorID p) \<noteq> None"
    and posts_stamp: "inv s \<Longrightarrow> posts s i = Some p \<Longrightarrow> stamp (p_CreatedAt p) = p_CreatedAt p"
    and posts_finite: "inv s \<Longrightarrow> finite (dom (posts s))"
    and Create_ok: "inv s \<Longrightarrow> ok d \<Longrightarrow> admits inp \<Longrightarrow> posts s (NewID d) = None \<Longrightarrow>
      author (frame s) (np_AuthorID inp) = Some a \<Longrightarrow>
      \<exists>s'. ps_Create P d inp s = (Inr (hydrate (new_post_row d inp) (Some a)), s') \<and> inv s' \<and> frame s' = frame s
         \<and> posts s' = (posts s)(NewID d := Some (new_post_row d inp))"
    and ByID: "inv s \<Longrightarrow> ok d \<Longrightarrow>
      ps_ByID P d i s = (case posts s i of None \<Rightarrow> Inl ErrNotFound
                         | Some p \<Rightarrow> Inr (hydrate p (author (frame s) (p_AuthorID p))))"
    and Delete_missing: "inv s \<Longrightarrow> ok d \<Longrightarrow> posts s i = None \<Longrightarrow> ps_Delete P d i requester s = (Inl ErrNotFound, s)"
    and Delete_forbidden: "inv s \<Longrightarrow> ok d \<Longrightarrow> posts s i = Some p \<Longrightarrow> p_AuthorID p \<noteq> requester \<Longrightarrow>
      ps_Delete P d i requester s = (Inl ErrForbidden, s)"
    and Delete_ok: "inv s \<Longrightarrow> ok d \<Longrightarrow> posts s i = Some p \<Longrightarrow> p_AuthorID p = requester \<Longrightarrow>
      \<exists>s'. ps_Delete P d i requester s = (Inr (), s') \<and> inv s' \<and> frame s' = frame s
         \<and> posts s' = (posts s)(i := None)"
    and Feed: "inv s \<Longrightarrow> ok d \<Longrightarrow> feed_list L \<Longrightarrow>
      set L = {hydrate p (author (frame s) (p_AuthorID p)) | i p. posts s i = Some p} \<Longrightarrow>
      ps_Feed P d req s = page_of stamp layout_parse req L"
    and ByAuthor: "inv s \<Longrightarrow> ok d \<Longrightarrow> feed_list L \<Longrightarrow>
      set L = {hydrate p (author (frame s) (p_AuthorID p)) | i p. posts s i = Some p \<and> p_AuthorID p = authorID} \<Longrightarrow>
      ps_ByAuthor P d authorID req s = page_of stamp layout_parse req L"

end
