(* ===== verification/Sha256.thy ===== *)
theory Sha256
  imports Encoding "HOL-Library.Word"
begin

text \<open>
  \<open>crypto/sha256\<close>, the one digest the server computes itself (the refresh token hash), on
  32-bit words with the wrap-around the algorithm is defined by.
\<close>

unbundle bit_operations_syntax

definition K256 :: "32 word list" where
  "K256 =
    [0x428a2f98, 0x71374491, 0xb5c0fbcf, 0xe9b5dba5, 0x3956c25b, 0x59f111f1, 0x923f82a4, 0xab1c5ed5,
     0xd807aa98, 0x12835b01, 0x243185be, 0x550c7dc3, 0x72be5d74, 0x80deb1fe, 0x9bdc06a7, 0xc19bf174,
     0xe49b69c1, 0xefbe4786, 0x0fc19dc6, 0x240ca1cc, 0x2de92c6f, 0x4a7484aa, 0x5cb0a9dc, 0x76f988da,
     0x983e5152, 0xa831c66d, 0xb00327c8, 0xbf597fc7, 0xc6e00bf3, 0xd5a79147, 0x06ca6351, 0x14292967,
     0x27b70a85, 0x2e1b2138, 0x4d2c6dfc, 0x53380d13, 0x650a7354, 0x766a0abb, 0x81c2c92e, 0x92722c85,
     0xa2bfe8a1, 0xa81a664b, 0xc24b8b70, 0xc76c51a3, 0xd192e819, 0xd6990624, 0xf40e3585, 0x106aa070,
     0x19a4c116, 0x1e376c08, 0x2748774c, 0x34b0bcb5, 0x391c0cb3, 0x4ed8aa4a, 0x5b9cca4f, 0x682e6ff3,
     0x748f82ee, 0x78a5636f, 0x84c87814, 0x8cc70208, 0x90befffa, 0xa4506ceb, 0xbef9a3f7, 0xc67178f2]"

definition H256 :: "32 word list" where
  "H256 = [0x6a09e667, 0xbb67ae85, 0x3c6ef372, 0xa54ff53a, 0x510e527f, 0x9b05688c, 0x1f83d9ab, 0x5be0cd19]"

definition rotr :: "nat \<Rightarrow> 32 word \<Rightarrow> 32 word" where
  "rotr n x = drop_bit n x OR push_bit (32 - n) x"

definition be32 :: "char \<Rightarrow> char \<Rightarrow> char \<Rightarrow> char \<Rightarrow> 32 word" where
  "be32 a b c d = ((of_char a * 256 + of_char b) * 256 + of_char c) * 256 + of_char d"

fun be_words :: "gostring \<Rightarrow> 32 word list" where
  "be_words (a # b # c # d # rest) = be32 a b c d # be_words rest"
| "be_words _ = []"

definition word_bytes :: "32 word \<Rightarrow> gostring" where
  "word_bytes w = map (\<lambda>i. char_of (uint (drop_bit (8 * i) w) mod 256)) [3, 2, 1, 0]"

text \<open>The padding: a one bit, zeros, and the length in bits as a 64-bit big-endian number.\<close>

definition sha_pad :: "gostring \<Rightarrow> gostring" where
  "sha_pad msg =
     (let n = length msg; zeros = (119 - n mod 64) mod 64
      in msg @ char_of (128 :: int) # replicate zeros (char_of (0 :: int)) @
         map (\<lambda>i. char_of ((8 * int n) div 256 ^ i mod 256)) [7, 6, 5, 4, 3, 2, 1, 0])"

text \<open>The message schedule is extended to the right, read from its last sixteen words.\<close>

fun schedule :: "nat \<Rightarrow> 32 word list \<Rightarrow> 32 word list" where
  "schedule 0 ws = ws"
| "schedule (Suc k) ws =
     (let n = length ws; w15 = ws ! (n - 15); w2 = ws ! (n - 2);
          s0 = rotr 7 w15 XOR rotr 18 w15 XOR drop_bit 3 w15;
          s1 = rotr 17 w2 XOR rotr 19 w2 XOR drop_bit 10 w2
      in schedule k (ws @ [ws ! (n - 16) + s0 + ws ! (n - 7) + s1]))"

fun sha_round :: "32 word list \<Rightarrow> 32 word \<times> 32 word \<Rightarrow> 32 word list" where
  "sha_round [a, b, c, d, e, f, g, h] (k, w) =
     (let s1 = rotr 6 e XOR rotr 11 e XOR rotr 25 e;
          ch = (e AND f) XOR (NOT e AND g);
          t1 = h + s1 + ch + k + w;
          s0 = rotr 2 a XOR rotr 13 a XOR rotr 22 a;
          maj = (a AND b) XOR (a AND c) XOR (b AND c)
      in [t1 + s0 + maj, a, b, c, d + t1, e, f, g])"
| "sha_round hs _ = hs"

definition sha_block :: "32 word list \<Rightarrow> gostring \<Rightarrow> 32 word list" where
  "sha_block hs block = map2 (+) hs (foldl sha_round hs (zip K256 (schedule 48 (be_words block))))"

fun sha_blocks :: "nat \<Rightarrow> 32 word list \<Rightarrow> gostring \<Rightarrow> 32 word list" where
  "sha_blocks 0 hs msg = hs"
| "sha_blocks (Suc n) hs msg = sha_blocks n (sha_block hs (take 64 msg)) (drop 64 msg)"

definition Sum256 :: "gostring \<Rightarrow> gostring" where
  "Sum256 msg =
     (let padded = sha_pad msg
      in concat (map word_bytes (sha_blocks (length padded div 64) H256 padded)))"

end
