(* ===== verification/Sessions.thy ===== *)
theory Sessions
  imports Interfaces Sha256
begin

text \<open>
  The credentials of \<open>internal/auth\<close>: password hashing (\<open>password.go\<close>), access tokens
  (\<open>tokens.go\<close>) and the rotating refresh tokens (\<open>session.go\<close>).  The JWT and bcrypt
  libraries are third-party code and enter as the parameters \<open>JwtLib\<close> and \<open>BcryptLib\<close>; the
  token store is the interface of \<open>StoreTypes\<close>.  \<open>SessionLaws\<close> proves what the contract of the
  token store gives for these functions.
\<close>

section \<open>Errors\<close>

text \<open>
  \<open>AuthStore msg e\<close> wraps an error of the store (\<open>fmt.Errorf("msg: %w", e)\<close>; the empty message
  returns \<open>e\<close> as it is), \<open>AuthOther\<close> is a failure of a library.
\<close>

datatype auth_error = ErrTokenExpired | ErrTokenInvalid | AuthStore gostring store_error | AuthOther gostring

section \<open>Passwords\<close>

record BcryptLib =
  bc_GenerateFromPassword :: "gostring \<Rightarrow> int \<Rightarrow> Draw \<Rightarrow> gostring + gostring"
  bc_CompareHashAndPassword :: "gostring \<Rightarrow> gostring \<Rightarrow> bool"

definition bcryptCost :: int where "bcryptCost = 12"

definition HashPassword :: "BcryptLib \<Rightarrow> Draw \<Rightarrow> gostring \<Rightarrow> auth_error + gostring" where
  "HashPassword bc d plaintext =
     (case bc_GenerateFromPassword bc plaintext bcryptCost d of
        Inl e \<Rightarrow> Inl (AuthOther (''hashing password: '' @ e))
      | Inr hash \<Rightarrow> Inr hash)"

definition VerifyPassword :: "BcryptLib \<Rightarrow> gostring \<Rightarrow> gostring \<Rightarrow> bool" where
  "VerifyPassword bc hash plaintext = bc_CompareHashAndPassword bc hash plaintext"

definition dummyHash :: gostring where
  "dummyHash = ''$2a$12$N9qo8uLOickgx2ZMRZoMyeIjZAgcfl7p92ldGxad68LJZdL17lhWy''"

text \<open>The comparison whose result is thrown away; what it costs is not modelled.\<close>

definition BurnPasswordComparison :: "BcryptLib \<Rightarrow> gostring \<Rightarrow> unit" where
  "BurnPasswordComparison bc plaintext = (let _ = bc_CompareHashAndPassword bc dummyHash plaintext in ())"

section \<open>Access tokens\<close>

record Claims =
  cl_Issuer :: gostring
  cl_Subject :: gostring
  cl_ID :: gostring
  cl_IssuedAt :: time
  cl_NotBefore :: time
  cl_ExpiresAt :: time

record ParserOptions =
  po_ValidMethods :: "gostring list"
  po_Issuer :: gostring
  po_ExpirationRequired :: bool

text \<open>
  The JWT library: \<open>NewNumericDate\<close>, \<open>SignedString\<close> (key, algorithm, claims) and
  \<open>ParseWithClaims\<close>, which reads the clock, asks the key function (is the method an HMAC, and
  its \<open>alg\<close> header) for a key, and answers the sentinel errors its error wraps, if any, with the
  claims it has filled in.
\<close>

record JwtLib =
  jw_NewNumericDate :: "time \<Rightarrow> time"
  jw_SignedString :: "gostring \<Rightarrow> gostring \<Rightarrow> Claims \<Rightarrow> gostring + gostring"
  jw_ParseWithClaims ::
    "time \<Rightarrow> (bool \<Rightarrow> gostring \<Rightarrow> gostring + gostring) \<Rightarrow> ParserOptions \<Rightarrow> gostring
      \<Rightarrow> gostring list option \<times> Claims"

definition tokenIssuer :: gostring where "tokenIssuer = ''domieface''"

record TokenIssuer =
  ti_secret :: gostring
  ti_accessTTL :: duration

definition NewTokenIssuer :: "gostring \<Rightarrow> duration \<Rightarrow> TokenIssuer" where
  "NewTokenIssuer secret accessTTL = \<lparr>ti_secret = secret, ti_accessTTL = accessTTL\<rparr>"

definition access_claims :: "JwtLib \<Rightarrow> TokenIssuer \<Rightarrow> Draw \<Rightarrow> gostring \<Rightarrow> Claims" where
  "access_claims jw ti d userID =
     \<lparr>cl_Issuer = tokenIssuer, cl_Subject = userID, cl_ID = hex_encode (rand_bytes d 8),
      cl_IssuedAt = jw_NewNumericDate jw (d_now d), cl_NotBefore = jw_NewNumericDate jw (d_now d),
      cl_ExpiresAt = jw_NewNumericDate jw (d_now d + ti_accessTTL ti)\<rparr>"

definition IssueAccess ::
    "JwtLib \<Rightarrow> TokenIssuer \<Rightarrow> Draw \<Rightarrow> gostring \<Rightarrow> auth_error + gostring \<times> time" where
  "IssueAccess jw ti d userID =
     (case jw_SignedString jw (ti_secret ti) ''HS256'' (access_claims jw ti d userID) of
        Inl e \<Rightarrow> Inl (AuthOther (''signing access token: '' @ e))
      | Inr raw \<Rightarrow> Inr (raw, d_now d + ti_accessTTL ti))"

text \<open>The key function passed to the parser: it pins the algorithm family.\<close>

definition access_keyfunc :: "TokenIssuer \<Rightarrow> bool \<Rightarrow> gostring \<Rightarrow> gostring + gostring" where
  "access_keyfunc ti is_hmac alg =
     (if \<not> is_hmac then Inl (''unexpected signing method '' @ alg) else Inr (ti_secret ti))"

definition access_options :: ParserOptions where
  "access_options = \<lparr>po_ValidMethods = [''HS256''], po_Issuer = tokenIssuer, po_ExpirationRequired = True\<rparr>"

definition ParseAccess :: "JwtLib \<Rightarrow> TokenIssuer \<Rightarrow> Draw \<Rightarrow> gostring \<Rightarrow> auth_error + gostring" where
  "ParseAccess jw ti d raw =
     (case jw_ParseWithClaims jw (d_now d) (access_keyfunc ti) access_options raw of
        (Some errs, claims) \<Rightarrow>
          if ''ErrTokenExpired'' \<in> set errs then Inl ErrTokenExpired else Inl ErrTokenInvalid
      | (None, claims) \<Rightarrow>
          if cl_Subject claims = [] then Inl ErrTokenInvalid else Inr (cl_Subject claims))"

section \<open>Refresh tokens\<close>

definition HashRefreshToken :: "gostring \<Rightarrow> gostring" where
  "HashRefreshToken plaintext = hex_encode (Sum256 plaintext)"

definition NewRefreshToken :: "Draw \<Rightarrow> gostring \<times> gostring" where
  "NewRefreshToken d = (let plaintext = b64_url (rand_bytes d 32) in (plaintext, HashRefreshToken plaintext))"

record Session =
  ss_UserID :: gostring
  ss_AccessToken :: gostring
  ss_RefreshToken :: gostring
  ss_AccessExpiresAt :: time

record 's Service =
  sv_tokens :: "'s TokenStore"
  sv_issuer :: TokenIssuer
  sv_refreshTTL :: duration

definition NewService :: "'s TokenStore \<Rightarrow> TokenIssuer \<Rightarrow> duration \<Rightarrow> 's Service" where
  "NewService tokens issuer refreshTTL = \<lparr>sv_tokens = tokens, sv_issuer = issuer, sv_refreshTTL = refreshTTL\<rparr>"

text \<open>
  \<open>issue\<close>: the draws are the access token's (0), the refresh token's bytes (1), the clock (2),
  the row's identifier (3) and the store call (4).
\<close>

definition new_token :: "'s Service \<Rightarrow> (nat \<Rightarrow> Draw) \<Rightarrow> gostring \<Rightarrow> gostring \<Rightarrow> RefreshToken" where
  "new_token sv dr userID familyID =
     \<lparr>rt_ID = NewID (dr 3), rt_UserID = userID, rt_FamilyID = familyID,
      rt_TokenHash = snd (NewRefreshToken (dr 1)), rt_ExpiresAt = d_now (dr 2) + sv_refreshTTL sv,
      rt_CreatedAt = d_now (dr 2), rt_UsedAt = None, rt_RevokedAt = None\<rparr>"

definition issue ::
    "JwtLib \<Rightarrow> 's Service \<Rightarrow> (nat \<Rightarrow> Draw) \<Rightarrow> gostring \<Rightarrow> gostring \<Rightarrow> 's \<Rightarrow> (auth_error + Session) \<times> 's" where
  "issue jw sv dr userID familyID s =
     (case IssueAccess jw (sv_issuer sv) (dr 0) userID of
        Inl e \<Rightarrow> (Inl e, s)
      | Inr (accessToken, accessExpiresAt) \<Rightarrow>
          (case ts_Issue (sv_tokens sv) (dr 4) (new_token sv dr userID familyID) s of
             (Inl e, s') \<Rightarrow> (Inl (AuthStore ''storing refresh token'' e), s')
           | (Inr _, s') \<Rightarrow>
               (Inr \<lparr>ss_UserID = userID, ss_AccessToken = accessToken,
                     ss_RefreshToken = fst (NewRefreshToken (dr 1)), ss_AccessExpiresAt = accessExpiresAt\<rparr>, s')))"

definition Start ::
    "JwtLib \<Rightarrow> 's Service \<Rightarrow> (nat \<Rightarrow> Draw) \<Rightarrow> gostring \<Rightarrow> 's \<Rightarrow> (auth_error + Session) \<times> 's" where
  "Start jw sv dr userID s = issue jw sv dr userID (NewID (dr 5)) s"

text \<open>\<open>Rotate\<close>: the lookup is draw 5, the clock draw 6, the store calls 7 and 8, then \<open>issue\<close>.\<close>

definition Rotate ::
    "JwtLib \<Rightarrow> 's Service \<Rightarrow> (nat \<Rightarrow> Draw) \<Rightarrow> gostring \<Rightarrow> 's \<Rightarrow> (auth_error + Session) \<times> 's" where
  "Rotate jw sv dr presented s =
     (if presented = [] then (Inl ErrTokenInvalid, s)
      else case ts_ByHash (sv_tokens sv) (dr 5) (HashRefreshToken presented) s of
        Inl ErrNotFound \<Rightarrow> (Inl ErrTokenInvalid, s)
      | Inl e \<Rightarrow> (Inl (AuthStore ''looking up refresh token'' e), s)
      | Inr token \<Rightarrow>
          let now = d_now (dr 6)
          in if rt_UsedAt token \<noteq> None then
               (case ts_RevokeFamily (sv_tokens sv) (dr 7) (rt_FamilyID token) now s of
                  (Inl e, s') \<Rightarrow> (Inl (AuthStore ''revoking replayed token family'' e), s')
                | (Inr _, s') \<Rightarrow> (Inl ErrTokenInvalid, s'))
             else if rt_RevokedAt token \<noteq> None then (Inl ErrTokenInvalid, s)
             else if \<not> now < rt_ExpiresAt token then (Inl ErrTokenExpired, s)
             else
               (case ts_MarkUsed (sv_tokens sv) (dr 7) (rt_ID token) now s of
                  (Inl ErrNotFound, s') \<Rightarrow>
                    (case ts_RevokeFamily (sv_tokens sv) (dr 8) (rt_FamilyID token) now s' of
                       (Inl e, s'') \<Rightarrow> (Inl (AuthStore ''revoking raced token family'' e), s'')
                     | (Inr _, s'') \<Rightarrow> (Inl ErrTokenInvalid, s''))
                | (Inl e, s') \<Rightarrow> (Inl (AuthStore ''consuming refresh token'' e), s')
                | (Inr _, s') \<Rightarrow> issue jw sv dr (rt_UserID token) (rt_FamilyID token) s'))"

definition Revoke ::
    "'s Service \<Rightarrow> (nat \<Rightarrow> Draw) \<Rightarrow> gostring \<Rightarrow> 's \<Rightarrow> (auth_error + unit) \<times> 's" where
  "Revoke sv dr presented s =
     (if presented = [] then (Inr (), s)
      else case ts_ByHash (sv_tokens sv) (dr 0) (HashRefreshToken presented) s of
        Inl ErrNotFound \<Rightarrow> (Inr (), s)
      | Inl e \<Rightarrow> (Inl (AuthStore ''looking up refresh token'' e), s)
      | Inr token \<Rightarrow>
          (case ts_RevokeFamily (sv_tokens sv) (dr 1) (rt_FamilyID token) (d_now (dr 2)) s of
             (Inl e, s') \<Rightarrow> (Inl (AuthStore [] e), s')
           | (Inr _, s') \<Rightarrow> (Inr (), s')))"

definition RevokeAllForUser ::
    "'s Service \<Rightarrow> (nat \<Rightarrow> Draw) \<Rightarrow> gostring \<Rightarrow> 's \<Rightarrow> (auth_error + unit) \<times> 's" where
  "RevokeAllForUser sv dr userID s =
     (case ts_RevokeAllForUser (sv_tokens sv) (dr 0) userID (d_now (dr 1)) s of
        (Inl e, s') \<Rightarrow> (Inl (AuthStore [] e), s')
      | (Inr _, s') \<Rightarrow> (Inr (), s'))"

section \<open>The token table as an abstract machine\<close>

text \<open>
  A token is live while it is neither consumed nor revoked.  \<open>tok_step\<close> is what any operation
  may do to the table \<open>m\<close>, together with the set \<open>F\<close> of families ever started: nothing, a
  revocation, the consumption of a live token, its exchange for a successor in the same family,
  the start of a family never used before, a deletion.
\<close>

definition live :: "RefreshToken \<Rightarrow> bool" where
  "live t \<longleftrightarrow> rt_UsedAt t = None \<and> rt_RevokedAt t = None"

inductive tok_step ::
    "(gostring \<Rightarrow> RefreshToken option) \<times> gostring set \<Rightarrow> (gostring \<Rightarrow> RefreshToken option) \<times> gostring set \<Rightarrow> bool" where
  skip: "tok_step (m, F) (m, F)"
| revoke: "tok_step (m, F) (\<lambda>i. map_option (revoke_if P at) (m i), F)"
| consume: "m i = Some t \<Longrightarrow> live t \<Longrightarrow> tok_step (m, F) (m(i := Some (t\<lparr>rt_UsedAt := Some at\<rparr>)), F)"
| exchange: "m i = Some t \<Longrightarrow> live t \<Longrightarrow> m j = None \<Longrightarrow> rt_FamilyID n = rt_FamilyID t \<Longrightarrow> rt_UserID n = rt_UserID t \<Longrightarrow>
    tok_step (m, F) (m(i := Some (t\<lparr>rt_UsedAt := Some at\<rparr>), j := Some n), F)"
| start: "m j = None \<Longrightarrow> rt_FamilyID n \<notin> F \<Longrightarrow> tok_step (m, F) (m(j := Some n), insert (rt_FamilyID n) F)"
| delete: "tok_step (m, F) (\<lambda>i. case m i of None \<Rightarrow> None | Some t \<Rightarrow> if P t then None else Some t, F)"

text \<open>
  What every step keeps: families in the table are recorded, one user and at most one live
  token per family; and a family once dead stays dead.
\<close>

definition family_inv :: "(gostring \<Rightarrow> RefreshToken option) \<times> gostring set \<Rightarrow> bool" where
  "family_inv mF \<longleftrightarrow>
     (\<forall>i t. fst mF i = Some t \<longrightarrow> rt_FamilyID t \<in> snd mF) \<and>
     (\<forall>i j t u. fst mF i = Some t \<longrightarrow> fst mF j = Some u \<longrightarrow> rt_FamilyID t = rt_FamilyID u \<longrightarrow>
        rt_UserID t = rt_UserID u \<and> (live t \<longrightarrow> live u \<longrightarrow> i = j))"

definition dead_family :: "gostring \<Rightarrow> (gostring \<Rightarrow> RefreshToken option) \<times> gostring set \<Rightarrow> bool" where
  "dead_family f mF \<longleftrightarrow> f \<in> snd mF \<and> (\<forall>i t. fst mF i = Some t \<longrightarrow> rt_FamilyID t = f \<longrightarrow> \<not> live t)"

lemma family_invI:
  assumes "\<And>i t. m i = Some t \<Longrightarrow> rt_FamilyID t \<in> F"
    and "\<And>i j t u. m i = Some t \<Longrightarrow> m j = Some u \<Longrightarrow> rt_FamilyID t = rt_FamilyID u \<Longrightarrow> rt_UserID t = rt_UserID u"
    and "\<And>i j t u. m i = Some t \<Longrightarrow> m j = Some u \<Longrightarrow> rt_FamilyID t = rt_FamilyID u \<Longrightarrow> live t \<Longrightarrow> live u \<Longrightarrow> i = j"
  shows "family_inv (m, F)"
  unfolding family_inv_def fst_conv snd_conv by (intro conjI allI impI) (rule assms; assumption)+

lemma family_invD:
  assumes "family_inv (m, F)"
  shows "m i = Some t \<Longrightarrow> rt_FamilyID t \<in> F"
    and "m i = Some t \<Longrightarrow> m j = Some u \<Longrightarrow> rt_FamilyID t = rt_FamilyID u \<Longrightarrow> rt_UserID t = rt_UserID u"
    and "m i = Some t \<Longrightarrow> m j = Some u \<Longrightarrow> rt_FamilyID t = rt_FamilyID u \<Longrightarrow> live t \<Longrightarrow> live u \<Longrightarrow> i = j"
proof -
  note AB = assms [unfolded family_inv_def fst_conv snd_conv]
  note A = conjunct1 [OF AB] and B = conjunct2 [OF AB]
  show "m i = Some t \<Longrightarrow> rt_FamilyID t \<in> F"
    by (rule A [rule_format])
  assume "m i = Some t" "m j = Some u" "rt_FamilyID t = rt_FamilyID u"
  from B [rule_format, OF this]
  show "rt_UserID t = rt_UserID u" and "live t \<Longrightarrow> live u \<Longrightarrow> i = j"
    by simp_all
qed

lemma live_revoke_if [simp]: "live (revoke_if P at t) \<longleftrightarrow> live t \<and> \<not> P t"
  by (auto simp: live_def revoke_if_def)

lemma not_live_used [simp]: "\<not> live (t\<lparr>rt_UsedAt := Some at\<rparr>)"
  by (simp add: live_def)

lemma tok_step_family_inv: "tok_step mF mF' \<Longrightarrow> family_inv mF \<Longrightarrow> family_inv mF'"
proof (induction rule: tok_step.induct)
  case (revoke m F P at)
  note inv = family_invD [OF revoke.prems]
  show ?case
    by (rule family_invI) (auto dest: inv)
next
  case (consume m i t F at)
  note inv = family_invD [OF consume.prems]
  show ?case
    using consume.hyps by (intro family_invI) (auto split: if_splits dest: inv)
next
  case (exchange m i t j n F at)
  note inv = family_invD [OF exchange.prems]
  show ?case
    using exchange.hyps by (intro family_invI) (auto split: if_splits dest: inv)
next
  case (start m j n F)
  note inv = family_invD [OF start.prems]
  show ?case
    using start.hyps by (intro family_invI) (auto split: if_splits dest: inv)
next
  case (delete m F P)
  note inv = family_invD [OF delete.prems]
  show ?case
    by (intro family_invI) (auto split: option.splits if_splits dest: inv)
qed

lemma tok_step_dead:
  "tok_step mF mF' \<Longrightarrow> family_inv mF \<Longrightarrow> dead_family f mF \<Longrightarrow> dead_family f mF'"
  by (induction rule: tok_step.induct) (auto simp: dead_family_def split: option.splits if_splits)

lemma tok_step_grows: "tok_step mF mF' \<Longrightarrow> snd mF \<subseteq> snd mF'"
  by (induction rule: tok_step.induct) auto

section \<open>Runs of the session service\<close>

text \<open>
  The randomness a run relies on: the identifier and the digest of a fresh token occur in the
  table nowhere.
\<close>

definition fresh_draws :: "(gostring \<Rightarrow> RefreshToken option) \<Rightarrow> (nat \<Rightarrow> Draw) \<Rightarrow> bool" where
  "fresh_draws m dr \<longleftrightarrow>
     m (NewID (dr 3)) = None \<and> (\<forall>i t. m i = Some t \<longrightarrow> rt_TokenHash t \<noteq> snd (NewRefreshToken (dr 1)))"

text \<open>
  The states a store goes through under any sequence of calls of the service (and of the
  janitor's deletion of expired tokens), with the set of families started so far; a call whose
  result is an error is a step as well.
\<close>

inductive session_run ::
    "('s \<Rightarrow> gostring \<Rightarrow> RefreshToken option) \<Rightarrow> ('s \<Rightarrow> gostring \<Rightarrow> bool) \<Rightarrow> (Draw \<Rightarrow> bool) \<Rightarrow> JwtLib \<Rightarrow> 's Service
      \<Rightarrow> 's \<times> gostring set \<Rightarrow> 's \<times> gostring set \<Rightarrow> bool"
  for toks known ok jw sv x where
  init: "session_run toks known ok jw sv x x"
| start: "session_run toks known ok jw sv x (s, F) \<Longrightarrow> \<forall>k. ok (dr k) \<Longrightarrow> known s userID \<Longrightarrow> fresh_draws (toks s) dr \<Longrightarrow>
    NewID (dr 5) \<notin> F \<Longrightarrow>
    session_run toks known ok jw sv x (snd (Start jw sv dr userID s), insert (NewID (dr 5)) F)"
| rotate: "session_run toks known ok jw sv x (s, F) \<Longrightarrow> \<forall>k. ok (dr k) \<Longrightarrow> fresh_draws (toks s) dr \<Longrightarrow>
    session_run toks known ok jw sv x (snd (Rotate jw sv dr presented s), F)"
| revoke: "session_run toks known ok jw sv x (s, F) \<Longrightarrow> \<forall>k. ok (dr k) \<Longrightarrow>
    session_run toks known ok jw sv x (snd (Revoke sv dr presented s), F)"
| revoke_all: "session_run toks known ok jw sv x (s, F) \<Longrightarrow> \<forall>k. ok (dr k) \<Longrightarrow>
    session_run toks known ok jw sv x (snd (RevokeAllForUser sv dr userID s), F)"
| expire: "session_run toks known ok jw sv x (s, F) \<Longrightarrow> ok d \<Longrightarrow>
    session_run toks known ok jw sv x (snd (ts_DeleteExpired (sv_tokens sv) d before s), F)"

end
