(* ===== verification/MemoryStore.thy ===== *)
theory MemoryStore
  imports Interfaces
begin

text \<open>
  The in-memory store of \<open>internal/store/memory/memory.go\<close>.  The mutex makes every method one
  atomic step; the pointers in its maps are never shared with a caller (every read copies), so
  the maps hold values.
\<close>

record MemStore =
  m_users :: "User gomap"
  m_passwords :: "gostring gomap"
  m_posts :: "Post gomap"
  m_tokens :: "RefreshToken gomap"
  m_uploads :: "Upload gomap"

text \<open>\<open>New\<close>.\<close>

definition mem_New :: MemStore where
  "mem_New = \<lparr>m_users = [], m_passwords = [], m_posts = [], m_tokens = [], m_uploads = []\<rparr>"

definition go_index :: "'v gomap \<Rightarrow> gostring \<Rightarrow> 'v \<Rightarrow> 'v" where
  "go_index m k zero = (case map_of m k of Some v \<Rightarrow> v | None \<Rightarrow> zero)"

lemma go_index_upd:
  "(\<lambda>i. go_index (AList.update k v m) i z) = (\<lambda>i. go_index m i z)(k := v)"
  by (auto simp: go_index_def update_conv' fun_eq_iff)

section \<open>Users\<close>

text \<open>The conflict scan of \<open>(*userStore).Create\<close>: the first user it meets that clashes.\<close>

fun conflict_scan :: "NewUser \<Rightarrow> User list \<Rightarrow> store_error option" where
  "conflict_scan inp [] = None"
| "conflict_scan inp (u # us) =
     (if u_Email u = nu_Email inp then Some (ConflictError ''email'' ''already in use'')
      else if u_Username u = nu_Username inp then Some (ConflictError ''username'' ''already taken'')
      else conflict_scan inp us)"

definition mem_user_Create :: "Draw \<Rightarrow> NewUser \<Rightarrow> MemStore \<Rightarrow> (store_error + User) \<times> MemStore" where
  "mem_user_Create d inp s =
     (case conflict_scan inp (range_vals d (m_users s)) of
        Some e \<Rightarrow> (Inl e, s)
      | None \<Rightarrow>
          let user = new_user_row d inp
          in (Inr user,
              s\<lparr>m_users := AList.update (u_ID user) user (m_users s),
                m_passwords := AList.update (u_ID user) (nu_PasswordHash inp) (m_passwords s)\<rparr>))"

definition mem_user_ByID :: "Draw \<Rightarrow> gostring \<Rightarrow> MemStore \<Rightarrow> store_error + User" where
  "mem_user_ByID d ident s =
     (case map_of (m_users s) ident of None \<Rightarrow> Inl ErrNotFound | Some user \<Rightarrow> Inr user)"

definition mem_user_ByUsername :: "Draw \<Rightarrow> gostring \<Rightarrow> MemStore \<Rightarrow> store_error + User" where
  "mem_user_ByUsername d username s =
     (case List.find (\<lambda>u. u_Username u = username) (range_vals d (m_users s)) of
        None \<Rightarrow> Inl ErrNotFound
      | Some u \<Rightarrow> Inr u)"

definition mem_user_CredentialsByEmail ::
    "(nat \<Rightarrow> nat) \<Rightarrow> Draw \<Rightarrow> gostring \<Rightarrow> MemStore \<Rightarrow> store_error + Credentials" where
  "mem_user_CredentialsByEmail uni d email s =
     (case List.find (\<lambda>u. u_Email u = to_lower uni email) (range_vals d (m_users s)) of
        None \<Rightarrow> Inl ErrNotFound
      | Some u \<Rightarrow> Inr \<lparr>cr_UserID = u_ID u, cr_PasswordHash = go_index (m_passwords s) (u_ID u) []\<rparr>)"

definition mem_user_Update ::
    "Draw \<Rightarrow> gostring \<Rightarrow> UserUpdate \<Rightarrow> MemStore \<Rightarrow> (store_error + User) \<times> MemStore" where
  "mem_user_Update d ident inp s =
     (case map_of (m_users s) ident of
        None \<Rightarrow> (Inl ErrNotFound, s)
      | Some user0 \<Rightarrow>
          let user = (apply_update inp user0)\<lparr>u_UpdatedAt := d_now d\<rparr>
          in (Inr user, s\<lparr>m_users := AList.update ident user (m_users s)\<rparr>))"

section \<open>Posts\<close>

definition mem_post_Create :: "Draw \<Rightarrow> NewPost \<Rightarrow> MemStore \<Rightarrow> (store_error + Post) \<times> MemStore" where
  "mem_post_Create d inp s =
     (case map_of (m_users s) (np_AuthorID inp) of
        None \<Rightarrow> (Inl ErrNotFound, s)
      | Some author \<Rightarrow>
          let post = new_post_row d inp
          in (Inr (hydrate post (Some author)), s\<lparr>m_posts := AList.update (p_ID post) post (m_posts s)\<rparr>))"

definition mem_post_ByID :: "Draw \<Rightarrow> gostring \<Rightarrow> MemStore \<Rightarrow> store_error + Post" where
  "mem_post_ByID d ident s =
     (case map_of (m_posts s) ident of
        None \<Rightarrow> Inl ErrNotFound
      | Some post \<Rightarrow> Inr (hydrate post (map_of (m_users s) (p_AuthorID post))))"

definition mem_post_Delete ::
    "Draw \<Rightarrow> gostring \<Rightarrow> gostring \<Rightarrow> MemStore \<Rightarrow> (store_error + unit) \<times> MemStore" where
  "mem_post_Delete d ident requesterID s =
     (case map_of (m_posts s) ident of
        None \<Rightarrow> (Inl ErrNotFound, s)
      | Some post \<Rightarrow>
          if p_AuthorID post \<noteq> requesterID then (Inl ErrForbidden, s)
          else (Inr (), s\<lparr>m_posts := AList.delete ident (m_posts s)\<rparr>))"

definition mem_page ::
    "(gostring \<Rightarrow> time option) \<Rightarrow> Draw \<Rightarrow> PageRequest \<Rightarrow> (Post \<Rightarrow> bool) \<Rightarrow> MemStore \<Rightarrow> store_error + Post Page" where
  "mem_page layout_parse d req0 keep s =
     (let req = Normalise req0
      in case request_cursor (\<lambda>t. t) layout_parse req of
           Inl e \<Rightarrow> Inl e
         | Inr c \<Rightarrow>
             let matched = map (\<lambda>p. hydrate p (map_of (m_users s) (p_AuthorID p)))
                             (filter keep (range_vals d (m_posts s)));
                 sorted = sort_slice feed_less matched;
                 filtered = (case c of None \<Rightarrow> sorted | Some pos \<Rightarrow> filter (after_cursor pos) sorted)
             in Inr (cut_page (pr_Limit req) filtered))"

definition mem_post_Feed ::
    "(gostring \<Rightarrow> time option) \<Rightarrow> Draw \<Rightarrow> PageRequest \<Rightarrow> MemStore \<Rightarrow> store_error + Post Page" where
  "mem_post_Feed layout_parse d req s = mem_page layout_parse d req (\<lambda>_. True) s"

definition mem_post_ByAuthor ::
    "(gostring \<Rightarrow> time option) \<Rightarrow> Draw \<Rightarrow> gostring \<Rightarrow> PageRequest \<Rightarrow> MemStore \<Rightarrow> store_error + Post Page" where
  "mem_post_ByAuthor layout_parse d authorID req s =
     mem_page layout_parse d req (\<lambda>p. p_AuthorID p = authorID) s"

section \<open>Refresh tokens\<close>

definition mem_token_Issue :: "Draw \<Rightarrow> RefreshToken \<Rightarrow> MemStore \<Rightarrow> (store_error + unit) \<times> MemStore" where
  "mem_token_Issue d token s = (Inr (), s\<lparr>m_tokens := AList.update (rt_ID token) token (m_tokens s)\<rparr>)"

definition mem_token_ByHash :: "Draw \<Rightarrow> gostring \<Rightarrow> MemStore \<Rightarrow> store_error + RefreshToken" where
  "mem_token_ByHash d hash s =
     (case List.find (\<lambda>t. rt_TokenHash t = hash) (range_vals d (m_tokens s)) of
        None \<Rightarrow> Inl ErrNotFound
      | Some t \<Rightarrow> Inr t)"

definition mem_token_MarkUsed ::
    "Draw \<Rightarrow> gostring \<Rightarrow> time \<Rightarrow> MemStore \<Rightarrow> (store_error + unit) \<times> MemStore" where
  "mem_token_MarkUsed d ident at s =
     (case map_of (m_tokens s) ident of
        None \<Rightarrow> (Inl ErrNotFound, s)
      | Some token \<Rightarrow>
          if rt_UsedAt token \<noteq> None then (Inl ErrNotFound, s)
          else (Inr (), s\<lparr>m_tokens := AList.update ident (token\<lparr>rt_UsedAt := Some at\<rparr>) (m_tokens s)\<rparr>))"

definition mem_token_RevokeFamily ::
    "Draw \<Rightarrow> gostring \<Rightarrow> time \<Rightarrow> MemStore \<Rightarrow> (store_error + unit) \<times> MemStore" where
  "mem_token_RevokeFamily d familyID at s =
     (Inr (), s\<lparr>m_tokens := map (\<lambda>(k, t). (k, revoke_if (\<lambda>t. rt_FamilyID t = familyID) at t)) (m_tokens s)\<rparr>)"

definition mem_token_RevokeAllForUser ::
    "Draw \<Rightarrow> gostring \<Rightarrow> time \<Rightarrow> MemStore \<Rightarrow> (store_error + unit) \<times> MemStore" where
  "mem_token_RevokeAllForUser d userID at s =
     (Inr (), s\<lparr>m_tokens := map (\<lambda>(k, t). (k, revoke_if (\<lambda>t. rt_UserID t = userID) at t)) (m_tokens s)\<rparr>)"

definition mem_token_DeleteExpired ::
    "Draw \<Rightarrow> time \<Rightarrow> MemStore \<Rightarrow> (store_error + int) \<times> MemStore" where
  "mem_token_DeleteExpired d before s =
     (Inr (int (length (filter (\<lambda>(k, t). rt_ExpiresAt t < before) (m_tokens s)))),
      s\<lparr>m_tokens := filter (\<lambda>(k, t). \<not> rt_ExpiresAt t < before) (m_tokens s)\<rparr>)"

section \<open>Uploads\<close>

definition mem_upload_Reserve :: "Draw \<Rightarrow> Upload \<Rightarrow> MemStore \<Rightarrow> (store_error + unit) \<times> MemStore" where
  "mem_upload_Reserve d upload s =
     (let clone = (if ul_CreatedAt upload = 0 then upload\<lparr>ul_CreatedAt := d_now d\<rparr> else upload)
      in (Inr (), s\<lparr>m_uploads := AList.update (ul_Key upload) clone (m_uploads s)\<rparr>))"

definition mem_upload_Claim ::
    "Draw \<Rightarrow> gostring \<Rightarrow> gostring \<Rightarrow> gostring \<Rightarrow> time \<Rightarrow> MemStore \<Rightarrow> (store_error + unit) \<times> MemStore" where
  "mem_upload_Claim d key userID purpose at s =
     (case map_of (m_uploads s) key of
        None \<Rightarrow> (Inl ErrNotFound, s)
      | Some upload \<Rightarrow>
          if ul_UserID upload \<noteq> userID \<or> ul_Purpose upload \<noteq> purpose \<or> ul_AttachedAt upload \<noteq> None
          then (Inl ErrForbidden, s)
          else (Inr (), s\<lparr>m_uploads := AList.update key (upload\<lparr>ul_AttachedAt := Some at\<rparr>) (m_uploads s)\<rparr>))"

text \<open>
  The collecting loop: over the entries in iteration order, stopping once \<open>limit\<close> keys are
  collected; deleting the entry under the cursor of a \<open>range\<close> loop is allowed in Go.
\<close>

fun release_scan :: "time \<Rightarrow> int \<Rightarrow> gostring list \<Rightarrow> (gostring \<times> Upload) list \<Rightarrow> gostring list" where
  "release_scan before limit keys [] = keys"
| "release_scan before limit keys ((k, u) # rest) =
     (if int (length keys) \<ge> limit then keys
      else if abandoned before u then release_scan before limit (keys @ [k]) rest
      else release_scan before limit keys rest)"

definition mem_upload_ReleaseAbandoned ::
    "Draw \<Rightarrow> time \<Rightarrow> int \<Rightarrow> MemStore \<Rightarrow> (store_error + gostring list) \<times> MemStore" where
  "mem_upload_ReleaseAbandoned d before limit s =
     (let keys = release_scan before limit [] (shuffle (d_order d) (m_uploads s))
      in (Inr keys, s\<lparr>m_uploads := filter (\<lambda>(k, u). k \<notin> set keys) (m_uploads s)\<rparr>))"

section \<open>The store as an interface value\<close>

definition mem_Users :: "(nat \<Rightarrow> nat) \<Rightarrow> MemStore UserStore" where
  "mem_Users uni = \<lparr>us_Create = mem_user_Create, us_ByID = mem_user_ByID, us_ByUsername = mem_user_ByUsername,
     us_CredentialsByEmail = mem_user_CredentialsByEmail uni, us_Update = mem_user_Update\<rparr>"

definition mem_Posts :: "(gostring \<Rightarrow> time option) \<Rightarrow> MemStore PostStore" where
  "mem_Posts layout_parse = \<lparr>ps_Create = mem_post_Create, ps_ByID = mem_post_ByID, ps_Delete = mem_post_Delete,
     ps_Feed = mem_post_Feed layout_parse, ps_ByAuthor = mem_post_ByAuthor layout_parse\<rparr>"

definition mem_Tokens :: "MemStore TokenStore" where
  "mem_Tokens = \<lparr>ts_Issue = mem_token_Issue, ts_ByHash = mem_token_ByHash, ts_MarkUsed = mem_token_MarkUsed,
     ts_RevokeFamily = mem_token_RevokeFamily, ts_RevokeAllForUser = mem_token_RevokeAllForUser,
     ts_DeleteExpired = mem_token_DeleteExpired\<rparr>"

definition mem_Uploads :: "MemStore UploadStore" where
  "mem_Uploads = \<lparr>up_Reserve = mem_upload_Reserve, up_Claim = mem_upload_Claim,
     up_ReleaseAbandoned = mem_upload_ReleaseAbandoned\<rparr>"

definition mem_Ping :: "Draw \<Rightarrow> MemStore \<Rightarrow> store_error + unit" where
  "mem_Ping d s = Inr ()"

definition mem_Store :: "(nat \<Rightarrow> nat) \<Rightarrow> (gostring \<Rightarrow> time option) \<Rightarrow> MemStore Store" where
  "mem_Store uni layout_parse = \<lparr>st_Users = mem_Users uni, st_Posts = mem_Posts layout_parse,
     st_Tokens = mem_Tokens, st_Uploads = mem_Uploads, st_Ping = mem_Ping\<rparr>"

lemmas mem_user_defs [store_simps] =
  mem_user_Create_def mem_user_ByID_def mem_user_ByUsername_def mem_user_CredentialsByEmail_def mem_user_Update_def

lemmas mem_post_defs [store_simps] =
  mem_post_Create_def mem_post_ByID_def mem_post_Delete_def mem_post_Feed_def mem_post_ByAuthor_def

lemmas mem_token_defs [store_simps] =
  mem_token_Issue_def mem_token_ByHash_def mem_token_MarkUsed_def mem_token_RevokeFamily_def
  mem_token_RevokeAllForUser_def mem_token_DeleteExpired_def

lemmas mem_upload_defs [store_simps] =
  mem_upload_Reserve_def mem_upload_Claim_def mem_upload_ReleaseAbandoned_def

lemma mem_Store_sel [simp]:
  "st_Users (mem_Store uni lp) = mem_Users uni" "st_Posts (mem_Store uni lp) = mem_Posts lp"
  "st_Tokens (mem_Store uni lp) = mem_Tokens" "st_Uploads (mem_Store uni lp) = mem_Uploads"
  by (simp_all add: mem_Store_def)

section \<open>The invariant\<close>

definition users_ok :: "User gomap \<Rightarrow> bool" where
  "users_ok m \<longleftrightarrow> gomap_ok m
     \<and> (\<forall>(k, u) \<in> set m. u_ID u = k)
     \<and> (\<forall>(k, u) \<in> set m. \<forall>(j, v) \<in> set m. u_Email u = u_Email v \<or> u_Username u = u_Username v \<longrightarrow> k = j)"

definition posts_ok :: "User gomap \<Rightarrow> Post gomap \<Rightarrow> bool" where
  "posts_ok us m \<longleftrightarrow> gomap_ok m \<and> (\<forall>(k, p) \<in> set m. p_ID p = k \<and> map_of us (p_AuthorID p) \<noteq> None)"

definition tokens_ok :: "RefreshToken gomap \<Rightarrow> bool" where
  "tokens_ok m \<longleftrightarrow> gomap_ok m
     \<and> (\<forall>(k, t) \<in> set m. rt_ID t = k)
     \<and> (\<forall>(k, t) \<in> set m. \<forall>(j, u) \<in> set m. rt_TokenHash t = rt_TokenHash u \<longrightarrow> k = j)"

definition uploads_ok :: "Upload gomap \<Rightarrow> bool" where
  "uploads_ok m \<longleftrightarrow> gomap_ok m \<and> (\<forall>(k, u) \<in> set m. ul_Key u = k)"

definition mem_inv :: "MemStore \<Rightarrow> bool" where
  "mem_inv s \<longleftrightarrow> users_ok (m_users s) \<and> posts_ok (m_users s) (m_posts s) \<and> tokens_ok (m_tokens s)
     \<and> uploads_ok (m_uploads s)"

lemma mem_inv_New: "mem_inv mem_New"
  by (simp add: mem_inv_def mem_New_def users_ok_def posts_ok_def tokens_ok_def uploads_ok_def)

text \<open>The invariant read through lookups, which is how the laws speak of it.\<close>

lemma users_ok_lookup:
  "users_ok m \<longleftrightarrow> gomap_ok m \<and> (\<forall>k u. map_of m k = Some u \<longrightarrow> u_ID u = k)
     \<and> (\<forall>k u j v. map_of m k = Some u \<longrightarrow> map_of m j = Some v \<longrightarrow>
          u_Email u = u_Email v \<or> u_Username u = u_Username v \<longrightarrow> k = j)"
  unfolding users_ok_def by (rule conj_cong [OF refl]) (simp only: gomap_all; blast)

lemma posts_ok_lookup:
  "posts_ok us m \<longleftrightarrow> gomap_ok m \<and> (\<forall>k p. map_of m k = Some p \<longrightarrow> p_ID p = k \<and> map_of us (p_AuthorID p) \<noteq> None)"
  unfolding posts_ok_def by (rule conj_cong [OF refl]) (simp only: gomap_all)

lemma tokens_ok_lookup:
  "tokens_ok m \<longleftrightarrow> gomap_ok m \<and> (\<forall>k t. map_of m k = Some t \<longrightarrow> rt_ID t = k)
     \<and> (\<forall>k t j u. map_of m k = Some t \<longrightarrow> map_of m j = Some u \<longrightarrow> rt_TokenHash t = rt_TokenHash u \<longrightarrow> k = j)"
  unfolding tokens_ok_def by (rule conj_cong [OF refl]) (simp only: gomap_all; blast)

lemma uploads_ok_lookup:
  "uploads_ok m \<longleftrightarrow> gomap_ok m \<and> (\<forall>k u. map_of m k = Some u \<longrightarrow> ul_Key u = k)"
  unfolding uploads_ok_def by (rule conj_cong [OF refl]) (simp only: gomap_all)

lemma mem_invD:
  assumes "mem_inv s"
  shows "users_ok (m_users s)" "posts_ok (m_users s) (m_posts s)" "tokens_ok (m_tokens s)" "uploads_ok (m_uploads s)"
  using assms by (simp_all add: mem_inv_def)

lemmas gomap_lookup = update_conv' delete_conv' map_of_map_vals map_of_filter_vals

lemma users_okD: "users_ok m \<Longrightarrow> gomap_ok m"
  by (simp add: users_ok_def)

lemma posts_okD: "posts_ok us m \<Longrightarrow> gomap_ok m"
  by (simp add: posts_ok_def)

lemma tokens_okD: "tokens_ok m \<Longrightarrow> gomap_ok m"
  by (simp add: tokens_ok_def)

lemma uploads_okD: "uploads_ok m \<Longrightarrow> gomap_ok m"
  by (simp add: uploads_ok_def)

section \<open>The laws of the token store\<close>

lemma tokens_ok_update:
  assumes "tokens_ok m" and "rt_ID t = k"
    and "\<And>j u. map_of m j = Some u \<Longrightarrow> rt_TokenHash u = rt_TokenHash t \<Longrightarrow> j = k"
  shows "tokens_ok (AList.update k t m)"
proof -
  have "rt_ID v = j" if "map_of (AList.update k t m) j = Some v" for j v
    using that assms(1,2) by (cases "j = k") (auto simp: update_conv' tokens_ok_lookup)
  moreover have "i = j"
    if "map_of (AList.update k t m) i = Some v" "map_of (AList.update k t m) j = Some w"
      "rt_TokenHash v = rt_TokenHash w" for i v j w
  proof (cases "i = k \<or> j = k")
    case True
    then show ?thesis
      using that assms(3) by (auto simp: update_conv' split: if_splits)
  next
    case False
    then have "map_of m i = Some v" "map_of m j = Some w"
      using that(1,2) by (auto simp: update_conv')
    then show ?thesis
      using that(3) assms(1) unfolding tokens_ok_lookup by blast
  qed
  moreover have "gomap_ok (AList.update k t m)"
    using assms(1) by (simp add: tokens_ok_def)
  ultimately show ?thesis
    unfolding tokens_ok_lookup by blast
qed

lemma tokens_ok_revoke: "tokens_ok (map (\<lambda>(k, t). (k, revoke_if P at t)) m) \<longleftrightarrow> tokens_ok m"
  unfolding tokens_ok_def gomap_ok_map_vals by (simp add: split_beta)

lemma tokens_ok_filter:
  assumes "tokens_ok m"
  shows "tokens_ok (filter P m)"
  using assms unfolding tokens_ok_def by auto

lemma mem_tokens_law_ByHash:
  assumes "mem_inv s"
  shows "map_of (m_tokens s) i = Some t \<Longrightarrow> mem_token_ByHash d (rt_TokenHash t) s = Inr t"
    and "(\<And>i t. map_of (m_tokens s) i = Some t \<Longrightarrow> rt_TokenHash t \<noteq> h) \<Longrightarrow> mem_token_ByHash d h s = Inl ErrNotFound"
proof -
  have ok: "tokens_ok (m_tokens s)"
    using assms by (rule mem_invD)
  show "map_of (m_tokens s) i = Some t \<Longrightarrow> mem_token_ByHash d (rt_TokenHash t) s = Inr t"
    using ok unfolding mem_token_ByHash_def
    by (subst find_range_Some [of _ i t]) (auto simp: tokens_ok_lookup)
  show "(\<And>i t. map_of (m_tokens s) i = Some t \<Longrightarrow> rt_TokenHash t \<noteq> h) \<Longrightarrow> mem_token_ByHash d h s = Inl ErrNotFound"
    using tokens_okD [OF ok] unfolding mem_token_ByHash_def by (subst find_range_None) auto
qed

lemma expired_count:
  assumes "gomap_ok m"
  shows "length (filter (\<lambda>(k, v). P v) m) = card {i. \<exists>v. map_of m i = Some v \<and> P v}"
proof -
  have "distinct (map fst (filter (\<lambda>(k, v). P v) m))"
    using assms by (simp add: gomap_ok_def distinct_map_filter)
  then have "length (filter (\<lambda>(k, v). P v) m) = card (set (map fst (filter (\<lambda>(k, v). P v) m)))"
    by (metis distinct_card length_map)
  also have "set (map fst (filter (\<lambda>(k, v). P v) m)) = {i. \<exists>v. map_of m i = Some v \<and> P v}"
    using assms by (force simp: gomap_mem_iff)
  finally show ?thesis .
qed

text \<open>The laws of the interface, one operation at a time.\<close>

lemma mem_token_row:
  assumes "mem_inv s" and "map_of (m_tokens s) i = Some t"
  shows "rt_ID t = i"
  using assms by (simp add: mem_inv_def tokens_ok_lookup)

lemma mem_token_hash_inj:
  assumes "mem_inv s" "map_of (m_tokens s) i = Some t" "map_of (m_tokens s) j = Some u" "rt_TokenHash t = rt_TokenHash u"
  shows "i = j"
  using assms unfolding mem_inv_def tokens_ok_lookup by blast

lemma mem_token_ByHash_hit:
  assumes "mem_inv s" and "map_of (m_tokens s) i = Some t"
  shows "mem_token_ByHash d (rt_TokenHash t) s = Inr t"
  using assms by (rule mem_tokens_law_ByHash)

lemma mem_token_ByHash_miss:
  assumes "mem_inv s" and "\<And>i t. map_of (m_tokens s) i = Some t \<Longrightarrow> rt_TokenHash t \<noteq> h"
  shows "mem_token_ByHash d h s = Inl ErrNotFound"
  using assms by (rule mem_tokens_law_ByHash)

lemma mem_token_MarkUsed_hit:
  assumes s: "mem_inv s" and t: "map_of (m_tokens s) i = Some t" "rt_UsedAt t = None"
  shows "\<exists>s'. mem_token_MarkUsed d i at s = (Inr (), s') \<and> mem_inv s' \<and> s'\<lparr>m_tokens := []\<rparr> = s\<lparr>m_tokens := []\<rparr>
      \<and> map_of (m_tokens s') = (map_of (m_tokens s))(i := Some (t\<lparr>rt_UsedAt := Some at\<rparr>))"
proof -
  have "tokens_ok (AList.update i (t\<lparr>rt_UsedAt := Some at\<rparr>) (m_tokens s))"
    using s t by (intro tokens_ok_update) (auto simp: mem_inv_def tokens_ok_lookup)
  then show ?thesis
    using s t by (simp add: mem_token_MarkUsed_def mem_inv_def update_conv')
qed

lemma mem_token_MarkUsed_miss:
  assumes "mem_inv s" and "\<And>t. map_of (m_tokens s) i = Some t \<Longrightarrow> rt_UsedAt t \<noteq> None"
  shows "mem_token_MarkUsed d i at s = (Inl ErrNotFound, s)"
  using assms by (auto simp: mem_token_MarkUsed_def split: option.split)

lemma mem_token_RevokeFamily_law:
  assumes "mem_inv s"
  shows "\<exists>s'. mem_token_RevokeFamily d f at s = (Inr (), s') \<and> mem_inv s' \<and> s'\<lparr>m_tokens := []\<rparr> = s\<lparr>m_tokens := []\<rparr>
      \<and> map_of (m_tokens s') = (\<lambda>i. map_option (revoke_if (\<lambda>t. rt_FamilyID t = f) at) (map_of (m_tokens s) i))"
  using assms by (simp add: mem_token_RevokeFamily_def mem_inv_def tokens_ok_revoke map_of_map_vals fun_eq_iff)

lemma mem_token_RevokeAll_law:
  assumes "mem_inv s"
  shows "\<exists>s'. mem_token_RevokeAllForUser d f at s = (Inr (), s') \<and> mem_inv s' \<and> s'\<lparr>m_tokens := []\<rparr> = s\<lparr>m_tokens := []\<rparr>
      \<and> map_of (m_tokens s') = (\<lambda>i. map_option (revoke_if (\<lambda>t. rt_UserID t = f) at) (map_of (m_tokens s) i))"
  using assms by (simp add: mem_token_RevokeAllForUser_def mem_inv_def tokens_ok_revoke map_of_map_vals fun_eq_iff)

lemma mem_token_Issue_law:
  fixes t :: "RefreshToken"
  assumes s: "mem_inv s" and new: "\<And>i u. map_of (m_tokens s) i = Some u \<Longrightarrow> rt_TokenHash u \<noteq> rt_TokenHash t"
  shows "\<exists>s' c. mem_token_Issue d t s = (Inr (), s') \<and> mem_inv s' \<and> s'\<lparr>m_tokens := []\<rparr> = s\<lparr>m_tokens := []\<rparr>
      \<and> map_of (m_tokens s') = (map_of (m_tokens s))(rt_ID t := Some (t\<lparr>rt_ExpiresAt := rt_ExpiresAt t, rt_CreatedAt := c\<rparr>))"
proof -
  have "tokens_ok (AList.update (rt_ID t) t (m_tokens s))"
    using s new by (intro tokens_ok_update) (auto simp: mem_inv_def)
  then show ?thesis
    using s by (intro exI [of _ "rt_CreatedAt t"] exI) (auto simp: mem_token_Issue_def mem_inv_def update_conv')
qed

lemma mem_token_DeleteExpired_law:
  assumes s: "mem_inv s"
  shows "\<exists>s' n. mem_token_DeleteExpired d before s = (Inr n, s') \<and> mem_inv s' \<and> s'\<lparr>m_tokens := []\<rparr> = s\<lparr>m_tokens := []\<rparr>
      \<and> map_of (m_tokens s') = (\<lambda>i. case map_of (m_tokens s) i of None \<Rightarrow> None
            | Some t \<Rightarrow> if rt_ExpiresAt t < before then None else Some t)
      \<and> n = int (card {i. \<exists>t. map_of (m_tokens s) i = Some t \<and> rt_ExpiresAt t < before})"
proof -
  from assms have ok: "tokens_ok (m_tokens s)"
    by (rule mem_invD)
  show ?thesis
    using s expired_count [OF tokens_okD [OF ok], of "\<lambda>t. rt_ExpiresAt t < before"]
    by (auto simp: mem_token_DeleteExpired_def mem_inv_def tokens_ok_filter fun_eq_iff
        map_of_filter_vals [OF tokens_okD [OF ok]] split: option.split)
qed

lemmas mem_token_laws =
  mem_token_row mem_token_hash_inj mem_token_ByHash_hit mem_token_ByHash_miss
  mem_token_MarkUsed_hit mem_token_MarkUsed_miss mem_token_RevokeFamily_law mem_token_RevokeAll_law
  mem_token_Issue_law mem_token_DeleteExpired_law

interpretation mem_tok: token_store mem_Tokens "\<lambda>s. map_of (m_tokens s)" mem_inv "\<lambda>_. True"
  "\<lambda>s. s\<lparr>m_tokens := []\<rparr>" "\<lambda>_ _. True" "\<lambda>t. t"
  by (unfold_locales, unfold mem_Tokens_def TokenStore.simps)
    (rule TrueI | rule mem_token_laws; assumption | blast intro: mem_token_laws)+

section \<open>The laws of the upload store\<close>

lemma release_scan_take:
  "release_scan before limit keys m =
     keys @ take (nat (limit - int (length keys))) (map fst (filter (\<lambda>(k, u). abandoned before u) m))"
proof (induction before limit keys m rule: release_scan.induct)
  case (2 before limit keys k u rest)
  have "nat (1 + int (length keys)) = Suc (length keys)"
    by simp
  then show ?case
    using 2 by (auto simp: take_Cons' nat_diff_distrib')
qed simp

lemma release_scan_keys:
  assumes m: "gomap_ok m" and keys: "keys = release_scan before limit [] (shuffle p m)" and limit: "0 \<le> limit"
  shows "distinct keys" and "set keys \<subseteq> {k. \<exists>u. map_of m k = Some u \<and> abandoned before u}"
    and "int (length keys) = min limit (int (card {k. \<exists>u. map_of m k = Some u \<and> abandoned before u}))"
proof -
  let ?all = "map fst (filter (\<lambda>(k, u). abandoned before u) (shuffle p m))"
  have keys': "keys = take (nat limit) ?all"
    by (simp add: keys release_scan_take)
  have "distinct (map fst (shuffle p m))"
    using m by (simp add: gomap_ok_def)
  then have dist: "distinct ?all"
    by (rule distinct_map_filter)
  then show "distinct keys"
    by (simp add: keys')
  have sets: "set ?all = {k. \<exists>u. map_of m k = Some u \<and> abandoned before u}"
    using m by (force simp: gomap_mem_iff)
  then show "set keys \<subseteq> {k. \<exists>u. map_of m k = Some u \<and> abandoned before u}"
    unfolding keys' by (metis set_take_subset)
  have "length ?all = card {k. \<exists>u. map_of m k = Some u \<and> abandoned before u}"
    using distinct_card [OF dist] sets by simp
  then show "int (length keys) = min limit (int (card {k. \<exists>u. map_of m k = Some u \<and> abandoned before u}))"
    using limit unfolding keys' by simp
qed

lemma uploads_ok_update: "uploads_ok m \<Longrightarrow> ul_Key u = k \<Longrightarrow> uploads_ok (AList.update k u m)"
  by (auto simp: uploads_ok_lookup update_conv')

lemma uploads_ok_filter: "uploads_ok m \<Longrightarrow> uploads_ok (filter P m)"
  by (auto simp: uploads_ok_def)

interpretation mem_upl: upload_store mem_Uploads "\<lambda>s. map_of (m_uploads s)" mem_inv "\<lambda>_. True"
  "\<lambda>s. s\<lparr>m_uploads := []\<rparr>" "\<lambda>_ _. True" "\<lambda>t. t"
proof (unfold_locales, unfold mem_Uploads_def UploadStore.simps)
  fix s :: MemStore and d and u :: Upload
  assume "mem_inv s" and "ul_CreatedAt u = 0"
  then show "\<exists>s'. mem_upload_Reserve d u s = (Inr (), s') \<and> mem_inv s' \<and> s'\<lparr>m_uploads := []\<rparr> = s\<lparr>m_uploads := []\<rparr>
      \<and> map_of (m_uploads s') = (map_of (m_uploads s))(ul_Key u := Some (u\<lparr>ul_CreatedAt := d_now d\<rparr>))"
    by (simp add: mem_upload_Reserve_def mem_inv_def uploads_ok_update update_conv')
next
  fix s :: MemStore and d key u userID purpose at
  assume s: "mem_inv s" and u: "map_of (m_uploads s) key = Some u" "ul_UserID u = userID" "ul_Purpose u = purpose"
    "ul_AttachedAt u = None"
  have "uploads_ok (AList.update key (u\<lparr>ul_AttachedAt := Some at\<rparr>) (m_uploads s))"
    using s u by (intro uploads_ok_update) (auto simp: mem_inv_def uploads_ok_lookup)
  then show "\<exists>s'. mem_upload_Claim d key userID purpose at s = (Inr (), s') \<and> mem_inv s'
      \<and> s'\<lparr>m_uploads := []\<rparr> = s\<lparr>m_uploads := []\<rparr>
      \<and> map_of (m_uploads s') = (map_of (m_uploads s))(key := Some (u\<lparr>ul_AttachedAt := Some at\<rparr>))"
    using s u by (simp add: mem_upload_Claim_def mem_inv_def update_conv')
next
  fix s :: MemStore and d :: Draw and before and limit :: int
  define keys where "keys = release_scan before limit [] (shuffle (d_order d) (m_uploads s))"
  define s' where "s' = s\<lparr>m_uploads := filter (\<lambda>(k, u). k \<notin> set keys) (m_uploads s)\<rparr>"
  assume s: "mem_inv s" and limit: "0 \<le> limit"
  then have m: "gomap_ok (m_uploads s)"
    by (auto simp: mem_inv_def uploads_ok_def)
  have "mem_upload_ReleaseAbandoned d before limit s = (Inr keys, s')"
    by (simp add: mem_upload_ReleaseAbandoned_def Let_def keys_def s'_def)
  moreover have "mem_inv s'" and "s'\<lparr>m_uploads := []\<rparr> = s\<lparr>m_uploads := []\<rparr>"
    using s by (simp_all add: mem_inv_def uploads_ok_filter s'_def)
  moreover have "map_of (m_uploads s') = (\<lambda>k. if k \<in> set keys then None else map_of (m_uploads s) k)"
    using m by (auto simp: s'_def fun_eq_iff map_of_filter_vals split: option.split)
  ultimately show "\<exists>s' keys. mem_upload_ReleaseAbandoned d before limit s = (Inr keys, s') \<and> mem_inv s'
      \<and> s'\<lparr>m_uploads := []\<rparr> = s\<lparr>m_uploads := []\<rparr>
      \<and> distinct keys \<and> set keys \<subseteq> {k. \<exists>u. map_of (m_uploads s) k = Some u \<and> abandoned before u}
      \<and> int (length keys) = min limit (int (card {k. \<exists>u. map_of (m_uploads s) k = Some u \<and> abandoned before u}))
      \<and> map_of (m_uploads s') = (\<lambda>k. if k \<in> set keys then None else map_of (m_uploads s) k)"
    using release_scan_keys [OF m keys_def limit] by blast
qed (simp_all add: mem_upload_Claim_def)

section \<open>The laws of the user store\<close>

lemma conflict_scan_None:
  "conflict_scan inp us = None \<longleftrightarrow> (\<forall>u \<in> set us. u_Email u \<noteq> nu_Email inp \<and> u_Username u \<noteq> nu_Username inp)"
  by (induction us) auto

lemma conflict_scan_Some:
  "conflict_scan inp us = Some e \<Longrightarrow>
     (\<exists>u \<in> set us. u_Email u = nu_Email inp \<and> e = ConflictError ''email'' ''already in use'') \<or>
     (\<exists>u \<in> set us. u_Username u = nu_Username inp \<and> e = ConflictError ''username'' ''already taken'')"
  by (induction us) (auto split: if_splits)

lemma users_ID: "users_ok m \<Longrightarrow> map_of m i = Some u \<Longrightarrow> u_ID u = i"
  by (simp add: users_ok_lookup)

lemma users_inj:
  assumes "users_ok m" and "map_of m i = Some u" and "map_of m j = Some v"
    and "u_Email u = u_Email v \<or> u_Username u = u_Username v"
  shows "i = j"
proof -
  have "\<forall>k u j v. map_of m k = Some u \<longrightarrow> map_of m j = Some v \<longrightarrow>
          u_Email u = u_Email v \<or> u_Username u = u_Username v \<longrightarrow> k = j"
    using assms(1) unfolding users_ok_lookup by (elim conjE)
  from this [rule_format, OF assms(2-4)] show ?thesis .
qed

lemma users_ok_update:
  assumes "users_ok m" and "u_ID u = k"
    and "\<And>j v. map_of m j = Some v \<Longrightarrow> u_Email v = u_Email u \<or> u_Username v = u_Username u \<Longrightarrow> j = k"
  shows "users_ok (AList.update k u m)"
proof -
  have "u_ID v = j" if "map_of (AList.update k u m) j = Some v" for j v
    using that assms(1,2) users_ID by (cases "j = k") (auto simp: update_conv')
  moreover have "i = j"
    if "map_of (AList.update k u m) i = Some v" "map_of (AList.update k u m) j = Some w"
      "u_Email v = u_Email w \<or> u_Username v = u_Username w" for i v j w
  proof (cases "i = k \<or> j = k")
    case True
    then show ?thesis
      using that assms(3) by (auto simp: update_conv' split: if_splits)
  next
    case False
    then have "map_of m i = Some v" "map_of m j = Some w"
      using that(1,2) by (auto simp: update_conv')
    then show ?thesis
      using that(3) by (rule users_inj [OF assms(1)])
  qed
  moreover have "gomap_ok (AList.update k u m)"
    using users_okD [OF assms(1)] by simp
  ultimately show ?thesis
    unfolding users_ok_lookup by blast
qed

lemma posts_ok_users_grow: "posts_ok us m \<Longrightarrow> posts_ok (AList.update k u us) m"
  by (auto simp: posts_ok_lookup update_conv')


lemma mem_users_find:
  assumes "mem_inv s"
  shows "map_of (m_users s) i = Some u \<Longrightarrow> List.find (\<lambda>v. u_Username v = u_Username u) (range_vals d (m_users s)) = Some u"
    and "map_of (m_users s) i = Some u \<Longrightarrow> List.find (\<lambda>v. u_Email v = u_Email u) (range_vals d (m_users s)) = Some u"
    and "(\<And>i u. map_of (m_users s) i = Some u \<Longrightarrow> \<not> P u) \<Longrightarrow> List.find P (range_vals d (m_users s)) = None"
proof -
  have ok: "users_ok (m_users s)" and map_ok: "gomap_ok (m_users s)"
    using mem_invD(1) [OF assms] users_okD by blast+
  show "map_of (m_users s) i = Some u \<Longrightarrow> List.find (\<lambda>v. u_Username v = u_Username u) (range_vals d (m_users s)) = Some u"
    by (rule find_range_Some [OF map_ok]) (auto intro: users_inj [OF ok])
  show "map_of (m_users s) i = Some u \<Longrightarrow> List.find (\<lambda>v. u_Email v = u_Email u) (range_vals d (m_users s)) = Some u"
    by (rule find_range_Some [OF map_ok]) (auto intro: users_inj [OF ok])
  show "(\<And>i u. map_of (m_users s) i = Some u \<Longrightarrow> \<not> P u) \<Longrightarrow> List.find P (range_vals d (m_users s)) = None"
    by (rule find_range_None [OF map_ok])
qed

lemma mem_inv_set_user:
  assumes "mem_inv s" and "u_ID u = i"
    and "\<And>j v. map_of (m_users s) j = Some v \<Longrightarrow> u_Email v = u_Email u \<or> u_Username v = u_Username u \<Longrightarrow> j = i"
  shows "mem_inv (s\<lparr>m_users := AList.update i u (m_users s), m_passwords := pw\<rparr>)"
  using assms users_ok_update [OF mem_invD(1) [OF assms(1)] assms(2,3)]
  by (simp add: mem_inv_def posts_ok_users_grow)

lemma mem_range_users:
  "mem_inv s \<Longrightarrow> u \<in> set (range_vals d (m_users s)) \<longleftrightarrow> (\<exists>i. map_of (m_users s) i = Some u)"
  using users_okD [OF mem_invD(1)] by (simp add: gomap_vals_iff)

text \<open>The laws of the interface, one operation at a time.\<close>

lemma mem_user_row:
  assumes "mem_inv s" and "map_of (m_users s) i = Some u"
  shows "u_ID u = i"
  using assms by (rule users_ID [OF mem_invD(1)])

lemma mem_user_email_inj:
  assumes "mem_inv s" "map_of (m_users s) i = Some u" "map_of (m_users s) j = Some v" "u_Email u = u_Email v"
  shows "i = j"
  using assms by (intro users_inj [OF mem_invD(1)]) auto

lemma mem_user_username_inj:
  assumes "mem_inv s" "map_of (m_users s) i = Some u" "map_of (m_users s) j = Some v" "u_Username u = u_Username v"
  shows "i = j"
  using assms by (intro users_inj [OF mem_invD(1)]) auto

lemma mem_user_ByUsername_hit:
  assumes "mem_inv s" and "map_of (m_users s) i = Some u"
  shows "mem_user_ByUsername d (u_Username u) s = Inr u"
  using assms by (simp add: mem_user_ByUsername_def mem_users_find(1))

lemma mem_user_ByUsername_miss:
  assumes "mem_inv s" and "\<And>i u. map_of (m_users s) i = Some u \<Longrightarrow> u_Username u \<noteq> name"
  shows "mem_user_ByUsername d name s = Inl ErrNotFound"
  using assms unfolding mem_user_ByUsername_def by (subst mem_users_find(3)) auto

lemma mem_user_Credentials_hit:
  assumes "mem_inv s" and "to_lower uni (u_Email u) = u_Email u" and "map_of (m_users s) i = Some u"
  shows "mem_user_CredentialsByEmail uni d (u_Email u) s = Inr \<lparr>cr_UserID = i, cr_PasswordHash = go_index (m_passwords s) i []\<rparr>"
  using assms users_ID [OF mem_invD(1)] by (simp add: mem_user_CredentialsByEmail_def mem_users_find(2))

lemma mem_user_Credentials_miss:
  assumes "mem_inv s" and "to_lower uni e = e" and "\<And>i u. map_of (m_users s) i = Some u \<Longrightarrow> u_Email u \<noteq> e"
  shows "mem_user_CredentialsByEmail uni d e s = Inl ErrNotFound"
  using assms unfolding mem_user_CredentialsByEmail_def by (subst mem_users_find(3)) auto

lemma mem_user_Create_ok:
  fixes s :: "MemStore" and d :: "Draw" and inp :: "NewUser"
  assumes s: "mem_inv s"
    and fresh: "\<And>i u. map_of (m_users s) i = Some u \<Longrightarrow> u_Email u \<noteq> nu_Email inp \<and> u_Username u \<noteq> nu_Username inp"
  shows "\<exists>s'. mem_user_Create d inp s = (Inr (new_user_row d inp), s') \<and> mem_inv s'
      \<and> s'\<lparr>m_users := [], m_passwords := []\<rparr> = s\<lparr>m_users := [], m_passwords := []\<rparr>
      \<and> map_of (m_users s') = (map_of (m_users s))(NewID d := Some (new_user_row d inp))
      \<and> (\<lambda>i. go_index (m_passwords s') i []) = (\<lambda>i. go_index (m_passwords s) i [])(NewID d := nu_PasswordHash inp)"
proof -
  have "conflict_scan inp (range_vals d (m_users s)) = None"
    unfolding conflict_scan_None using fresh mem_range_users [OF s] by blast
  moreover have "mem_inv (s\<lparr>m_users := AList.update (NewID d) (new_user_row d inp) (m_users s),
      m_passwords := AList.update (NewID d) (nu_PasswordHash inp) (m_passwords s)\<rparr>)"
    using fresh by (intro mem_inv_set_user [OF s]) (auto simp: new_user_row_def)
  ultimately show ?thesis
    by (simp add: mem_user_Create_def Let_def new_user_row_def update_conv' go_index_upd)
qed

lemma mem_user_Create_conflict:
  fixes s :: "MemStore" and d :: "Draw" and inp :: "NewUser"
  assumes s: "mem_inv s" and u: "map_of (m_users s) i = Some u"
    and clash: "u_Email u = nu_Email inp \<or> u_Username u = nu_Username inp"
  shows "\<exists>field reason. mem_user_Create d inp s = (Inl (ConflictError field reason), s)
      \<and> (field = ''email'' \<and> (\<exists>i u. map_of (m_users s) i = Some u \<and> u_Email u = nu_Email inp)
        \<or> field = ''username'' \<and> (\<exists>i u. map_of (m_users s) i = Some u \<and> u_Username u = nu_Username inp))"
proof -
  have "conflict_scan inp (range_vals d (m_users s)) \<noteq> None"
    unfolding conflict_scan_None using u clash mem_range_users [OF s] by blast
  then obtain e where e: "conflict_scan inp (range_vals d (m_users s)) = Some e"
    by blast
  have out: "mem_user_Create d inp s = (Inl e, s)"
    by (simp add: mem_user_Create_def e)
  consider (email) j v where "map_of (m_users s) j = Some v" "u_Email v = nu_Email inp"
      "e = ConflictError ''email'' ''already in use''"
    | (username) j v where "map_of (m_users s) j = Some v" "u_Username v = nu_Username inp"
      "e = ConflictError ''username'' ''already taken''"
    using conflict_scan_Some [OF e] mem_range_users [OF s] by blast
  then show ?thesis
    by cases (auto simp: out)
qed

lemma mem_user_Update_ok:
  fixes s :: "MemStore" and d :: "Draw" and upd :: "UserUpdate"
  assumes s: "mem_inv s" and u: "map_of (m_users s) i = Some u"
  shows "\<exists>s' c. mem_user_Update d i upd s = (Inr ((apply_update upd u)\<lparr>u_UpdatedAt := c\<rparr>), s') \<and> mem_inv s'
      \<and> s'\<lparr>m_users := [], m_passwords := []\<rparr> = s\<lparr>m_users := [], m_passwords := []\<rparr>
      \<and> map_of (m_users s') = (map_of (m_users s))(i := Some ((apply_update upd u)\<lparr>u_UpdatedAt := c\<rparr>))
      \<and> (\<lambda>i. go_index (m_passwords s') i []) = (\<lambda>i. go_index (m_passwords s) i [])"
proof -
  let ?u = "(apply_update upd u)\<lparr>u_UpdatedAt := d_now d\<rparr>"
  have "mem_inv (s\<lparr>m_users := AList.update i ?u (m_users s), m_passwords := m_passwords s\<rparr>)"
  proof (rule mem_inv_set_user [OF s])
    show "u_ID ?u = i"
      using users_ID [OF mem_invD(1) [OF s] u] by simp
    fix j v
    assume "map_of (m_users s) j = Some v" and "u_Email v = u_Email ?u \<or> u_Username v = u_Username ?u"
    then show "j = i"
      by (intro users_inj [OF mem_invD(1) [OF s] _ u]) simp_all
  qed
  then show ?thesis
    using u by (intro exI [of _ "s\<lparr>m_users := AList.update i ?u (m_users s)\<rparr>"] exI [of _ "d_now d"])
      (simp add: mem_user_Update_def Let_def update_conv')
qed

lemmas mem_user_laws =
  mem_user_row mem_user_email_inj mem_user_username_inj mem_user_ByUsername_hit
  mem_user_ByUsername_miss mem_user_Credentials_hit mem_user_Credentials_miss mem_user_Create_ok
  mem_user_Create_conflict mem_user_Update_ok

interpretation mem_usr: user_store "mem_Users uni" "\<lambda>s. map_of (m_users s)" "\<lambda>s i. go_index (m_passwords s) i []"
  mem_inv "\<lambda>_. True" "\<lambda>s. s\<lparr>m_users := [], m_passwords := []\<rparr>" "\<lambda>_. True" "\<lambda>_. True" "\<lambda>e. to_lower uni e = e"
  for uni
  by (unfold_locales, unfold mem_Users_def UserStore.simps)
    (rule mem_user_laws; assumption | blast intro: mem_user_laws | simp add: mem_user_ByID_def mem_user_Update_def)+

section \<open>The laws of the post store\<close>

lemma mem_page_page_of:
  assumes s: "mem_inv s" and L: "feed_list L"
    and set_L: "set L = {hydrate p (map_of (m_users s) (p_AuthorID p)) | i p. map_of (m_posts s) i = Some p \<and> keep p}"
  shows "mem_page layout_parse d req keep s = page_of (\<lambda>t. t) layout_parse req L"
proof -
  define matched where
    "matched = map (\<lambda>p. hydrate p (map_of (m_users s) (p_AuthorID p))) (filter keep (range_vals d (m_posts s)))"
  have ok: "posts_ok (m_users s) (m_posts s)" and map_ok: "gomap_ok (m_posts s)"
    using mem_invD(2) [OF s] posts_okD by blast+
  have "distinct (map p_ID (range_vals d (m_posts s)))"
  proof -
    have "map p_ID (range_vals d (m_posts s)) = map fst (shuffle (d_order d) (m_posts s))"
      using ok by (auto simp: range_vals_def posts_ok_def)
    moreover have "distinct (map fst (shuffle (d_order d) (m_posts s)))"
      using map_ok by (simp add: gomap_ok_def)
    ultimately show ?thesis
      by (simp only:)
  qed
  then have "distinct (map p_ID matched)"
    by (simp add: matched_def comp_def distinct_map_filter)
  then have dist: "distinct matched" and inj: "inj_on p_ID (set matched)"
    by (simp_all add: distinct_map)
  have vals: "p \<in> set (range_vals d (m_posts s)) \<longleftrightarrow> (\<exists>i. map_of (m_posts s) i = Some p)" for p
    using map_ok by (simp add: gomap_vals_iff)
  have set_m: "set matched = set L"
    unfolding set_L matched_def set_map set_filter vals by blast
  have "feed_list (sort_slice feed_less matched)"
    unfolding feed_list_def using dist inj by (intro sorted_sort_slice feed_less_strict_total)
  then have "sort_slice feed_less matched = L"
    using set_m L by (intro feed_list_unique) simp_all
  then show ?thesis
    unfolding mem_page_def page_of_def seek_def Let_def matched_def by (auto split: sum.split option.split)
qed

interpretation mem_pst: post_store "mem_Posts layout_parse" "\<lambda>s. map_of (m_posts s)" "\<lambda>f. map_of (m_users f)"
  mem_inv "\<lambda>_. True" "\<lambda>s. s\<lparr>m_posts := []\<rparr>" "\<lambda>_. True" "\<lambda>t. t" layout_parse
  for layout_parse
proof (unfold_locales, unfold mem_Posts_def PostStore.simps)
  fix s i p
  assume "mem_inv s" and "map_of (m_posts s) i = Some p"
  then show "p_ID p = i" and "map_of (m_users (s\<lparr>m_posts := []\<rparr>)) (p_AuthorID p) \<noteq> None"
    using mem_invD(2) [of s] by (simp_all add: posts_ok_lookup)
next
  show "p_CreatedAt p = p_CreatedAt p" for p :: Post ..
next
  fix s and d :: Draw and inp :: NewPost and a
  assume s: "mem_inv s" and a: "map_of (m_users (s\<lparr>m_posts := []\<rparr>)) (np_AuthorID inp) = Some a"
  have "posts_ok (m_users s) (AList.update (NewID d) (new_post_row d inp) (m_posts s))"
    using mem_invD(2) [OF s] a by (auto simp: posts_ok_lookup update_conv' new_post_row_def)
  then show "\<exists>s'. mem_post_Create d inp s = (Inr (hydrate (new_post_row d inp) (Some a)), s') \<and> mem_inv s'
      \<and> s'\<lparr>m_posts := []\<rparr> = s\<lparr>m_posts := []\<rparr>
      \<and> map_of (m_posts s') = (map_of (m_posts s))(NewID d := Some (new_post_row d inp))"
    using s a by (simp add: mem_post_Create_def Let_def mem_inv_def update_conv' new_post_row_def)
next
  fix s :: MemStore and d i p requester
  assume s: "mem_inv s" and p: "map_of (m_posts s) i = Some p" "p_AuthorID p = requester"
  have "posts_ok (m_users s) (AList.delete i (m_posts s))"
    using mem_invD(2) [OF s] by (auto simp: posts_ok_lookup delete_conv' restrict_map_def split: if_splits)
  then show "\<exists>s'. mem_post_Delete d i requester s = (Inr (), s') \<and> mem_inv s'
      \<and> s'\<lparr>m_posts := []\<rparr> = s\<lparr>m_posts := []\<rparr> \<and> map_of (m_posts s') = (map_of (m_posts s))(i := None)"
    using s p by (simp add: mem_post_Delete_def mem_inv_def delete_conv')
next
  fix s d req L
  assume "mem_inv s" and "feed_list L"
    and "set L = {hydrate p (map_of (m_users (s\<lparr>m_posts := []\<rparr>)) (p_AuthorID p)) |i p. map_of (m_posts s) i = Some p}"
  then show "mem_post_Feed layout_parse d req s = page_of (\<lambda>t. t) layout_parse req L"
    unfolding mem_post_Feed_def by (intro mem_page_page_of) auto
next
  fix s d req L authorID
  assume "mem_inv s" and "feed_list L"
    and "set L = {hydrate p (map_of (m_users (s\<lparr>m_posts := []\<rparr>)) (p_AuthorID p)) |i p.
      map_of (m_posts s) i = Some p \<and> p_AuthorID p = authorID}"
  then show "mem_post_ByAuthor layout_parse d authorID req s = page_of (\<lambda>t. t) layout_parse req L"
    unfolding mem_post_ByAuthor_def by (intro mem_page_page_of) auto
qed (auto simp: mem_post_ByID_def mem_post_Delete_def finite_dom_map_of split: option.split)

end
