(* ===== verification/Tables.thy ===== *)
theory Tables
  imports Prelude
begin

text \<open>
  A database table with a primary key, as the list of its rows: lookup by key, and what
  insertion, update and deletion do to it.
\<close>

definition keyed :: "('r \<Rightarrow> gostring) \<Rightarrow> 'r list \<Rightarrow> gostring \<Rightarrow> 'r option" where
  "keyed k rows i = List.find (\<lambda>r. k r = i) rows"

lemma keyed_Some_iff:
  "distinct (map k rows) \<Longrightarrow> keyed k rows i = Some r \<longleftrightarrow> r \<in> set rows \<and> k r = i"
proof (induction rows)
  case (Cons x rows)
  then show ?case
    unfolding keyed_def by (auto simp: image_iff)
qed (simp add: keyed_def)

lemma keyed_None_iff: "keyed k rows i = None \<longleftrightarrow> (\<forall>r \<in> set rows. k r \<noteq> i)"
  by (simp add: keyed_def find_None_all)

lemma keyed_None_notin: "keyed k rows i = None \<longleftrightarrow> i \<notin> k ` set rows"
  by (auto simp: keyed_None_iff image_iff)

lemma keyed_key: "keyed k rows i = Some r \<Longrightarrow> k r = i"
  unfolding keyed_def by (drule find_Some_mem) simp

lemma keyed_mem: "keyed k rows i = Some r \<Longrightarrow> r \<in> set rows"
  unfolding keyed_def by (drule find_Some_mem) simp

lemma keyed_snoc: "keyed k (rows @ [r]) i = (case keyed k rows i of None \<Rightarrow> if k r = i then Some r else None | Some x \<Rightarrow> Some x)"
  by (induction rows) (auto simp: keyed_def)

lemma keyed_snoc_new: "keyed k rows (k r) = None \<Longrightarrow> keyed k (rows @ [r]) = (keyed k rows)(k r := Some r)"
  by (auto simp: keyed_snoc fun_eq_iff split: option.split)

lemma keyed_map: "(\<And>r. k (f r) = k r) \<Longrightarrow> keyed k (map f rows) i = map_option f (keyed k rows i)"
  by (induction rows) (auto simp: keyed_def)

lemma find_map: "List.find P (map f xs) = map_option f (List.find (\<lambda>x. P (f x)) xs)"
  by (induction xs) auto

lemma keyed_filter:
  "distinct (map k rows) \<Longrightarrow>
   keyed k (filter P rows) i = (case keyed k rows i of None \<Rightarrow> None | Some r \<Rightarrow> if P r then Some r else None)"
proof (induction rows)
  case (Cons x rows)
  then have "keyed k rows i = None" if "k x = i"
    using that by (simp add: keyed_None_notin)
  then show ?case
    using Cons by (auto simp: keyed_def split: option.splits)
qed (simp add: keyed_def)

lemma keyed_dom: "dom (keyed k rows) = k ` set rows"
  by (force simp: dom_def keyed_def find_None_all dest: find_Some_mem split: option.splits)

lemma keyed_finite: "finite (dom (keyed k rows))"
  by (simp add: keyed_dom)

lemma distinct_keys_map: "(\<And>r. k (f r) = k r) \<Longrightarrow> distinct (map k (map f rows)) = distinct (map k rows)"
  by (simp add: comp_def)

lemma distinct_keys_snoc: "distinct (map k (rows @ [r])) \<longleftrightarrow> distinct (map k rows) \<and> keyed k rows (k r) = None"
  by (simp add: keyed_None_notin)

lemma distinct_keys_filter: "distinct (map k rows) \<Longrightarrow> distinct (map k (filter P rows))"
  by (rule distinct_map_filter)

lemma length_filter_key:
  assumes "distinct (map k rows)"
  shows "length (filter (\<lambda>r. k r = i \<and> P r) rows) = (case keyed k rows i of None \<Rightarrow> 0 | Some r \<Rightarrow> if P r then 1 else 0)"
  using assms
proof (induction rows)
  case (Cons x rows)
  then have "keyed k rows i = None" if "k x = i"
    using that by (simp add: keyed_None_notin)
  then show ?case
    using Cons by (auto simp: keyed_def split: option.splits)
qed (simp add: keyed_def)

lemma card_keyed:
  assumes "distinct (map k rows)"
  shows "length (filter P rows) = card {i. \<exists>r. keyed k rows i = Some r \<and> P r}"
proof -
  have "{i. \<exists>r. keyed k rows i = Some r \<and> P r} = set (map k (filter P rows))"
    using keyed_Some_iff [OF assms] by auto
  then show ?thesis
    using distinct_card [OF distinct_keys_filter [OF assms, of P]] by simp
qed

end
