(* ===== verification/Postgres.thy ===== *)
theory Postgres
  imports Interfaces Tables GoStrings
begin

text \<open>
  The Postgres store of \<open>internal/store/postgres\<close>.  The tables of
  \<open>migrations/0001_init.sql\<close> and \<open>0002\<close> are lists of rows; each Go method is translated with
  the meaning of the one SQL statement it sends: constraints in the order the server checks
  them, filters, \<open>ORDER BY\<close>, \<open>LIMIT\<close>, \<open>RETURNING\<close>.  A statement is one atomic step.  What the
  driver and server add is the parameter \<open>PgLib\<close>; a statement that fails for a reason outside
  the schema (a lost connection, a cancelled context, text the server cannot store) is the
  fault of its draw.
\<close>

section \<open>The server\<close>

text \<open>
  \<open>pg_timestamptz\<close> is the precision of a stored time (microseconds), \<open>pg_lower\<close> the server's
  \<open>lower()\<close>.
\<close>

record PgLib =
  pg_timestamptz :: "time \<Rightarrow> time"
  pg_lower :: "gostring \<Rightarrow> gostring"

text \<open>What the driver reports: no row, a server error with its code and constraint, anything else.\<close>

datatype pg_error = NoRows | PgError (pg_Code: gostring) (pg_ConstraintName: gostring) | DriverError gostring

definition mapError :: "pg_error \<Rightarrow> store_error" where
  "mapError e =
     (case e of
        NoRows \<Rightarrow> ErrNotFound
      | PgError code constraint \<Rightarrow>
          if code = ''23505'' then
            (if constraint = ''users_email_key'' then ConflictError ''email'' ''already in use''
             else if constraint = ''users_username_key'' then ConflictError ''username'' ''already taken''
             else ConflictError [] ''already exists'')
          else ErrOther (code @ '' '' @ constraint)
      | DriverError msg \<Rightarrow> ErrOther msg)"

definition unique_violation :: "gostring \<Rightarrow> pg_error" where
  "unique_violation c = PgError ''23505'' c"

definition check_violation :: "gostring \<Rightarrow> pg_error" where
  "check_violation c = PgError ''23514'' c"

definition foreign_key_violation :: "gostring \<Rightarrow> pg_error" where
  "foreign_key_violation c = PgError ''23503'' c"

section \<open>The schema\<close>

record UserRow =
  ur_User :: User
  ur_password_hash :: gostring

record PgDB =
  t_users :: "UserRow list"
  t_posts :: "Post list"
  t_tokens :: "RefreshToken list"
  t_uploads :: "Upload list"

definition pg_empty :: PgDB where
  "pg_empty = \<lparr>t_users = [], t_posts = [], t_tokens = [], t_uploads = []\<rparr>"

abbreviation ur_ID :: "UserRow \<Rightarrow> gostring" where "ur_ID r \<equiv> u_ID (ur_User r)"

text \<open>The \<open>CHECK\<close> constraints, in the order of their names: the first one a row violates.\<close>

definition username_char :: "char \<Rightarrow> bool" where
  "username_char c \<longleftrightarrow> (CHR ''a'' \<le> c \<and> c \<le> CHR ''z'') \<or> (CHR ''0'' \<le> c \<and> c \<le> CHR ''9'') \<or> c = CHR ''_''"

definition users_check :: "PgLib \<Rightarrow> User \<Rightarrow> gostring option" where
  "users_check pl u =
     (if rune_count (u_Bio u) > 160 then Some ''users_bio_length''
      else if \<not> (1 \<le> rune_count (u_DisplayName u) \<and> rune_count (u_DisplayName u) \<le> 50) then Some ''users_display_name''
      else if \<not> (3 \<le> rune_count (u_Email u) \<and> rune_count (u_Email u) \<le> 254) then Some ''users_email_length''
      else if u_Email u \<noteq> pg_lower pl (u_Email u) then Some ''users_email_lowercase''
      else if \<not> (list_all username_char (u_Username u) \<and> 3 \<le> length (u_Username u) \<and> length (u_Username u) \<le> 30)
        then Some ''users_username_format''
      else None)"

definition user_exists :: "PgDB \<Rightarrow> gostring \<Rightarrow> bool" where
  "user_exists db ident \<longleftrightarrow> (\<exists>r \<in> set (t_users db). ur_ID r = ident)"

text \<open>A statement that the driver gets through to the server.\<close>

definition statement :: "Draw \<Rightarrow> (pg_error + 'a) \<times> 's \<Rightarrow> 's \<Rightarrow> (store_error + 'a) \<times> 's" where
  "statement d run db =
     (case d_fault d of
        Some msg \<Rightarrow> (Inl (mapError (DriverError msg)), db)
      | None \<Rightarrow> (case run of (Inl e, db') \<Rightarrow> (Inl (mapError e), db') | (Inr r, db') \<Rightarrow> (Inr r, db')))"

definition query :: "Draw \<Rightarrow> pg_error + 'a \<Rightarrow> store_error + 'a" where
  "query d run =
     (case d_fault d of
        Some msg \<Rightarrow> Inl (mapError (DriverError msg))
      | None \<Rightarrow> (case run of Inl e \<Rightarrow> Inl (mapError e) | Inr r \<Rightarrow> Inr r))"

text \<open>\<open>QueryRow(...).Scan(...)\<close>: the first row, or no row.\<close>

definition first_row :: "'r list \<Rightarrow> pg_error + 'r" where
  "first_row rows = (case rows of [] \<Rightarrow> Inl NoRows | r # _ \<Rightarrow> Inr r)"

section \<open>Users (\<open>users.go\<close>)\<close>

definition insert_user :: "PgLib \<Rightarrow> UserRow \<Rightarrow> PgDB \<Rightarrow> (pg_error + User) \<times> PgDB" where
  "insert_user pl r db =
     (case users_check pl (ur_User r) of
        Some c \<Rightarrow> (Inl (check_violation c), db)
      | None \<Rightarrow>
          if \<exists>x \<in> set (t_users db). ur_ID x = ur_ID r then (Inl (unique_violation ''users_pkey''), db)
          else if \<exists>x \<in> set (t_users db). u_Email (ur_User x) = u_Email (ur_User r)
            then (Inl (unique_violation ''users_email_key''), db)
          else if \<exists>x \<in> set (t_users db). u_Username (ur_User x) = u_Username (ur_User r)
            then (Inl (unique_violation ''users_username_key''), db)
          else (Inr (ur_User r), db\<lparr>t_users := t_users db @ [r]\<rparr>))"

definition pg_user_Create :: "PgLib \<Rightarrow> Draw \<Rightarrow> NewUser \<Rightarrow> PgDB \<Rightarrow> (store_error + User) \<times> PgDB" where
  "pg_user_Create pl d inp db =
     statement d (insert_user pl \<lparr>ur_User = new_user_row d inp, ur_password_hash = nu_PasswordHash inp\<rparr> db) db"

definition pg_user_ByID :: "Draw \<Rightarrow> gostring \<Rightarrow> PgDB \<Rightarrow> store_error + User" where
  "pg_user_ByID d ident db =
     query d (first_row (map ur_User (filter (\<lambda>r. ur_ID r = ident) (t_users db))))"

definition pg_user_ByUsername :: "Draw \<Rightarrow> gostring \<Rightarrow> PgDB \<Rightarrow> store_error + User" where
  "pg_user_ByUsername d username db =
     query d (first_row (map ur_User (filter (\<lambda>r. u_Username (ur_User r) = username) (t_users db))))"

definition pg_user_CredentialsByEmail :: "Draw \<Rightarrow> gostring \<Rightarrow> PgDB \<Rightarrow> store_error + Credentials" where
  "pg_user_CredentialsByEmail d email db =
     query d (first_row (map (\<lambda>r. \<lparr>cr_UserID = ur_ID r, cr_PasswordHash = ur_password_hash r\<rparr>)
       (filter (\<lambda>r. u_Email (ur_User r) = email) (t_users db))))"

text \<open>The \<open>SET\<close> list of \<open>Update\<close>, built from whichever fields were supplied.\<close>

datatype assignment = SetDisplayName gostring | SetBio gostring | SetAvatarNull | SetAvatarKey gostring | SetUpdatedAtNow

definition update_assignments :: "UserUpdate \<Rightarrow> assignment list" where
  "update_assignments inp =
     (case uu_DisplayName inp of Some n \<Rightarrow> [SetDisplayName n] | None \<Rightarrow> []) @
     (case uu_Bio inp of Some b \<Rightarrow> [SetBio b] | None \<Rightarrow> []) @
     (if uu_ClearAvatar inp then [SetAvatarNull]
      else case uu_AvatarKey inp of Some key \<Rightarrow> [SetAvatarKey key] | None \<Rightarrow> [])"

fun run_assignment :: "Draw \<Rightarrow> assignment \<Rightarrow> User \<Rightarrow> User" where
  "run_assignment d (SetDisplayName n) u = u\<lparr>u_DisplayName := n\<rparr>"
| "run_assignment d (SetBio b) u = u\<lparr>u_Bio := b\<rparr>"
| "run_assignment d SetAvatarNull u = u\<lparr>u_AvatarKey := None\<rparr>"
| "run_assignment d (SetAvatarKey key) u = u\<lparr>u_AvatarKey := Some key\<rparr>"
| "run_assignment d SetUpdatedAtNow u = u\<lparr>u_UpdatedAt := d_now d\<rparr>"

definition update_user :: "PgLib \<Rightarrow> Draw \<Rightarrow> assignment list \<Rightarrow> gostring \<Rightarrow> PgDB \<Rightarrow> (pg_error + User) \<times> PgDB" where
  "update_user pl d as ident db =
     (let set_row = (\<lambda>r. if ur_ID r = ident then r\<lparr>ur_User := fold (run_assignment d) as (ur_User r)\<rparr> else r);
          rows = map set_row (t_users db)
      in case List.find (\<lambda>r. ur_ID r = ident) rows of
           None \<Rightarrow> (Inl NoRows, db)
         | Some r \<Rightarrow>
             (case users_check pl (ur_User r) of
                Some c \<Rightarrow> (Inl (check_violation c), db)
              | None \<Rightarrow> (Inr (ur_User r), db\<lparr>t_users := rows\<rparr>)))"

definition pg_user_Update ::
    "PgLib \<Rightarrow> Draw \<Rightarrow> gostring \<Rightarrow> UserUpdate \<Rightarrow> PgDB \<Rightarrow> (store_error + User) \<times> PgDB" where
  "pg_user_Update pl d ident inp db =
     (let as = update_assignments inp
      in if as = [] then (pg_user_ByID d ident db, db)
         else statement d (update_user pl d (as @ [SetUpdatedAtNow]) ident db) db)"

section \<open>Posts (\<open>posts.go\<close>)\<close>

text \<open>\<open>FROM posts p JOIN users u ON u.id = p.author_id\<close>, scanned by \<open>scanPost\<close>.\<close>

definition join_posts :: "Post list \<Rightarrow> UserRow list \<Rightarrow> Post list" where
  "join_posts posts users =
     concat (map (\<lambda>p. map (\<lambda>r. hydrate p (Some (ur_User r))) (filter (\<lambda>r. ur_ID r = p_AuthorID p) users)) posts)"

definition insert_post :: "Post \<Rightarrow> PgDB \<Rightarrow> (pg_error + Post) \<times> PgDB" where
  "insert_post p db =
     (if rune_count (p_Caption p) > 2200 then (Inl (check_violation ''posts_caption_length''), db)
      else if \<exists>x \<in> set (t_posts db). p_ID x = p_ID p then (Inl (unique_violation ''posts_pkey''), db)
      else if \<not> user_exists db (p_AuthorID p) then (Inl (foreign_key_violation ''posts_author_id_fkey''), db)
      else case first_row (join_posts [p] (t_users db)) of
             Inl e \<Rightarrow> (Inl e, db\<lparr>t_posts := t_posts db @ [p]\<rparr>)
           | Inr q \<Rightarrow> (Inr q, db\<lparr>t_posts := t_posts db @ [p]\<rparr>))"

definition pg_post_Create :: "Draw \<Rightarrow> NewPost \<Rightarrow> PgDB \<Rightarrow> (store_error + Post) \<times> PgDB" where
  "pg_post_Create d inp db = statement d (insert_post (new_post_row d inp) db) db"

definition pg_post_ByID :: "Draw \<Rightarrow> gostring \<Rightarrow> PgDB \<Rightarrow> store_error + Post" where
  "pg_post_ByID d ident db =
     query d (first_row (filter (\<lambda>p. p_ID p = ident) (join_posts (t_posts db) (t_users db))))"

text \<open>
  The two counts \<open>Delete\<close> reads back: the rows with that id, and the rows the requester
  removed.
\<close>

definition delete_post :: "gostring \<Rightarrow> gostring \<Rightarrow> PgDB \<Rightarrow> (nat \<times> nat) \<times> PgDB" where
  "delete_post ident requesterID db =
     (let target = filter (\<lambda>p. p_ID p = ident) (t_posts db);
          own = map p_ID (filter (\<lambda>p. p_AuthorID p = requesterID) target)
      in ((length target, length (filter (\<lambda>p. p_ID p \<in> set own) (t_posts db))),
          db\<lparr>t_posts := filter (\<lambda>p. p_ID p \<notin> set own) (t_posts db)\<rparr>))"

definition pg_post_Delete :: "Draw \<Rightarrow> gostring \<Rightarrow> gostring \<Rightarrow> PgDB \<Rightarrow> (store_error + unit) \<times> PgDB" where
  "pg_post_Delete d ident requesterID db =
     (case statement d (apfst Inr (delete_post ident requesterID db)) db of
        (Inl e, db') \<Rightarrow> (Inl e, db')
      | (Inr (found, removed), db') \<Rightarrow>
          if found = 0 then (Inl ErrNotFound, db')
          else if removed = 0 then (Inl ErrForbidden, db')
          else (Inr (), db'))"

text \<open>The keyset query: filter, order newest first, limit.\<close>

definition keyset_query :: "(time \<times> gostring) option \<Rightarrow> nat \<Rightarrow> (Post \<Rightarrow> bool) \<Rightarrow> PgDB \<Rightarrow> Post list" where
  "keyset_query after limit keep db =
     take limit (sort_slice feed_less
       (filter (\<lambda>p. keep p \<and> (case after of None \<Rightarrow> True | Some pos \<Rightarrow> after_cursor pos p))
         (join_posts (t_posts db) (t_users db))))"

definition pg_page ::
    "PgLib \<Rightarrow> (gostring \<Rightarrow> time option) \<Rightarrow> Draw \<Rightarrow> PageRequest \<Rightarrow> (Post \<Rightarrow> bool) \<Rightarrow> PgDB \<Rightarrow> store_error + Post Page" where
  "pg_page pl layout_parse d req0 keep db =
     (let req = Normalise req0
      in case request_cursor (pg_timestamptz pl) layout_parse req of
           Inl e \<Rightarrow> Inl e
         | Inr after \<Rightarrow>
             (case query d (Inr (keyset_query after (nat (pr_Limit req + 1)) keep db)) of
                Inl e \<Rightarrow> Inl e
              | Inr items \<Rightarrow> Inr (cut_page (pr_Limit req) items)))"

definition pg_post_Feed ::
    "PgLib \<Rightarrow> (gostring \<Rightarrow> time option) \<Rightarrow> Draw \<Rightarrow> PageRequest \<Rightarrow> PgDB \<Rightarrow> store_error + Post Page" where
  "pg_post_Feed pl layout_parse d req db = pg_page pl layout_parse d req (\<lambda>_. True) db"

definition pg_post_ByAuthor ::
    "PgLib \<Rightarrow> (gostring \<Rightarrow> time option) \<Rightarrow> Draw \<Rightarrow> gostring \<Rightarrow> PageRequest \<Rightarrow> PgDB \<Rightarrow> store_error + Post Page" where
  "pg_post_ByAuthor pl layout_parse d authorID req db =
     pg_page pl layout_parse d req (\<lambda>p. p_AuthorID p = authorID) db"

section \<open>Refresh tokens (\<open>tokens.go\<close>)\<close>

definition insert_token :: "RefreshToken \<Rightarrow> PgDB \<Rightarrow> (pg_error + unit) \<times> PgDB" where
  "insert_token t db =
     (if \<exists>x \<in> set (t_tokens db). rt_ID x = rt_ID t then (Inl (unique_violation ''refresh_tokens_pkey''), db)
      else if \<exists>x \<in> set (t_tokens db). rt_TokenHash x = rt_TokenHash t
        then (Inl (unique_violation ''refresh_tokens_hash_key''), db)
      else if \<not> user_exists db (rt_UserID t) then (Inl (foreign_key_violation ''refresh_tokens_user_id_fkey''), db)
      else (Inr (), db\<lparr>t_tokens := t_tokens db @ [t]\<rparr>))"

text \<open>\<open>Issue\<close> writes five columns; the others take their defaults.\<close>

definition pg_token_Issue :: "PgLib \<Rightarrow> Draw \<Rightarrow> RefreshToken \<Rightarrow> PgDB \<Rightarrow> (store_error + unit) \<times> PgDB" where
  "pg_token_Issue pl d token db =
     statement d (insert_token
       \<lparr>rt_ID = rt_ID token, rt_UserID = rt_UserID token, rt_FamilyID = rt_FamilyID token,
        rt_TokenHash = rt_TokenHash token, rt_ExpiresAt = pg_timestamptz pl (rt_ExpiresAt token),
        rt_CreatedAt = d_now d, rt_UsedAt = None, rt_RevokedAt = None\<rparr> db) db"

definition pg_token_ByHash :: "Draw \<Rightarrow> gostring \<Rightarrow> PgDB \<Rightarrow> store_error + RefreshToken" where
  "pg_token_ByHash d hash db = query d (first_row (filter (\<lambda>t. rt_TokenHash t = hash) (t_tokens db)))"

text \<open>An \<open>UPDATE refresh_tokens SET ... WHERE P\<close>, with the number of rows it affected.\<close>

definition update_tokens ::
    "(RefreshToken \<Rightarrow> bool) \<Rightarrow> (RefreshToken \<Rightarrow> RefreshToken) \<Rightarrow> PgDB \<Rightarrow> nat \<times> PgDB" where
  "update_tokens P f db =
     (length (filter P (t_tokens db)), db\<lparr>t_tokens := map (\<lambda>t. if P t then f t else t) (t_tokens db)\<rparr>)"

definition pg_token_MarkUsed ::
    "PgLib \<Rightarrow> Draw \<Rightarrow> gostring \<Rightarrow> time \<Rightarrow> PgDB \<Rightarrow> (store_error + unit) \<times> PgDB" where
  "pg_token_MarkUsed pl d ident at db =
     (case statement d (apfst Inr (update_tokens (\<lambda>t. rt_ID t = ident \<and> rt_UsedAt t = None)
             (\<lambda>t. t\<lparr>rt_UsedAt := Some (pg_timestamptz pl at)\<rparr>) db)) db of
        (Inl e, db') \<Rightarrow> (Inl e, db')
      | (Inr affected, db') \<Rightarrow> if affected = 0 then (Inl ErrNotFound, db') else (Inr (), db'))"

definition pg_token_RevokeFamily ::
    "PgLib \<Rightarrow> Draw \<Rightarrow> gostring \<Rightarrow> time \<Rightarrow> PgDB \<Rightarrow> (store_error + unit) \<times> PgDB" where
  "pg_token_RevokeFamily pl d familyID at db =
     apfst (map_sum id (\<lambda>_. ())) (statement d (apfst Inr (update_tokens
       (\<lambda>t. rt_FamilyID t = familyID \<and> rt_RevokedAt t = None)
       (\<lambda>t. t\<lparr>rt_RevokedAt := Some (pg_timestamptz pl at)\<rparr>) db)) db)"

definition pg_token_RevokeAllForUser ::
    "PgLib \<Rightarrow> Draw \<Rightarrow> gostring \<Rightarrow> time \<Rightarrow> PgDB \<Rightarrow> (store_error + unit) \<times> PgDB" where
  "pg_token_RevokeAllForUser pl d userID at db =
     apfst (map_sum id (\<lambda>_. ())) (statement d (apfst Inr (update_tokens
       (\<lambda>t. rt_UserID t = userID \<and> rt_RevokedAt t = None)
       (\<lambda>t. t\<lparr>rt_RevokedAt := Some (pg_timestamptz pl at)\<rparr>) db)) db)"

definition pg_token_DeleteExpired :: "PgLib \<Rightarrow> Draw \<Rightarrow> time \<Rightarrow> PgDB \<Rightarrow> (store_error + int) \<times> PgDB" where
  "pg_token_DeleteExpired pl d before db =
     (let cut = pg_timestamptz pl before
      in statement d
           (Inr (int (length (filter (\<lambda>t. rt_ExpiresAt t < cut) (t_tokens db)))),
            db\<lparr>t_tokens := filter (\<lambda>t. \<not> rt_ExpiresAt t < cut) (t_tokens db)\<rparr>) db)"

section \<open>Uploads (\<open>uploads.go\<close>)\<close>

definition insert_upload :: "Upload \<Rightarrow> PgDB \<Rightarrow> (pg_error + unit) \<times> PgDB" where
  "insert_upload u db =
     (if ul_Purpose u \<notin> {''avatar'', ''post''} then (Inl (check_violation ''uploads_purpose''), db)
      else if \<exists>x \<in> set (t_uploads db). ul_Key x = ul_Key u then (Inl (unique_violation ''uploads_pkey''), db)
      else if \<not> user_exists db (ul_UserID u) then (Inl (foreign_key_violation ''uploads_user_id_fkey''), db)
      else (Inr (), db\<lparr>t_uploads := t_uploads db @ [u]\<rparr>))"

definition pg_upload_Reserve :: "Draw \<Rightarrow> Upload \<Rightarrow> PgDB \<Rightarrow> (store_error + unit) \<times> PgDB" where
  "pg_upload_Reserve d upload db =
     statement d (insert_upload (upload\<lparr>ul_CreatedAt := d_now d, ul_AttachedAt := None\<rparr>) db) db"

definition claim_upload ::
    "gostring \<Rightarrow> gostring \<Rightarrow> gostring \<Rightarrow> time \<Rightarrow> PgDB \<Rightarrow> (nat \<times> nat) \<times> PgDB" where
  "claim_upload key userID purpose at db =
     (let hit = (\<lambda>u. ul_Key u = key \<and> ul_UserID u = userID \<and> ul_Purpose u = purpose \<and> ul_AttachedAt u = None)
      in ((length (filter (\<lambda>u. ul_Key u = key) (t_uploads db)), length (filter hit (t_uploads db))),
          db\<lparr>t_uploads := map (\<lambda>u. if hit u then u\<lparr>ul_AttachedAt := Some at\<rparr> else u) (t_uploads db)\<rparr>))"

definition pg_upload_Claim ::
    "PgLib \<Rightarrow> Draw \<Rightarrow> gostring \<Rightarrow> gostring \<Rightarrow> gostring \<Rightarrow> time \<Rightarrow> PgDB \<Rightarrow> (store_error + unit) \<times> PgDB" where
  "pg_upload_Claim pl d key userID purpose at db =
     (case statement d (apfst Inr (claim_upload key userID purpose (pg_timestamptz pl at) db)) db of
        (Inl e, db') \<Rightarrow> (Inl e, db')
      | (Inr (found, claimed), db') \<Rightarrow>
          if found = 0 then (Inl ErrNotFound, db')
          else if claimed = 0 then (Inl ErrForbidden, db')
          else (Inr (), db'))"

text \<open>
  The subquery orders by creation time; rows created together come in the order of the scan,
  which the server leaves open.
\<close>

definition oldest_abandoned :: "Draw \<Rightarrow> time \<Rightarrow> nat \<Rightarrow> PgDB \<Rightarrow> gostring list" where
  "oldest_abandoned d before limit db =
     map ul_Key (take limit (sort_slice (\<lambda>a b. ul_CreatedAt a < ul_CreatedAt b)
       (filter (abandoned before) (shuffle (d_order d) (t_uploads db)))))"

definition release_uploads :: "Draw \<Rightarrow> time \<Rightarrow> int \<Rightarrow> PgDB \<Rightarrow> (pg_error + gostring list) \<times> PgDB" where
  "release_uploads d before limit db =
     (if limit < 0 then (Inl (PgError ''2201W'' []), db)
      else let keys = oldest_abandoned d before (nat limit) db
           in (Inr (map ul_Key (filter (\<lambda>u. ul_Key u \<in> set keys) (t_uploads db))),
               db\<lparr>t_uploads := filter (\<lambda>u. ul_Key u \<notin> set keys) (t_uploads db)\<rparr>))"

definition pg_upload_ReleaseAbandoned ::
    "PgLib \<Rightarrow> Draw \<Rightarrow> time \<Rightarrow> int \<Rightarrow> PgDB \<Rightarrow> (store_error + gostring list) \<times> PgDB" where
  "pg_upload_ReleaseAbandoned pl d before limit db =
     statement d (release_uploads d (pg_timestamptz pl before) limit db) db"

section \<open>The store as an interface value\<close>

definition pg_Users :: "PgLib \<Rightarrow> PgDB UserStore" where
  "pg_Users pl = \<lparr>us_Create = pg_user_Create pl, us_ByID = pg_user_ByID, us_ByUsername = pg_user_ByUsername,
     us_CredentialsByEmail = pg_user_CredentialsByEmail, us_Update = pg_user_Update pl\<rparr>"

definition pg_Posts :: "PgLib \<Rightarrow> (gostring \<Rightarrow> time option) \<Rightarrow> PgDB PostStore" where
  "pg_Posts pl layout_parse = \<lparr>ps_Create = pg_post_Create, ps_ByID = pg_post_ByID, ps_Delete = pg_post_Delete,
     ps_Feed = pg_post_Feed pl layout_parse, ps_ByAuthor = pg_post_ByAuthor pl layout_parse\<rparr>"

definition pg_Tokens :: "PgLib \<Rightarrow> PgDB TokenStore" where
  "pg_Tokens pl = \<lparr>ts_Issue = pg_token_Issue pl, ts_ByHash = pg_token_ByHash, ts_MarkUsed = pg_token_MarkUsed pl,
     ts_RevokeFamily = pg_token_RevokeFamily pl, ts_RevokeAllForUser = pg_token_RevokeAllForUser pl,
     ts_DeleteExpired = pg_token_DeleteExpired pl\<rparr>"

definition pg_Uploads :: "PgLib \<Rightarrow> PgDB UploadStore" where
  "pg_Uploads pl = \<lparr>up_Reserve = pg_upload_Reserve, up_Claim = pg_upload_Claim pl,
     up_ReleaseAbandoned = pg_upload_ReleaseAbandoned pl\<rparr>"

definition pg_Ping :: "Draw \<Rightarrow> PgDB \<Rightarrow> store_error + unit" where
  "pg_Ping d db = query d (Inr ())"

definition pg_Store :: "PgLib \<Rightarrow> (gostring \<Rightarrow> time option) \<Rightarrow> PgDB Store" where
  "pg_Store pl layout_parse = \<lparr>st_Users = pg_Users pl, st_Posts = pg_Posts pl layout_parse,
     st_Tokens = pg_Tokens pl, st_Uploads = pg_Uploads pl, st_Ping = pg_Ping\<rparr>"

lemma pg_Store_sel [simp]:
  "st_Users (pg_Store pl lp) = pg_Users pl" "st_Posts (pg_Store pl lp) = pg_Posts pl lp"
  "st_Tokens (pg_Store pl lp) = pg_Tokens pl" "st_Uploads (pg_Store pl lp) = pg_Uploads pl"
  by (simp_all add: pg_Store_def)

end
