(* ===== verification/PostgresLaws.thy ===== *)
theory PostgresLaws
  imports Postgres
begin

text \<open>
  The constraints of the schema as an invariant of the tables, and the proof that the Postgres
  store keeps the contracts of \<open>Interfaces\<close>.
\<close>

section \<open>The invariant of the schema\<close>

definition pg_users_ok :: "PgLib \<Rightarrow> PgDB \<Rightarrow> bool" where
  "pg_users_ok pl db \<longleftrightarrow> distinct (map ur_ID (t_users db)) \<and> distinct (map (u_Email \<circ> ur_User) (t_users db))
     \<and> distinct (map (u_Username \<circ> ur_User) (t_users db))
     \<and> (\<forall>r \<in> set (t_users db). users_check pl (ur_User r) = None)"

definition pg_posts_ok :: "PgLib \<Rightarrow> PgDB \<Rightarrow> bool" where
  "pg_posts_ok pl db \<longleftrightarrow> distinct (map p_ID (t_posts db))
     \<and> (\<forall>p \<in> set (t_posts db). user_exists db (p_AuthorID p) \<and> pg_timestamptz pl (p_CreatedAt p) = p_CreatedAt p)"

definition pg_tokens_ok :: "PgDB \<Rightarrow> bool" where
  "pg_tokens_ok db \<longleftrightarrow> distinct (map rt_ID (t_tokens db)) \<and> distinct (map rt_TokenHash (t_tokens db))
     \<and> (\<forall>t \<in> set (t_tokens db). user_exists db (rt_UserID t))"

definition pg_uploads_ok :: "PgDB \<Rightarrow> bool" where
  "pg_uploads_ok db \<longleftrightarrow> distinct (map ul_Key (t_uploads db)) \<and> (\<forall>u \<in> set (t_uploads db). user_exists db (ul_UserID u))"

definition pg_inv :: "PgLib \<Rightarrow> PgDB \<Rightarrow> bool" where
  "pg_inv pl db \<longleftrightarrow> pg_users_ok pl db \<and> pg_posts_ok pl db \<and> pg_tokens_ok db \<and> pg_uploads_ok db"

definition pg_ok :: "PgLib \<Rightarrow> Draw \<Rightarrow> bool" where
  "pg_ok pl d \<longleftrightarrow> d_fault d = None \<and> pg_timestamptz pl (d_now d) = d_now d"

lemma pg_inv_empty: "pg_inv pl pg_empty"
  by (simp add: pg_inv_def pg_empty_def pg_users_ok_def pg_posts_ok_def pg_tokens_ok_def pg_uploads_ok_def)

lemma pg_invD:
  assumes "pg_inv pl db"
  shows "pg_users_ok pl db" "pg_posts_ok pl db" "pg_tokens_ok db" "pg_uploads_ok db"
  using assms by (simp_all add: pg_inv_def)

lemma user_exists_cong: "t_users db' = t_users db \<Longrightarrow> user_exists db' = user_exists db"
  by (auto simp: user_exists_def fun_eq_iff)

section \<open>Statements and rows\<close>

lemma statement_ok [simp]:
  "d_fault d = None \<Longrightarrow> statement d run db = (case run of (Inl e, db') \<Rightarrow> (Inl (mapError e), db') | (Inr r, db') \<Rightarrow> (Inr r, db'))"
  by (simp add: statement_def)

lemma query_ok [simp]:
  "d_fault d = None \<Longrightarrow> query d run = (case run of Inl e \<Rightarrow> Inl (mapError e) | Inr r \<Rightarrow> Inr r)"
  by (simp add: query_def)

lemma mapError_simps [simp]:
  "mapError NoRows = ErrNotFound"
  "mapError (unique_violation ''users_email_key'') = ConflictError ''email'' ''already in use''"
  "mapError (unique_violation ''users_username_key'') = ConflictError ''username'' ''already taken''"
  by (simp_all add: mapError_def unique_violation_def)

lemma first_row_filter:
  "first_row (filter P rows) = (case List.find P rows of None \<Rightarrow> Inl NoRows | Some r \<Rightarrow> Inr r)"
  by (induction rows) (auto simp: first_row_def)

lemma first_row_map: "first_row (map f rows) = map_sum id f (first_row rows)"
  by (cases rows) (auto simp: first_row_def)

lemma find_by_key:
  fixes k :: "'r \<Rightarrow> gostring"
  assumes "distinct (map k rows)" and "r \<in> set rows"
  shows "List.find (\<lambda>x. k x = k r) rows = Some r"
  using assms keyed_Some_iff [of k rows "k r" r] by (simp add: keyed_def)

section \<open>Refresh tokens\<close>

abbreviation pg_toks :: "PgDB \<Rightarrow> gostring \<Rightarrow> RefreshToken option" where
  "pg_toks db \<equiv> keyed rt_ID (t_tokens db)"

lemma pg_tokens_keys: "pg_inv pl db \<Longrightarrow> distinct (map rt_ID (t_tokens db))"
  by (simp add: pg_inv_def pg_tokens_ok_def)

lemma pg_toks_Some: "pg_inv pl db \<Longrightarrow> pg_toks db i = Some t \<longleftrightarrow> t \<in> set (t_tokens db) \<and> rt_ID t = i"
  by (rule keyed_Some_iff [OF pg_tokens_keys])

lemma pg_inv_map_tokens:
  assumes "pg_inv pl db"
    and f: "\<And>t. rt_ID (f t) = rt_ID t" "\<And>t. rt_TokenHash (f t) = rt_TokenHash t" "\<And>t. rt_UserID (f t) = rt_UserID t"
  shows "pg_inv pl (db\<lparr>t_tokens := map f (t_tokens db)\<rparr>)"
  using assms by (simp add: pg_inv_def pg_users_ok_def pg_posts_ok_def pg_tokens_ok_def pg_uploads_ok_def comp_def
      user_exists_def)

lemma pg_inv_filter_tokens:
  assumes "pg_inv pl db"
  shows "pg_inv pl (db\<lparr>t_tokens := filter P (t_tokens db)\<rparr>)"
  using assms distinct_keys_filter
  by (auto simp: pg_inv_def pg_users_ok_def pg_posts_ok_def pg_tokens_ok_def pg_uploads_ok_def user_exists_def)

lemma pg_inv_add_token:
  assumes "pg_inv pl db" and "user_exists db (rt_UserID t)" and "pg_toks db (rt_ID t) = None"
    and "\<And>u. u \<in> set (t_tokens db) \<Longrightarrow> rt_TokenHash u \<noteq> rt_TokenHash t"
  shows "pg_inv pl (db\<lparr>t_tokens := t_tokens db @ [t]\<rparr>)"
proof -
  have "rt_TokenHash t \<notin> rt_TokenHash ` set (t_tokens db)"
    using assms(4) by (metis imageE)
  then show ?thesis
    using assms(1-3) unfolding pg_inv_def pg_users_ok_def pg_posts_ok_def pg_tokens_ok_def pg_uploads_ok_def
    by (simp add: user_exists_def keyed_None_notin)
qed

lemma pg_revoke_map:
  "map (\<lambda>t. if P t \<and> rt_RevokedAt t = None then t\<lparr>rt_RevokedAt := Some at\<rparr> else t) ts = map (revoke_if P at) ts"
  by (simp add: revoke_if_def)

text \<open>The laws of the interface, one operation at a time.\<close>

lemma pg_token_row:
  assumes s: "pg_inv pl s" and t: "pg_toks s i = Some t"
  shows "rt_ID t = i" and "user_exists (s\<lparr>t_tokens := []\<rparr>) (rt_UserID t)"
proof -
  show "rt_ID t = i"
    using t by (rule keyed_key)
  show "user_exists (s\<lparr>t_tokens := []\<rparr>) (rt_UserID t)"
    using keyed_mem [OF t] s by (simp add: pg_inv_def pg_tokens_ok_def user_exists_def)
qed

lemma pg_token_hash_inj:
  assumes "pg_inv pl s" "pg_toks s i = Some t" "pg_toks s j = Some u" "rt_TokenHash t = rt_TokenHash u"
  shows "i = j"
proof -
  from assms have "t = u" and ids: "rt_ID t = i" "rt_ID u = j"
    by (auto simp: pg_toks_Some pg_inv_def pg_tokens_ok_def inj_on_def distinct_map)
  then show ?thesis
    by simp
qed

lemma pg_token_ByHash_hit:
  assumes s: "pg_inv pl s" and "pg_ok pl d" and t: "pg_toks s i = Some t"
  shows "pg_token_ByHash d (rt_TokenHash t) s = Inr t"
proof -
  have "distinct (map rt_TokenHash (t_tokens s))"
    using s by (simp add: pg_inv_def pg_tokens_ok_def)
  then show ?thesis
    using find_by_key [OF _ keyed_mem [OF t], of rt_TokenHash] \<open>pg_ok pl d\<close>
    by (simp add: pg_token_ByHash_def first_row_filter pg_ok_def)
qed

lemma pg_token_ByHash_miss:
  assumes s: "pg_inv pl s" and "pg_ok pl d" and none: "\<And>i t. pg_toks s i = Some t \<Longrightarrow> rt_TokenHash t \<noteq> h"
  shows "pg_token_ByHash d h s = Inl ErrNotFound"
proof -
  have "List.find (\<lambda>t. rt_TokenHash t = h) (t_tokens s) = None"
    unfolding find_None_all using none pg_toks_Some [OF s] by blast
  then show ?thesis
    using \<open>pg_ok pl d\<close> by (simp add: pg_token_ByHash_def first_row_filter pg_ok_def)
qed

lemma pg_token_MarkUsed_hit:
  assumes s: "pg_inv pl s" and d: "pg_ok pl d" and t: "pg_toks s i = Some t" "rt_UsedAt t = None"
  shows "\<exists>s'. pg_token_MarkUsed pl d i at s = (Inr (), s') \<and> pg_inv pl s' \<and> s'\<lparr>t_tokens := []\<rparr> = s\<lparr>t_tokens := []\<rparr>
      \<and> pg_toks s' = (pg_toks s)(i := Some (t\<lparr>rt_UsedAt := Some (pg_timestamptz pl at)\<rparr>))"
proof -
  let ?P = "\<lambda>t. rt_ID t = i \<and> rt_UsedAt t = None"
  let ?f = "\<lambda>t. if ?P t then t\<lparr>rt_UsedAt := Some (pg_timestamptz pl at)\<rparr> else t"
  let ?s = "s\<lparr>t_tokens := map ?f (t_tokens s)\<rparr>"
  have "length (filter ?P (t_tokens s)) = 1"
    using length_filter_key [OF pg_tokens_keys [OF s], of i "\<lambda>t. rt_UsedAt t = None"] t by simp
  then have "pg_token_MarkUsed pl d i at s = (Inr (), ?s)"
    using d by (simp add: pg_token_MarkUsed_def update_tokens_def pg_ok_def)
  moreover have "pg_inv pl ?s"
    by (rule pg_inv_map_tokens [OF s]) simp_all
  moreover have "pg_toks ?s = (pg_toks s)(i := Some (t\<lparr>rt_UsedAt := Some (pg_timestamptz pl at)\<rparr>))"
  proof
    fix j
    have "pg_toks ?s j = map_option ?f (pg_toks s j)"
      by (simp add: keyed_map)
    then show "pg_toks ?s j = ((pg_toks s)(i := Some (t\<lparr>rt_UsedAt := Some (pg_timestamptz pl at)\<rparr>))) j"
      using t keyed_key [of rt_ID "t_tokens s"] by (cases "pg_toks s j") auto
  qed
  ultimately show ?thesis
    by (intro exI [of _ ?s]) simp
qed

lemma pg_token_MarkUsed_miss:
  assumes s: "pg_inv pl s" and d: "pg_ok pl d" and none: "\<And>t. pg_toks s i = Some t \<Longrightarrow> rt_UsedAt t \<noteq> None"
  shows "pg_token_MarkUsed pl d i at s = (Inl ErrNotFound, s)"
proof -
  let ?P = "\<lambda>t. rt_ID t = i \<and> rt_UsedAt t = None"
  have nohit: "\<not> ?P t" if "t \<in> set (t_tokens s)" for t
    using none [of t] that pg_toks_Some [OF s, of i t] by blast
  then have "map (\<lambda>t. if ?P t then t\<lparr>rt_UsedAt := Some (pg_timestamptz pl at)\<rparr> else t) (t_tokens s) = t_tokens s"
    by (intro map_idI) auto
  moreover have "filter ?P (t_tokens s) = []"
    using nohit by (simp add: filter_empty_conv)
  ultimately show ?thesis
    using d by (simp add: pg_token_MarkUsed_def update_tokens_def pg_ok_def)
qed

lemma pg_token_RevokeFamily_law:
  assumes s: "pg_inv pl s" and d: "pg_ok pl d"
  shows "\<exists>s'. pg_token_RevokeFamily pl d f at s = (Inr (), s') \<and> pg_inv pl s' \<and> s'\<lparr>t_tokens := []\<rparr> = s\<lparr>t_tokens := []\<rparr>
      \<and> pg_toks s' = (\<lambda>i. map_option (revoke_if (\<lambda>t. rt_FamilyID t = f) (pg_timestamptz pl at)) (pg_toks s i))"
proof -
  let ?g = "revoke_if (\<lambda>t. rt_FamilyID t = f) (pg_timestamptz pl at)"
  have "pg_token_RevokeFamily pl d f at s = (Inr (), s\<lparr>t_tokens := map ?g (t_tokens s)\<rparr>)"
    using d by (simp add: pg_token_RevokeFamily_def update_tokens_def pg_ok_def pg_revoke_map)
  then show ?thesis
    using pg_inv_map_tokens [OF s, of ?g] by (simp add: keyed_map fun_eq_iff)
qed

lemma pg_token_RevokeAll_law:
  assumes s: "pg_inv pl s" and d: "pg_ok pl d"
  shows "\<exists>s'. pg_token_RevokeAllForUser pl d uid at s = (Inr (), s') \<and> pg_inv pl s' \<and> s'\<lparr>t_tokens := []\<rparr> = s\<lparr>t_tokens := []\<rparr>
      \<and> pg_toks s' = (\<lambda>i. map_option (revoke_if (\<lambda>t. rt_UserID t = uid) (pg_timestamptz pl at)) (pg_toks s i))"
proof -
  let ?g = "revoke_if (\<lambda>t. rt_UserID t = uid) (pg_timestamptz pl at)"
  have "pg_token_RevokeAllForUser pl d uid at s = (Inr (), s\<lparr>t_tokens := map ?g (t_tokens s)\<rparr>)"
    using d by (simp add: pg_token_RevokeAllForUser_def update_tokens_def pg_ok_def pg_revoke_map)
  then show ?thesis
    using pg_inv_map_tokens [OF s, of ?g] by (simp add: keyed_map fun_eq_iff)
qed

lemma pg_token_Issue_law:
  fixes t :: "RefreshToken"
  assumes s: "pg_inv pl s" and d: "pg_ok pl d" and known: "user_exists (s\<lparr>t_tokens := []\<rparr>) (rt_UserID t)"
    and new: "pg_toks s (rt_ID t) = None" and hash: "\<And>i u. pg_toks s i = Some u \<Longrightarrow> rt_TokenHash u \<noteq> rt_TokenHash t"
    and fresh: "rt_UsedAt t = None" "rt_RevokedAt t = None"
  shows "\<exists>s' c. pg_token_Issue pl d t s = (Inr (), s') \<and> pg_inv pl s' \<and> s'\<lparr>t_tokens := []\<rparr> = s\<lparr>t_tokens := []\<rparr>
      \<and> pg_toks s' = (pg_toks s)(rt_ID t := Some (t\<lparr>rt_ExpiresAt := pg_timestamptz pl (rt_ExpiresAt t), rt_CreatedAt := c\<rparr>))"
proof -
  let ?t = "t\<lparr>rt_ExpiresAt := pg_timestamptz pl (rt_ExpiresAt t), rt_CreatedAt := d_now d\<rparr>"
  let ?s = "s\<lparr>t_tokens := t_tokens s @ [?t]\<rparr>"
  have row: "\<lparr>rt_ID = rt_ID t, rt_UserID = rt_UserID t, rt_FamilyID = rt_FamilyID t, rt_TokenHash = rt_TokenHash t,
      rt_ExpiresAt = pg_timestamptz pl (rt_ExpiresAt t), rt_CreatedAt = d_now d, rt_UsedAt = None, rt_RevokedAt = None\<rparr> = ?t"
    using fresh by (cases t) simp
  have ids: "\<And>u. u \<in> set (t_tokens s) \<Longrightarrow> rt_ID u \<noteq> rt_ID t"
    using new by (auto simp: keyed_None_iff)
  have hashes: "\<And>u. u \<in> set (t_tokens s) \<Longrightarrow> rt_TokenHash u \<noteq> rt_TokenHash t"
    using hash pg_toks_Some [OF s] by blast
  have exists: "user_exists s (rt_UserID t)"
    using known by (simp add: user_exists_def)
  have "pg_token_Issue pl d t s = (Inr (), ?s)"
    using d ids hashes exists by (auto simp: pg_token_Issue_def row insert_token_def pg_ok_def)
  moreover have "pg_inv pl ?s"
    using pg_inv_add_token [OF s, of ?t] exists new hashes by simp
  moreover have "pg_toks ?s = (pg_toks s)(rt_ID t := Some ?t)"
    using keyed_snoc_new [of rt_ID "t_tokens s" ?t] new by simp
  ultimately show ?thesis
    by (intro exI [of _ ?s] exI [of _ "d_now d"]) simp
qed

lemma pg_token_DeleteExpired_law:
  assumes s: "pg_inv pl s" and d: "pg_ok pl d"
  shows "\<exists>s' n. pg_token_DeleteExpired pl d before s = (Inr n, s') \<and> pg_inv pl s' \<and> s'\<lparr>t_tokens := []\<rparr> = s\<lparr>t_tokens := []\<rparr>
      \<and> pg_toks s' = (\<lambda>i. case pg_toks s i of None \<Rightarrow> None | Some t \<Rightarrow> if rt_ExpiresAt t < (pg_timestamptz pl before) then None else Some t)
      \<and> n = int (card {i. \<exists>t. pg_toks s i = Some t \<and> rt_ExpiresAt t < (pg_timestamptz pl before)})"
proof -
  let ?cut = "pg_timestamptz pl before"
  let ?s = "s\<lparr>t_tokens := filter (\<lambda>t. \<not> rt_ExpiresAt t < ?cut) (t_tokens s)\<rparr>"
  have "pg_token_DeleteExpired pl d before s = (Inr (int (length (filter (\<lambda>t. rt_ExpiresAt t < ?cut) (t_tokens s)))), ?s)"
    using d by (simp add: pg_token_DeleteExpired_def pg_ok_def Let_def)
  moreover have "pg_toks ?s = (\<lambda>i. case pg_toks s i of None \<Rightarrow> None | Some t \<Rightarrow> if rt_ExpiresAt t < ?cut then None else Some t)"
    by (auto simp: keyed_filter [OF pg_tokens_keys [OF s]] fun_eq_iff split: option.split)
  ultimately show ?thesis
    using pg_inv_filter_tokens [OF s] card_keyed [OF pg_tokens_keys [OF s], of "\<lambda>t. rt_ExpiresAt t < ?cut"]
    by (intro exI [of _ ?s] exI) simp
qed

lemmas pg_token_laws =
  pg_token_row pg_token_hash_inj pg_token_ByHash_hit pg_token_ByHash_miss
  pg_token_MarkUsed_hit pg_token_MarkUsed_miss pg_token_RevokeFamily_law pg_token_RevokeAll_law
  pg_token_Issue_law pg_token_DeleteExpired_law

interpretation pg_tok: token_store "pg_Tokens pl" pg_toks "pg_inv pl" "pg_ok pl"
  "\<lambda>db. db\<lparr>t_tokens := []\<rparr>" user_exists "pg_timestamptz pl"
  for pl
  by (unfold_locales, unfold pg_Tokens_def TokenStore.simps) (fact pg_token_laws)+

section \<open>Uploads\<close>

abbreviation pg_upls :: "PgDB \<Rightarrow> gostring \<Rightarrow> Upload option" where
  "pg_upls db \<equiv> keyed ul_Key (t_uploads db)"

lemma pg_uploads_keys: "pg_inv pl db \<Longrightarrow> distinct (map ul_Key (t_uploads db))"
  by (simp add: pg_inv_def pg_uploads_ok_def)

lemma pg_inv_set_uploads:
  assumes "pg_inv pl db" and "distinct (map ul_Key us)" and "\<And>u. u \<in> set us \<Longrightarrow> user_exists db (ul_UserID u)"
  shows "pg_inv pl (db\<lparr>t_uploads := us\<rparr>)"
  using assms unfolding pg_inv_def pg_users_ok_def pg_posts_ok_def pg_tokens_ok_def pg_uploads_ok_def
  by (simp add: user_exists_def)

lemma pg_uploads_user: "pg_inv pl db \<Longrightarrow> u \<in> set (t_uploads db) \<Longrightarrow> user_exists db (ul_UserID u)"
  by (simp add: pg_inv_def pg_uploads_ok_def)

lemma claim_counts:
  assumes "pg_inv pl db"
  shows "fst (fst (claim_upload key userID purpose at db)) = (if pg_upls db key = None then 0 else 1)"
    and "snd (fst (claim_upload key userID purpose at db)) =
      (case pg_upls db key of None \<Rightarrow> 0
       | Some u \<Rightarrow> if ul_UserID u = userID \<and> ul_Purpose u = purpose \<and> ul_AttachedAt u = None then 1 else 0)"
  using length_filter_key [OF pg_uploads_keys [OF assms], of key "\<lambda>_. True"]
    length_filter_key [OF pg_uploads_keys [OF assms], of key
      "\<lambda>u. ul_UserID u = userID \<and> ul_Purpose u = purpose \<and> ul_AttachedAt u = None"]
  by (auto simp: claim_upload_def Let_def split: option.split)

lemma claim_rows:
  assumes "pg_inv pl db"
  shows "pg_upls (snd (claim_upload key userID purpose at db)) = (\<lambda>k. map_option
      (\<lambda>u. if k = key \<and> ul_UserID u = userID \<and> ul_Purpose u = purpose \<and> ul_AttachedAt u = None
           then u\<lparr>ul_AttachedAt := Some at\<rparr> else u) (pg_upls db k))"
    and "pg_inv pl (snd (claim_upload key userID purpose at db))"
    and "snd (claim_upload key userID purpose at db)\<lparr>t_uploads := []\<rparr> = db\<lparr>t_uploads := []\<rparr>"
proof -
  let ?f = "\<lambda>u. if ul_Key u = key \<and> ul_UserID u = userID \<and> ul_Purpose u = purpose \<and> ul_AttachedAt u = None
     then u\<lparr>ul_AttachedAt := Some at\<rparr> else u"
  have rows: "snd (claim_upload key userID purpose at db) = db\<lparr>t_uploads := map ?f (t_uploads db)\<rparr>"
    by (simp add: claim_upload_def Let_def)
  have "map_option ?f (pg_upls db k) = map_option (\<lambda>u. if k = key \<and> ul_UserID u = userID \<and> ul_Purpose u = purpose
      \<and> ul_AttachedAt u = None then u\<lparr>ul_AttachedAt := Some at\<rparr> else u) (pg_upls db k)" for k
    using keyed_key [of ul_Key "t_uploads db" k] by (cases "pg_upls db k") auto
  then show "pg_upls (snd (claim_upload key userID purpose at db)) = (\<lambda>k. map_option
      (\<lambda>u. if k = key \<and> ul_UserID u = userID \<and> ul_Purpose u = purpose \<and> ul_AttachedAt u = None
           then u\<lparr>ul_AttachedAt := Some at\<rparr> else u) (pg_upls db k))"
    unfolding rows by (simp add: keyed_map fun_eq_iff)
  have "distinct (map ul_Key (map ?f (t_uploads db)))"
    using pg_uploads_keys [OF assms] by (subst distinct_keys_map) simp_all
  then show "pg_inv pl (snd (claim_upload key userID purpose at db))"
    unfolding rows using pg_uploads_user [OF assms] by (intro pg_inv_set_uploads [OF assms]) auto
  show "snd (claim_upload key userID purpose at db)\<lparr>t_uploads := []\<rparr> = db\<lparr>t_uploads := []\<rparr>"
    by (simp add: rows)
qed

lemma pg_Claim_run:
  assumes "pg_inv pl db" and "pg_ok pl d"
  shows "pg_upload_Claim pl d key userID purpose at db =
    (let db' = snd (claim_upload key userID purpose (pg_timestamptz pl at) db)
     in case pg_upls db key of
          None \<Rightarrow> (Inl ErrNotFound, db')
        | Some u \<Rightarrow> if ul_UserID u = userID \<and> ul_Purpose u = purpose \<and> ul_AttachedAt u = None
                    then (Inr (), db') else (Inl ErrForbidden, db'))"
proof -
  obtain found claimed db' where run: "claim_upload key userID purpose (pg_timestamptz pl at) db = ((found, claimed), db')"
    by (metis prod.collapse)
  then show ?thesis
    using claim_counts [OF assms(1), of key userID purpose "pg_timestamptz pl at"] assms(2)
    by (auto simp: pg_upload_Claim_def pg_ok_def run Let_def split: option.split)
qed

lemma claim_miss:
  assumes "\<And>u. pg_upls db key = Some u \<Longrightarrow> ul_UserID u \<noteq> userID \<or> ul_Purpose u \<noteq> purpose \<or> ul_AttachedAt u \<noteq> None"
    and "pg_inv pl db"
  shows "snd (claim_upload key userID purpose at db) = db"
proof -
  have "pg_upls db key = Some u" if "u \<in> set (t_uploads db)" "ul_Key u = key" for u
    using keyed_Some_iff [OF pg_uploads_keys [OF assms(2)]] that by blast
  then have "map (\<lambda>u. if ul_Key u = key \<and> ul_UserID u = userID \<and> ul_Purpose u = purpose \<and> ul_AttachedAt u = None
      then u\<lparr>ul_AttachedAt := Some at\<rparr> else u) (t_uploads db) = t_uploads db"
    using assms(1) by (intro map_idI) auto
  then show ?thesis
    by (simp add: claim_upload_def Let_def)
qed

text \<open>What \<open>ReleaseAbandoned\<close> returns: as many of the oldest abandoned keys as the limit allows.\<close>

lemma released_keys:
  assumes db: "pg_inv pl db" and limit: "0 \<le> limit"
    and keys: "keys = map ul_Key (filter (\<lambda>u. ul_Key u \<in> set (oldest_abandoned d before (nat limit) db)) (t_uploads db))"
  shows "set keys = set (oldest_abandoned d before (nat limit) db)" and "distinct keys"
    and "set keys \<subseteq> {k. \<exists>u. pg_upls db k = Some u \<and> abandoned before u}"
    and "int (length keys) = min limit (int (card {k. \<exists>u. pg_upls db k = Some u \<and> abandoned before u}))"
proof -
  let ?found = "filter (abandoned before) (shuffle (d_order d) (t_uploads db))"
  let ?sorted = "sort_slice (\<lambda>a b. ul_CreatedAt a < ul_CreatedAt b) ?found"
  let ?oldest = "oldest_abandoned d before (nat limit) db"
  have oldest: "?oldest = take (nat limit) (map ul_Key ?sorted)"
    by (simp add: oldest_abandoned_def take_map)
  have "mset (map ul_Key ?sorted) = mset (map ul_Key ?found)"
    by simp
  then have dist: "distinct (map ul_Key ?sorted)"
    using pg_uploads_keys [OF db] by (metis distinct_map_filter distinct_map_shuffle mset_eq_imp_distinct_iff)
  have set_sorted: "set (map ul_Key ?sorted) = {k. \<exists>u. pg_upls db k = Some u \<and> abandoned before u}"
    using keyed_Some_iff [OF pg_uploads_keys [OF db]] by (auto simp: image_iff)
  have dist_oldest: "distinct ?oldest" and sub: "set ?oldest \<subseteq> set (map ul_Key ?sorted)"
    unfolding oldest using dist by (auto dest: in_set_takeD)
  show set_keys: "set keys = set ?oldest"
    using sub unfolding keys set_sorted by (force dest: keyed_mem keyed_key)
  show "distinct keys"
    unfolding keys using pg_uploads_keys [OF db] by (rule distinct_map_filter)
  show "set keys \<subseteq> {k. \<exists>u. pg_upls db k = Some u \<and> abandoned before u}"
    using sub unfolding set_keys set_sorted .
  have "length keys = length ?oldest"
    using distinct_card [OF \<open>distinct keys\<close>] distinct_card [OF dist_oldest] set_keys by simp
  also have "\<dots> = min (nat limit) (card {k. \<exists>u. pg_upls db k = Some u \<and> abandoned before u})"
    using distinct_card [OF dist] unfolding set_sorted oldest by simp
  finally show "int (length keys) = min limit (int (card {k. \<exists>u. pg_upls db k = Some u \<and> abandoned before u}))"
    using limit by simp
qed

text \<open>The laws of the interface, one operation at a time.\<close>

lemma pg_upload_Reserve_law:
  fixes u :: "Upload"
  assumes s: "pg_inv pl s" and d: "pg_ok pl d" and known: "user_exists (s\<lparr>t_uploads := []\<rparr>) (ul_UserID u)"
    and new: "pg_upls s (ul_Key u) = None" and u: "ul_Purpose u \<in> {''avatar'', ''post''}" "ul_CreatedAt u = 0" "ul_AttachedAt u = None"
  shows "\<exists>s'. pg_upload_Reserve d u s = (Inr (), s') \<and> pg_inv pl s' \<and> s'\<lparr>t_uploads := []\<rparr> = s\<lparr>t_uploads := []\<rparr>
      \<and> pg_upls s' = (pg_upls s)(ul_Key u := Some (u\<lparr>ul_CreatedAt := d_now d\<rparr>))"
proof -
  let ?u = "u\<lparr>ul_CreatedAt := d_now d, ul_AttachedAt := None\<rparr>"
  let ?s = "s\<lparr>t_uploads := t_uploads s @ [?u]\<rparr>"
  have row: "?u = u\<lparr>ul_CreatedAt := d_now d\<rparr>"
    using u(3) by simp
  have exists: "user_exists s (ul_UserID u)"
    using known by (simp add: user_exists_def)
  have "pg_upload_Reserve d u s = (Inr (), ?s)"
    using d new exists u(1) by (auto simp: pg_upload_Reserve_def insert_upload_def pg_ok_def keyed_None_iff)
  moreover have "pg_inv pl ?s"
  proof (rule pg_inv_set_uploads [OF s])
    show "distinct (map ul_Key (t_uploads s @ [?u]))"
      unfolding distinct_keys_snoc using pg_uploads_keys [OF s] new by simp
  qed (use exists pg_uploads_user [OF s] in auto)
  moreover have "pg_upls ?s = (pg_upls s)(ul_Key u := Some ?u)"
    using keyed_snoc_new [of ul_Key "t_uploads s" ?u] new by simp
  ultimately show ?thesis
    unfolding row by (intro exI [of _ "s\<lparr>t_uploads := t_uploads s @ [u\<lparr>ul_CreatedAt := d_now d\<rparr>]\<rparr>"]) simp
qed

lemma pg_upload_Claim_ok:
  assumes s: "pg_inv pl s" and d: "pg_ok pl d" and u: "pg_upls s key = Some u" "ul_UserID u = userID" "ul_Purpose u = purpose"
    "ul_AttachedAt u = None"
  shows "\<exists>s'. pg_upload_Claim pl d key userID purpose at s = (Inr (), s') \<and> pg_inv pl s'
      \<and> s'\<lparr>t_uploads := []\<rparr> = s\<lparr>t_uploads := []\<rparr>
      \<and> pg_upls s' = (pg_upls s)(key := Some (u\<lparr>ul_AttachedAt := Some (pg_timestamptz pl at)\<rparr>))"
proof -
  let ?s = "snd (claim_upload key userID purpose (pg_timestamptz pl at) s)"
  have "pg_upls ?s = (pg_upls s)(key := Some (u\<lparr>ul_AttachedAt := Some (pg_timestamptz pl at)\<rparr>))"
    unfolding claim_rows(1) [OF s] using u by (auto simp: fun_eq_iff map_option_case split: option.split)
  then show ?thesis
    using pg_Claim_run [OF s d] claim_rows(2,3) [OF s] u by (intro exI [of _ ?s]) (simp add: Let_def)
qed

lemma pg_upload_Claim_forbidden:
  assumes s: "pg_inv pl s" and d: "pg_ok pl d" and u: "pg_upls s key = Some u"
    and bad: "ul_UserID u \<noteq> userID \<or> ul_Purpose u \<noteq> purpose \<or> ul_AttachedAt u \<noteq> None"
  shows "pg_upload_Claim pl d key userID purpose at s = (Inl ErrForbidden, s)"
proof -
  have "snd (claim_upload key userID purpose (pg_timestamptz pl at) s) = s"
    using u bad by (intro claim_miss [OF _ s]) simp
  then show ?thesis
    using pg_Claim_run [OF s d, of key userID purpose at] u bad by (auto simp: Let_def)
qed

lemma pg_upload_Claim_missing:
  assumes s: "pg_inv pl s" and d: "pg_ok pl d" and none: "pg_upls s key = None"
  shows "pg_upload_Claim pl d key userID purpose at s = (Inl ErrNotFound, s)"
proof -
  have "snd (claim_upload key userID purpose (pg_timestamptz pl at) s) = s"
    using none by (intro claim_miss [OF _ s]) simp
  then show ?thesis
    using pg_Claim_run [OF s d, of key userID purpose at] none by (simp add: Let_def)
qed

lemma pg_upload_Release_law:
  fixes limit :: "int"
  assumes s: "pg_inv pl s" and d: "pg_ok pl d" and limit: "0 \<le> limit"
  shows "\<exists>s' keys. pg_upload_ReleaseAbandoned pl d before limit s = (Inr keys, s') \<and> pg_inv pl s'
      \<and> s'\<lparr>t_uploads := []\<rparr> = s\<lparr>t_uploads := []\<rparr>
      \<and> distinct keys \<and> set keys \<subseteq> {k. \<exists>u. pg_upls s k = Some u \<and> abandoned (pg_timestamptz pl before) u}
      \<and> int (length keys) = min limit (int (card {k. \<exists>u. pg_upls s k = Some u \<and> abandoned (pg_timestamptz pl before) u}))
      \<and> pg_upls s' = (\<lambda>k. if k \<in> set keys then None else pg_upls s k)"
proof -
  define oldest where "oldest = oldest_abandoned d (pg_timestamptz pl before) (nat limit) s"
  define keys where "keys = map ul_Key (filter (\<lambda>u. ul_Key u \<in> set oldest) (t_uploads s))"
  define s' where "s' = s\<lparr>t_uploads := filter (\<lambda>u. ul_Key u \<notin> set oldest) (t_uploads s)\<rparr>"
  note rel = released_keys [OF s limit keys_def [unfolded oldest_def]]
  have sets: "set keys = set oldest"
    using rel(1) by (simp add: oldest_def)
  have "pg_upload_ReleaseAbandoned pl d before limit s = (Inr keys, s')"
    using d limit by (simp add: pg_upload_ReleaseAbandoned_def release_uploads_def pg_ok_def Let_def keys_def s'_def oldest_def)
  moreover have "pg_inv pl s'"
    unfolding s'_def using pg_uploads_keys [OF s] pg_uploads_user [OF s]
    by (intro pg_inv_set_uploads [OF s] distinct_keys_filter) auto
  moreover have "s'\<lparr>t_uploads := []\<rparr> = s\<lparr>t_uploads := []\<rparr>"
    by (simp add: s'_def)
  moreover have "pg_upls s' = (\<lambda>k. if k \<in> set keys then None else pg_upls s k)"
  proof
    fix k
    show "pg_upls s' k = (if k \<in> set keys then None else pg_upls s k)"
      unfolding s'_def sets using keyed_key [of ul_Key "t_uploads s" k]
      by (auto simp: keyed_filter [OF pg_uploads_keys [OF s]] split: option.split)
  qed
  ultimately show ?thesis
    using rel(2-4) by blast
qed

lemmas pg_upload_laws =
  pg_upload_Reserve_law pg_upload_Claim_ok pg_upload_Claim_forbidden pg_upload_Claim_missing
  pg_upload_Release_law

interpretation pg_upl: upload_store "pg_Uploads pl" pg_upls "pg_inv pl" "pg_ok pl"
  "\<lambda>db. db\<lparr>t_uploads := []\<rparr>" user_exists "pg_timestamptz pl"
  for pl
  by (unfold_locales, unfold pg_Uploads_def UploadStore.simps) (fact pg_upload_laws)+

section \<open>Users\<close>

definition pg_users :: "PgDB \<Rightarrow> gostring \<Rightarrow> User option" where
  "pg_users db i = map_option ur_User (keyed ur_ID (t_users db) i)"

definition pg_hash_of :: "PgDB \<Rightarrow> gostring \<Rightarrow> gostring" where
  "pg_hash_of db i = (case keyed ur_ID (t_users db) i of None \<Rightarrow> [] | Some r \<Rightarrow> ur_password_hash r)"

text \<open>The fields the \<open>CHECK\<close> constraints accept, for a new user and for an update.\<close>

definition pg_admits :: "PgLib \<Rightarrow> NewUser \<Rightarrow> bool" where
  "pg_admits pl inp \<longleftrightarrow>
     1 \<le> rune_count (nu_DisplayName inp) \<and> rune_count (nu_DisplayName inp) \<le> 50
     \<and> 3 \<le> rune_count (nu_Email inp) \<and> rune_count (nu_Email inp) \<le> 254 \<and> nu_Email inp = pg_lower pl (nu_Email inp)
     \<and> list_all username_char (nu_Username inp) \<and> 3 \<le> length (nu_Username inp) \<and> length (nu_Username inp) \<le> 30"

definition pg_admits_update :: "UserUpdate \<Rightarrow> bool" where
  "pg_admits_update upd \<longleftrightarrow>
     (case uu_DisplayName upd of None \<Rightarrow> True | Some n \<Rightarrow> 1 \<le> rune_count n \<and> rune_count n \<le> 50)
     \<and> (case uu_Bio upd of None \<Rightarrow> True | Some b \<Rightarrow> rune_count b \<le> 160)"

lemma users_check_None:
  "users_check pl u = None \<longleftrightarrow>
     rune_count (u_Bio u) \<le> 160 \<and> 1 \<le> rune_count (u_DisplayName u) \<and> rune_count (u_DisplayName u) \<le> 50
     \<and> 3 \<le> rune_count (u_Email u) \<and> rune_count (u_Email u) \<le> 254 \<and> u_Email u = pg_lower pl (u_Email u)
     \<and> list_all username_char (u_Username u) \<and> 3 \<le> length (u_Username u) \<and> length (u_Username u) \<le> 30"
  by (auto simp: users_check_def)

lemma rune_count_Nil [simp]: "rune_count [] = 0"
  using rune_count_le_length [of "[]"] by simp

lemma users_check_new: "users_check pl (new_user_row d inp) = None \<longleftrightarrow> pg_admits pl inp"
  by (auto simp: users_check_None pg_admits_def new_user_row_def)

lemma users_check_update:
  "users_check pl u = None \<Longrightarrow> pg_admits_update upd \<Longrightarrow> users_check pl ((apply_update upd u)\<lparr>u_UpdatedAt := c\<rparr>) = None"
  unfolding users_check_None pg_admits_update_def by (simp add: apply_update_fields split: option.split_asm)

lemma fold_update_assignments: "fold (run_assignment d) (update_assignments upd) u = apply_update upd u"
  by (auto simp: update_assignments_def apply_update_def Let_def split: option.split)

lemma update_assignments_Nil: "update_assignments upd = [] \<Longrightarrow> apply_update upd u = u"
  using fold_update_assignments [of undefined upd u] by simp

lemma pg_users_keys: "pg_inv pl db \<Longrightarrow> distinct (map ur_ID (t_users db))"
  by (simp add: pg_inv_def pg_users_ok_def)

lemma pg_users_Some:
  "pg_inv pl db \<Longrightarrow> pg_users db i = Some u \<longleftrightarrow> (\<exists>r \<in> set (t_users db). ur_User r = u \<and> u_ID u = i)"
  using keyed_Some_iff [OF pg_users_keys] by (auto simp: pg_users_def)

lemma pg_users_exists: "user_exists db i \<longleftrightarrow> pg_users db i \<noteq> None"
  unfolding pg_users_def user_exists_def by (simp add: keyed_None_iff)

lemma pg_users_inj:
  assumes "pg_inv pl db" and "pg_users db i = Some u" and "pg_users db j = Some v"
  shows "u_Email u = u_Email v \<Longrightarrow> i = j" and "u_Username u = u_Username v \<Longrightarrow> i = j"
proof -
  obtain r x where r: "r \<in> set (t_users db)" "ur_User r = u" "u_ID u = i" and x: "x \<in> set (t_users db)" "ur_User x = v" "u_ID v = j"
    using assms pg_users_Some by meson
  have d: "distinct (map (u_Email \<circ> ur_User) (t_users db))" "distinct (map (u_Username \<circ> ur_User) (t_users db))"
    using assms(1) by (simp_all add: pg_inv_def pg_users_ok_def)
  show "u_Email u = u_Email v \<Longrightarrow> i = j"
    using d(1) r x unfolding distinct_map inj_on_def by fastforce
  show "u_Username u = u_Username v \<Longrightarrow> i = j"
    using d(2) r x unfolding distinct_map inj_on_def by fastforce
qed

lemma pg_find_user:
  assumes db: "pg_inv pl db" and u: "pg_users db i = Some u"
  shows "\<exists>r. ur_User r = u \<and> ur_password_hash r = pg_hash_of db i
      \<and> List.find (\<lambda>x. u_Email (ur_User x) = u_Email u) (t_users db) = Some r
      \<and> List.find (\<lambda>x. u_Username (ur_User x) = u_Username u) (t_users db) = Some r"
proof -
  obtain r where k: "keyed ur_ID (t_users db) i = Some r" and r: "ur_User r = u"
    using u by (auto simp: pg_users_def)
  have mem: "r \<in> set (t_users db)"
    using k by (rule keyed_mem)
  have d: "distinct (map (\<lambda>r. u_Email (ur_User r)) (t_users db))" "distinct (map (\<lambda>r. u_Username (ur_User r)) (t_users db))"
    using db by (simp_all add: pg_inv_def pg_users_ok_def comp_def)
  show ?thesis
    using find_by_key [OF d(1) mem] find_by_key [OF d(2) mem] r k by (auto simp: pg_hash_of_def)
qed

lemma pg_find_no_user:
  assumes "pg_inv pl db" and "\<And>i u. pg_users db i = Some u \<Longrightarrow> \<not> P u"
  shows "List.find (\<lambda>x. P (ur_User x)) (t_users db) = None"
  unfolding find_None_all using assms pg_users_Some [OF assms(1)] by blast

lemma pg_inv_set_users:
  assumes "pg_inv pl db" and "pg_users_ok pl (db\<lparr>t_users := us\<rparr>)"
    and "\<And>i. user_exists db i \<Longrightarrow> user_exists (db\<lparr>t_users := us\<rparr>) i"
  shows "pg_inv pl (db\<lparr>t_users := us\<rparr>)"
  using assms unfolding pg_inv_def pg_posts_ok_def pg_tokens_ok_def pg_uploads_ok_def by simp

lemma pg_inv_add_user:
  assumes db: "pg_inv pl db" and chk: "users_check pl (ur_User r) = None"
    and new: "pg_users db (ur_ID r) = None"
    and fresh: "\<And>i u. pg_users db i = Some u \<Longrightarrow> u_Email u \<noteq> u_Email (ur_User r) \<and> u_Username u \<noteq> u_Username (ur_User r)"
  shows "pg_inv pl (db\<lparr>t_users := t_users db @ [r]\<rparr>)"
proof (rule pg_inv_set_users [OF db])
  have fresh': "u_Email (ur_User x) \<noteq> u_Email (ur_User r) \<and> u_Username (ur_User x) \<noteq> u_Username (ur_User r)"
    if "x \<in> set (t_users db)" for x
    using that fresh [of "ur_ID x" "ur_User x"] pg_users_Some [OF db] by blast
  have "u_Email (ur_User r) \<notin> (u_Email \<circ> ur_User) ` set (t_users db)"
    "u_Username (ur_User r) \<notin> (u_Username \<circ> ur_User) ` set (t_users db)"
    using fresh' by (metis comp_apply imageE)+
  moreover have "ur_ID r \<notin> ur_ID ` set (t_users db)"
    using new by (simp add: pg_users_def keyed_None_notin)
  ultimately show "pg_users_ok pl (db\<lparr>t_users := t_users db @ [r]\<rparr>)"
    using db chk by (simp add: pg_inv_def pg_users_ok_def)
qed (auto simp: user_exists_def)

lemma pg_inv_update_user:
  assumes db: "pg_inv pl db"
    and f: "\<And>r. u_ID (ur_User (f r)) = ur_ID r" "\<And>r. u_Email (ur_User (f r)) = u_Email (ur_User r)"
      "\<And>r. u_Username (ur_User (f r)) = u_Username (ur_User r)"
    and chk: "\<And>r. r \<in> set (t_users db) \<Longrightarrow> users_check pl (ur_User (f r)) = None"
  shows "pg_inv pl (db\<lparr>t_users := map f (t_users db)\<rparr>)"
proof (rule pg_inv_set_users [OF db])
  show "pg_users_ok pl (db\<lparr>t_users := map f (t_users db)\<rparr>)"
    using db f chk by (simp add: pg_inv_def pg_users_ok_def comp_def)
qed (use f in \<open>auto simp: user_exists_def\<close>)

text \<open>Rewriting the row of one user.\<close>

definition rewrite_user :: "gostring \<Rightarrow> (User \<Rightarrow> User) \<Rightarrow> UserRow \<Rightarrow> UserRow" where
  "rewrite_user i g x = (if ur_ID x = i then x\<lparr>ur_User := g (ur_User x)\<rparr> else x)"

lemma rewrite_user_rows:
  assumes g: "\<And>v. u_ID (g v) = u_ID v" and k: "pg_users db i = Some u"
  shows "pg_users (db\<lparr>t_users := map (rewrite_user i g) (t_users db)\<rparr>) = (pg_users db)(i := Some (g u))"
    and "pg_hash_of (db\<lparr>t_users := map (rewrite_user i g) (t_users db)\<rparr>) = pg_hash_of db"
proof -
  have id: "ur_ID (rewrite_user i g x) = ur_ID x" for x by (simp add: rewrite_user_def g)
  have rows: "keyed ur_ID (map (rewrite_user i g) (t_users db)) j = map_option (rewrite_user i g) (keyed ur_ID (t_users db) j)" for j
    by (rule keyed_map) (rule id)
  show "pg_users (db\<lparr>t_users := map (rewrite_user i g) (t_users db)\<rparr>) = (pg_users db)(i := Some (g u))"
  proof
    fix j
    show "pg_users (db\<lparr>t_users := map (rewrite_user i g) (t_users db)\<rparr>) j = ((pg_users db)(i := Some (g u))) j"
      using keyed_key [of ur_ID "t_users db" j] k
      by (cases "keyed ur_ID (t_users db) j") (auto simp: pg_users_def rows rewrite_user_def)
  qed
  show "pg_hash_of (db\<lparr>t_users := map (rewrite_user i g) (t_users db)\<rparr>) = pg_hash_of db"
    unfolding pg_hash_of_def by (rule ext) (simp add: rows rewrite_user_def split: option.split)
qed

lemma pg_Update_run:
  assumes d: "pg_ok pl d" and db: "pg_inv pl db" and u: "pg_users db i = Some u" and upd: "pg_admits_update upd"
    and ne: "update_assignments upd \<noteq> []"
  shows "\<exists>db'. pg_user_Update pl d i upd db = (Inr ((apply_update upd u)\<lparr>u_UpdatedAt := d_now d\<rparr>), db') \<and> pg_inv pl db'
    \<and> db'\<lparr>t_users := []\<rparr> = db\<lparr>t_users := []\<rparr>
    \<and> pg_users db' = (pg_users db)(i := Some ((apply_update upd u)\<lparr>u_UpdatedAt := d_now d\<rparr>)) \<and> pg_hash_of db' = pg_hash_of db"
proof -
  obtain r where k: "keyed ur_ID (t_users db) i = Some r" and r: "ur_User r = u"
    using u by (auto simp: pg_users_def)
  define new where "new v = (apply_update upd v)\<lparr>u_UpdatedAt := d_now d\<rparr>" for v
  let ?f = "rewrite_user i new"
  let ?db = "db\<lparr>t_users := map ?f (t_users db)\<rparr>"
  have f_sel: "u_ID (ur_User (?f x)) = ur_ID x" "u_Email (ur_User (?f x)) = u_Email (ur_User x)"
    "u_Username (ur_User (?f x)) = u_Username (ur_User x)" "ur_password_hash (?f x) = ur_password_hash x" for x
    by (simp_all add: rewrite_user_def new_def)
  have fold_eq: "fold (run_assignment d) (update_assignments upd @ [SetUpdatedAtNow]) v = new v" for v
    by (simp add: fold_update_assignments new_def)
  have ok: "users_check pl (ur_User (?f x)) = None" if "x \<in> set (t_users db)" for x
    using users_check_update [OF _ upd, of pl "ur_User x"] db that by (simp add: rewrite_user_def new_def pg_inv_def pg_users_ok_def)
  have "ur_User (?f r) = new u" "List.find (\<lambda>x. ur_ID x = i) (map ?f (t_users db)) = Some (?f r)"
    using keyed_key [OF k] r k keyed_map [of ur_ID ?f "t_users db" i] f_sel(1) by (simp_all add: rewrite_user_def keyed_def)
  then have run: "update_user pl d (update_assignments upd @ [SetUpdatedAtNow]) i db = (Inr (new u), ?db)"
    unfolding update_user_def fold_eq rewrite_user_def [symmetric] Let_def
    using ok [OF keyed_mem [OF k]] by simp
  have "pg_inv pl ?db"
    by (intro pg_inv_update_user [OF db] f_sel ok)
  moreover note rewrite_user_rows [of new, OF _ u]
  ultimately show ?thesis
    using run d ne unfolding new_def [symmetric]
    by (intro exI [of _ ?db]) (simp add: pg_user_Update_def pg_ok_def new_def)
qed

text \<open>The laws of the interface, one operation at a time.\<close>

lemma pg_user_row:
  assumes "pg_inv pl s" and "pg_users s i = Some u"
  shows "u_ID u = i"
  using assms by (auto simp: pg_users_Some)

lemma pg_user_email_inj:
  assumes "pg_inv pl s" "pg_users s i = Some u" "pg_users s j = Some v" "u_Email u = u_Email v"
  shows "i = j"
  using assms by (rule pg_users_inj(1))

lemma pg_user_username_inj:
  assumes "pg_inv pl s" "pg_users s i = Some u" "pg_users s j = Some v" "u_Username u = u_Username v"
  shows "i = j"
  using assms by (rule pg_users_inj(2))

lemma pg_user_ByID_law:
  assumes "pg_ok pl d"
  shows "pg_user_ByID d i s = (case pg_users s i of None \<Rightarrow> Inl ErrNotFound | Some u \<Rightarrow> Inr u)"
  using assms by (auto simp: pg_user_ByID_def pg_ok_def first_row_map first_row_filter pg_users_def keyed_def split: option.split)

lemma pg_user_ByUsername_hit:
  assumes s: "pg_inv pl s" and d: "pg_ok pl d" and u: "pg_users s i = Some u"
  shows "pg_user_ByUsername d (u_Username u) s = Inr u"
proof -
  obtain r where "ur_User r = u" "List.find (\<lambda>x. u_Username (ur_User x) = u_Username u) (t_users s) = Some r"
    using pg_find_user [OF s u] by blast
  then show ?thesis
    using d by (simp add: pg_user_ByUsername_def pg_ok_def first_row_map first_row_filter)
qed

lemma pg_user_ByUsername_miss:
  assumes s: "pg_inv pl s" and d: "pg_ok pl d" and none: "\<And>i u. pg_users s i = Some u \<Longrightarrow> u_Username u \<noteq> name"
  shows "pg_user_ByUsername d name s = Inl ErrNotFound"
proof -
  have "List.find (\<lambda>x. u_Username (ur_User x) = name) (t_users s) = None"
    using none by (rule pg_find_no_user [OF s])
  then show ?thesis
    using d by (simp add: pg_user_ByUsername_def pg_ok_def first_row_map first_row_filter)
qed

lemma pg_user_Credentials_hit:
  assumes s: "pg_inv pl s" and d: "pg_ok pl d" and u: "pg_users s i = Some u"
  shows "pg_user_CredentialsByEmail d (u_Email u) s = Inr \<lparr>cr_UserID = i, cr_PasswordHash = pg_hash_of s i\<rparr>"
proof -
  obtain r where r: "ur_User r = u" "ur_password_hash r = pg_hash_of s i"
      "List.find (\<lambda>x. u_Email (ur_User x) = u_Email u) (t_users s) = Some r"
    using pg_find_user [OF s u] by blast
  have "u_ID u = i"
    using s u by (auto simp: pg_users_Some)
  then show ?thesis
    using d r by (simp add: pg_user_CredentialsByEmail_def pg_ok_def first_row_map first_row_filter)
qed

lemma pg_user_Credentials_miss:
  assumes s: "pg_inv pl s" and d: "pg_ok pl d" and none: "\<And>i u. pg_users s i = Some u \<Longrightarrow> u_Email u \<noteq> e"
  shows "pg_user_CredentialsByEmail d e s = Inl ErrNotFound"
proof -
  have "List.find (\<lambda>x. u_Email (ur_User x) = e) (t_users s) = None"
    using none by (rule pg_find_no_user [OF s])
  then show ?thesis
    using d by (simp add: pg_user_CredentialsByEmail_def pg_ok_def first_row_map first_row_filter)
qed

lemma pg_user_Create_ok:
  fixes d :: "Draw" and inp :: "NewUser"
  assumes s: "pg_inv pl s" and d: "pg_ok pl d" and adm: "pg_admits pl inp" and new: "pg_users s (NewID d) = None"
    and fresh: "\<And>i u. pg_users s i = Some u \<Longrightarrow> u_Email u \<noteq> nu_Email inp \<and> u_Username u \<noteq> nu_Username inp"
  shows "\<exists>s'. pg_user_Create pl d inp s = (Inr (new_user_row d inp), s') \<and> pg_inv pl s'
      \<and> s'\<lparr>t_users := []\<rparr> = s\<lparr>t_users := []\<rparr>
      \<and> pg_users s' = (pg_users s)(NewID d := Some (new_user_row d inp))
      \<and> pg_hash_of s' = (pg_hash_of s)(NewID d := nu_PasswordHash inp)"
proof -
  let ?r = "\<lparr>ur_User = new_user_row d inp, ur_password_hash = nu_PasswordHash inp\<rparr>"
  let ?s = "s\<lparr>t_users := t_users s @ [?r]\<rparr>"
  have row: "u_ID (new_user_row d inp) = NewID d" "u_Email (new_user_row d inp) = nu_Email inp"
    "u_Username (new_user_row d inp) = nu_Username inp"
    by (simp_all add: new_user_row_def)
  have chk: "users_check pl (new_user_row d inp) = None"
    using adm by (simp add: users_check_new)
  have unused: "keyed ur_ID (t_users s) (ur_ID ?r) = None"
    using new row by (simp add: pg_users_def)
  have "insert_user pl ?r s = (Inr (new_user_row d inp), ?s)"
    using chk unused fresh pg_users_Some [OF s] row unfolding insert_user_def by (auto simp: keyed_None_iff)
  moreover have "pg_inv pl ?s"
    using chk new fresh row by (intro pg_inv_add_user [OF s]) auto
  moreover note keyed_snoc_new [OF unused]
  then have "pg_users ?s = (pg_users s)(NewID d := Some (new_user_row d inp))"
    and "pg_hash_of ?s = (pg_hash_of s)(NewID d := nu_PasswordHash inp)"
    using row by (auto simp: pg_users_def pg_hash_of_def fun_eq_iff)
  ultimately show ?thesis
    using d by (intro exI [of _ ?s]) (simp add: pg_user_Create_def pg_ok_def)
qed

lemma pg_user_Create_conflict:
  fixes d :: "Draw" and inp :: "NewUser"
  assumes s: "pg_inv pl s" and d: "pg_ok pl d" and adm: "pg_admits pl inp" and new: "pg_users s (NewID d) = None"
    and u: "pg_users s i = Some u" and clash: "u_Email u = nu_Email inp \<or> u_Username u = nu_Username inp"
  shows "\<exists>field reason. pg_user_Create pl d inp s = (Inl (ConflictError field reason), s)
      \<and> (field = ''email'' \<and> (\<exists>i u. pg_users s i = Some u \<and> u_Email u = nu_Email inp)
        \<or> field = ''username'' \<and> (\<exists>i u. pg_users s i = Some u \<and> u_Username u = nu_Username inp))"
proof -
  let ?r = "\<lparr>ur_User = new_user_row d inp, ur_password_hash = nu_PasswordHash inp\<rparr>"
  have row: "u_ID (new_user_row d inp) = NewID d" "u_Email (new_user_row d inp) = nu_Email inp"
    "u_Username (new_user_row d inp) = nu_Username inp"
    by (simp_all add: new_user_row_def)
  have chk: "users_check pl (new_user_row d inp) = None"
    using adm by (simp add: users_check_new)
  have ids: "\<not> (\<exists>x \<in> set (t_users s). ur_ID x = ur_ID ?r)"
    using new row by (simp add: pg_users_def keyed_None_iff)
  obtain x where x: "x \<in> set (t_users s)" "ur_User x = u"
    using u pg_users_Some [OF s] by blast
  have lift: "\<exists>i v. pg_users s i = Some v \<and> Q v" if "\<exists>x \<in> set (t_users s). Q (ur_User x)" for Q
    using that pg_users_Some [OF s] by blast
  show ?thesis
  proof (cases "\<exists>x \<in> set (t_users s). u_Email (ur_User x) = nu_Email inp")
    case True
    then have "insert_user pl ?r s = (Inl (unique_violation ''users_email_key''), s)"
      using chk ids row unfolding insert_user_def by simp
    then show ?thesis
      using d lift [OF True] by (simp add: pg_user_Create_def pg_ok_def)
  next
    case False
    then have ex: "\<exists>x \<in> set (t_users s). u_Username (ur_User x) = nu_Username inp"
      using x clash by blast
    then have "insert_user pl ?r s = (Inl (unique_violation ''users_username_key''), s)"
      using chk ids row False unfolding insert_user_def by simp
    then show ?thesis
      using d lift [OF ex] by (simp add: pg_user_Create_def pg_ok_def)
  qed
qed

lemma pg_user_Update_ok:
  fixes d :: "Draw" and upd :: "UserUpdate"
  assumes s: "pg_inv pl s" and d: "pg_ok pl d" and adm: "pg_admits_update upd" and u: "pg_users s i = Some u"
  shows "\<exists>s' c. pg_user_Update pl d i upd s = (Inr ((apply_update upd u)\<lparr>u_UpdatedAt := c\<rparr>), s') \<and> pg_inv pl s'
      \<and> s'\<lparr>t_users := []\<rparr> = s\<lparr>t_users := []\<rparr>
      \<and> pg_users s' = (pg_users s)(i := Some ((apply_update upd u)\<lparr>u_UpdatedAt := c\<rparr>)) \<and> pg_hash_of s' = pg_hash_of s"
  proof (cases "update_assignments upd = []")
    case True
    then have same: "(apply_update upd u)\<lparr>u_UpdatedAt := u_UpdatedAt u\<rparr> = u"
      using update_assignments_Nil by simp
    have "pg_user_Update pl d i upd s = (Inr u, s)"
      using True d u by (auto simp: pg_user_Update_def pg_user_ByID_def pg_ok_def first_row_map first_row_filter
          pg_users_def keyed_def split: option.split)
    then show ?thesis
      using s u by (intro exI [of _ s] exI [of _ "u_UpdatedAt u"]) (auto simp: same fun_upd_idem)
  next
    case False
    then show ?thesis
      using pg_Update_run [OF d s u adm] by blast
  qed

lemma pg_user_Update_missing:
  fixes d :: "Draw" and upd :: "UserUpdate"
  assumes d: "pg_ok pl d" and none: "pg_users s i = None"
  shows "pg_user_Update pl d i upd s = (Inl ErrNotFound, s)"
proof -
  let ?f = "\<lambda>r. if ur_ID r = i then r\<lparr>ur_User := fold (run_assignment d) (update_assignments upd @ [SetUpdatedAtNow]) (ur_User r)\<rparr> else r"
  have none': "\<forall>r \<in> set (t_users s). ur_ID r \<noteq> i"
    using none by (simp add: pg_users_def keyed_None_iff)
  then have "map ?f (t_users s) = t_users s"
    by (intro map_idI) auto
  moreover have "List.find (\<lambda>r. ur_ID r = i) (t_users s) = None"
    using none' by (simp add: find_None_all)
  ultimately show ?thesis
    using d by (simp add: pg_user_Update_def pg_user_ByID_def update_user_def pg_ok_def first_row_map first_row_filter Let_def
        del: fold_append)
qed

lemmas pg_user_laws =
  pg_user_row pg_user_email_inj pg_user_username_inj pg_user_ByID_law
  pg_user_ByUsername_hit pg_user_ByUsername_miss pg_user_Credentials_hit pg_user_Credentials_miss
  pg_user_Create_ok pg_user_Create_conflict pg_user_Update_ok pg_user_Update_missing

interpretation pg_usr: user_store "pg_Users pl" pg_users pg_hash_of "pg_inv pl" "pg_ok pl"
  "\<lambda>db. db\<lparr>t_users := []\<rparr>" "pg_admits pl" pg_admits_update "\<lambda>_. True"
  for pl
  by (unfold_locales, unfold pg_Users_def UserStore.simps) (fact pg_user_laws | rule pg_user_laws; assumption | blast intro: pg_user_Credentials_miss)+

section \<open>Posts\<close>

abbreviation pg_posts :: "PgDB \<Rightarrow> gostring \<Rightarrow> Post option" where
  "pg_posts db \<equiv> keyed p_ID (t_posts db)"

lemma filter_one_key:
  fixes k :: "'r \<Rightarrow> gostring"
  shows "distinct (map k rows) \<Longrightarrow> filter (\<lambda>r. k r = i) rows = (case keyed k rows i of None \<Rightarrow> [] | Some r \<Rightarrow> [r])"
proof (induction rows)
  case (Cons x rows)
  then have "keyed k rows i = None" if "k x = i"
    using that by (simp add: keyed_None_notin)
  then show ?case
    using Cons by (auto simp: keyed_def split: option.splits)
qed (simp add: keyed_def)

text \<open>The join finds exactly one author for every post.\<close>

lemma join_posts_map:
  assumes "pg_inv pl db" and "\<And>p. p \<in> set ps \<Longrightarrow> user_exists db (p_AuthorID p)"
  shows "join_posts ps (t_users db) = map (\<lambda>p. hydrate p (pg_users db (p_AuthorID p))) ps"
proof -
  have "map (\<lambda>r. hydrate p (Some (ur_User r))) (filter (\<lambda>r. ur_ID r = p_AuthorID p) (t_users db)) =
      [hydrate p (pg_users db (p_AuthorID p))]" if "p \<in> set ps" for p
    using assms(2) [OF that] filter_one_key [OF pg_users_keys [OF assms(1)], of "p_AuthorID p"]
    by (auto simp: pg_users_exists pg_users_def)
  then have "map (\<lambda>p. map (\<lambda>r. hydrate p (Some (ur_User r))) (filter (\<lambda>r. ur_ID r = p_AuthorID p) (t_users db))) ps =
      map (\<lambda>p. [hydrate p (pg_users db (p_AuthorID p))]) ps"
    by (rule map_cong [OF refl])
  then show ?thesis
    unfolding join_posts_def by (simp only: concat_map_singleton)
qed

lemma pg_posts_keys: "pg_inv pl db \<Longrightarrow> distinct (map p_ID (t_posts db))"
  by (simp add: pg_inv_def pg_posts_ok_def)

lemma pg_posts_row:
  "pg_inv pl db \<Longrightarrow> p \<in> set (t_posts db) \<Longrightarrow> user_exists db (p_AuthorID p) \<and> pg_timestamptz pl (p_CreatedAt p) = p_CreatedAt p"
  by (simp add: pg_inv_def pg_posts_ok_def)

lemma pg_join_all:
  "pg_inv pl db \<Longrightarrow> join_posts (t_posts db) (t_users db) = map (\<lambda>p. hydrate p (pg_users db (p_AuthorID p))) (t_posts db)"
  using join_posts_map pg_posts_row by blast

lemma pg_inv_set_posts:
  assumes "pg_inv pl db" and "distinct (map p_ID ps)"
    and "\<And>p. p \<in> set ps \<Longrightarrow> user_exists db (p_AuthorID p) \<and> pg_timestamptz pl (p_CreatedAt p) = p_CreatedAt p"
  shows "pg_inv pl (db\<lparr>t_posts := ps\<rparr>)"
  using assms unfolding pg_inv_def pg_users_ok_def pg_posts_ok_def pg_tokens_ok_def pg_uploads_ok_def
  by (simp add: user_exists_def)

lemma cut_page_take: "cut_page limit (take (nat (limit + 1)) L) = cut_page limit L"
  by (auto simp: cut_page_def Let_def min_def)

lemma pg_page_page_of:
  assumes db: "pg_inv pl db" and d: "pg_ok pl d" and L: "feed_list L"
    and set_L: "set L = {hydrate p (pg_users db (p_AuthorID p)) |i p. pg_posts db i = Some p \<and> keep p}"
    and keep: "\<And>p a. keep (hydrate p a) = keep p"
  shows "pg_page pl layout_parse d req keep db = page_of (pg_timestamptz pl) layout_parse req L"
proof -
  define J where "J = join_posts (t_posts db) (t_users db)"
  have J: "J = map (\<lambda>p. hydrate p (pg_users db (p_AuthorID p))) (t_posts db)"
    unfolding J_def by (rule pg_join_all [OF db])
  have rows: "p \<in> set (t_posts db) \<longleftrightarrow> (\<exists>i. pg_posts db i = Some p)" for p
    using keyed_Some_iff [OF pg_posts_keys [OF db]] by blast
  have set_J: "{p \<in> set J. keep p} = set L"
    unfolding J set_L set_map using keep rows by blast
  have "distinct (map p_ID J)"
    using pg_posts_keys [OF db] by (simp add: J comp_def)
  then have dist: "distinct J" "inj_on p_ID (set J)"
    by (simp_all add: distinct_map)
  have "sort_slice feed_less (filter (\<lambda>p. keep p \<and> (case c of None \<Rightarrow> True | Some pos \<Rightarrow> after_cursor pos p)) J) = seek c L"
    for c :: "(time \<times> gostring) option"
  proof (rule feed_list_unique)
    let ?F = "filter (\<lambda>p. keep p \<and> (case c of None \<Rightarrow> True | Some pos \<Rightarrow> after_cursor pos p)) J"
    have "inj_on p_ID (set ?F)"
      using dist(2) by (rule inj_on_subset) auto
    then show "feed_list (sort_slice feed_less ?F)"
      unfolding feed_list_def using dist(1) by (intro sorted_sort_slice feed_less_strict_total) simp_all
    show "feed_list (seek c L)"
      using L by (auto simp: seek_def feed_list_def sorted_wrt_filter split: option.split)
    show "set (sort_slice feed_less ?F) = set (seek c L)"
      using set_J by (auto simp: seek_def split: option.split)
  qed
  then have "keyset_query c n keep db = take n (seek c L)" for c n
    by (simp add: keyset_query_def J_def)
  then show ?thesis
    using d by (auto simp: pg_page_def page_of_def pg_ok_def Let_def cut_page_take split: sum.split)
qed

lemma pg_users_frame: "pg_users (s\<lparr>t_posts := []\<rparr>) = pg_users s"
  by (auto simp: pg_users_def fun_eq_iff)

text \<open>The laws of the interface, one operation at a time.\<close>

lemma pg_post_row:
  assumes s: "pg_inv pl s" and p: "pg_posts s i = Some p"
  shows "p_ID p = i" and "pg_users (s\<lparr>t_posts := []\<rparr>) (p_AuthorID p) \<noteq> None" and "pg_timestamptz pl (p_CreatedAt p) = p_CreatedAt p"
proof -
  show "p_ID p = i"
    using p by (rule keyed_key)
  show "pg_users (s\<lparr>t_posts := []\<rparr>) (p_AuthorID p) \<noteq> None" and "pg_timestamptz pl (p_CreatedAt p) = p_CreatedAt p"
    unfolding pg_users_frame using pg_posts_row [OF s keyed_mem [OF p]] pg_users_exists by simp_all
qed

lemma pg_post_finite:
  shows "finite (dom (pg_posts s))"
    by (rule keyed_finite)

lemma pg_post_Create_ok:
  fixes d :: "Draw" and inp :: "NewPost"
  assumes s: "pg_inv pl s" and d: "pg_ok pl d" and cap: "rune_count (np_Caption inp) \<le> 2200"
    and new: "pg_posts s (NewID d) = None" and a: "pg_users (s\<lparr>t_posts := []\<rparr>) (np_AuthorID inp) = Some a"
  shows "\<exists>s'. pg_post_Create d inp s = (Inr (hydrate (new_post_row d inp) (Some a)), s') \<and> pg_inv pl s'
      \<and> s'\<lparr>t_posts := []\<rparr> = s\<lparr>t_posts := []\<rparr> \<and> pg_posts s' = (pg_posts s)(NewID d := Some (new_post_row d inp))"
proof -
  let ?p = "new_post_row d inp"
  let ?s = "s\<lparr>t_posts := t_posts s @ [?p]\<rparr>"
  have row: "p_ID ?p = NewID d" "p_AuthorID ?p = np_AuthorID inp" "p_Caption ?p = np_Caption inp" "p_CreatedAt ?p = d_now d"
    by (simp_all add: new_post_row_def)
  have author: "pg_users s (np_AuthorID inp) = Some a"
    using a by (simp add: pg_users_frame)
  then have exists: "user_exists s (p_AuthorID ?p)"
    by (simp add: pg_users_exists row)
  have "join_posts [?p] (t_users s) = [hydrate ?p (Some a)]"
    using join_posts_map [OF s, of "[?p]"] exists author row by simp
  moreover have "\<not> (\<exists>x \<in> set (t_posts s). p_ID x = p_ID ?p)"
    using new row by (simp add: keyed_None_iff)
  ultimately have "insert_post ?p s = (Inr (hydrate ?p (Some a)), ?s)"
    using cap exists row unfolding insert_post_def by (simp add: first_row_def)
  moreover have "pg_inv pl ?s"
  proof (rule pg_inv_set_posts [OF s])
    show "distinct (map p_ID (t_posts s @ [?p]))"
      unfolding distinct_keys_snoc using pg_posts_keys [OF s] new row by simp
  qed (use pg_posts_row [OF s] exists d row in \<open>auto simp: pg_ok_def\<close>)
  moreover have "pg_posts ?s = (pg_posts s)(NewID d := Some ?p)"
    using keyed_snoc_new [of p_ID "t_posts s" ?p] new row by simp
  ultimately show ?thesis
    using d by (intro exI [of _ ?s]) (simp add: pg_post_Create_def pg_ok_def)
qed

lemma pg_post_ByID_law:
  assumes s: "pg_inv pl s" and d: "pg_ok pl d"
  shows "pg_post_ByID d i s = (case pg_posts s i of None \<Rightarrow> Inl ErrNotFound
      | Some p \<Rightarrow> Inr (hydrate p (pg_users (s\<lparr>t_posts := []\<rparr>) (p_AuthorID p))))"
proof -
  have "List.find (\<lambda>p. p_ID p = i) (map (\<lambda>p. hydrate p (pg_users s (p_AuthorID p))) (t_posts s)) =
      map_option (\<lambda>p. hydrate p (pg_users s (p_AuthorID p))) (pg_posts s i)"
    by (simp add: find_map keyed_def)
  then show ?thesis
    unfolding pg_users_frame using d pg_join_all [OF s]
    by (auto simp: pg_post_ByID_def pg_ok_def first_row_filter split: option.split)
qed

lemma pg_post_Delete_missing:
  assumes s: "pg_inv pl s" and d: "pg_ok pl d" and none: "pg_posts s i = None"
  shows "pg_post_Delete d i requester s = (Inl ErrNotFound, s)"
proof -
  have "filter (\<lambda>p. p_ID p = i) (t_posts s) = []"
    using filter_one_key [OF pg_posts_keys [OF s], of i] none by simp
  then show ?thesis
    using d by (simp add: pg_post_Delete_def delete_post_def pg_ok_def Let_def)
qed

lemma pg_post_Delete_forbidden:
  assumes s: "pg_inv pl s" and d: "pg_ok pl d" and p: "pg_posts s i = Some p" and other: "p_AuthorID p \<noteq> requester"
  shows "pg_post_Delete d i requester s = (Inl ErrForbidden, s)"
proof -
  have one: "filter (\<lambda>p. p_ID p = i) (t_posts s) = [p]"
    using filter_one_key [OF pg_posts_keys [OF s], of i] p by simp
  have "delete_post i requester s = ((1, 0), s)"
    unfolding delete_post_def Let_def one using other by simp
  then show ?thesis
    using d by (simp add: pg_post_Delete_def pg_ok_def)
qed

lemma pg_post_Delete_ok:
  assumes s: "pg_inv pl s" and d: "pg_ok pl d" and p: "pg_posts s i = Some p" and own: "p_AuthorID p = requester"
  shows "\<exists>s'. pg_post_Delete d i requester s = (Inr (), s') \<and> pg_inv pl s'
      \<and> s'\<lparr>t_posts := []\<rparr> = s\<lparr>t_posts := []\<rparr> \<and> pg_posts s' = (pg_posts s)(i := None)"
proof -
  let ?s = "s\<lparr>t_posts := filter (\<lambda>p. p_ID p \<noteq> i) (t_posts s)\<rparr>"
  have one: "filter (\<lambda>p. p_ID p = i) (t_posts s) = [p]"
    using filter_one_key [OF pg_posts_keys [OF s], of i] p by simp
  have "delete_post i requester s = ((1, 1), ?s)"
    unfolding delete_post_def Let_def one using own one keyed_key [OF p] by simp
  then have "pg_post_Delete d i requester s = (Inr (), ?s)"
    using d by (simp add: pg_post_Delete_def pg_ok_def)
  moreover have "pg_inv pl ?s"
    using pg_posts_keys [OF s] pg_posts_row [OF s] by (intro pg_inv_set_posts [OF s] distinct_keys_filter) auto
  moreover have "pg_posts ?s = (pg_posts s)(i := None)"
  proof
    fix j
    show "pg_posts ?s j = ((pg_posts s)(i := None)) j"
      using keyed_key [of p_ID "t_posts s" j]
      by (auto simp: keyed_filter [OF pg_posts_keys [OF s]] split: option.split)
  qed
  ultimately show ?thesis
    by (intro exI [of _ ?s]) simp
qed

lemma pg_post_Feed_law:
  assumes "pg_inv pl s" "pg_ok pl d" "feed_list L"
    and "set L = {hydrate p (pg_users (s\<lparr>t_posts := []\<rparr>) (p_AuthorID p)) |i p. pg_posts s i = Some p}"
  shows "pg_post_Feed pl layout_parse d req s = page_of (pg_timestamptz pl) layout_parse req L"
  using assms unfolding pg_users_frame pg_post_Feed_def by (intro pg_page_page_of) auto

lemma pg_post_ByAuthor_law:
  assumes "pg_inv pl s" "pg_ok pl d" "feed_list L"
    and "set L = {hydrate p (pg_users (s\<lparr>t_posts := []\<rparr>) (p_AuthorID p)) |i p. pg_posts s i = Some p \<and> p_AuthorID p = authorID}"
  shows "pg_post_ByAuthor pl layout_parse d authorID req s = page_of (pg_timestamptz pl) layout_parse req L"
  using assms unfolding pg_users_frame pg_post_ByAuthor_def by (intro pg_page_page_of) auto

lemmas pg_post_laws =
  pg_post_row pg_post_finite pg_post_Create_ok pg_post_ByID_law
  pg_post_Delete_missing pg_post_Delete_forbidden pg_post_Delete_ok pg_post_Feed_law
  pg_post_ByAuthor_law

interpretation pg_pst: post_store "pg_Posts pl layout_parse" pg_posts pg_users "pg_inv pl" "pg_ok pl"
  "\<lambda>db. db\<lparr>t_posts := []\<rparr>" "\<lambda>inp. rune_count (np_Caption inp) \<le> 2200" "pg_timestamptz pl" layout_parse
  for pl layout_parse
  by (unfold_locales, unfold pg_Posts_def PostStore.simps) (fact pg_post_laws | rule pg_post_laws; assumption)+

end
