(* ===== verification/SessionLaws.thy ===== *)
theory SessionLaws
  imports Sessions MemoryStore PostgresLaws
begin

text \<open>
  The session service over any token store that keeps the contract: what each call does to the
  token table, that every call is a step of the abstract machine, and that every run keeps its
  invariants.  The lemmas are proved once inside \<open>token_store\<close>, and reach both stores through
  the interpretations \<open>mem_tok\<close> and \<open>pg_tok\<close>.
\<close>

section \<open>What the contract of the token store gives\<close>

text \<open>The row a fresh token becomes, at the precision of the store.\<close>

definition stored_token ::
    "(time \<Rightarrow> time) \<Rightarrow> 's Service \<Rightarrow> (nat \<Rightarrow> Draw) \<Rightarrow> gostring \<Rightarrow> gostring \<Rightarrow> time \<Rightarrow> RefreshToken" where
  "stored_token stamp sv dr userID familyID c =
     (new_token sv dr userID familyID)\<lparr>rt_ExpiresAt := stamp (d_now (dr 2) + sv_refreshTTL sv), rt_CreatedAt := c\<rparr>"

lemma stored_token_sel [simp]:
  "rt_ID (stored_token stamp sv dr u f c) = NewID (dr 3)" "rt_UserID (stored_token stamp sv dr u f c) = u"
  "rt_FamilyID (stored_token stamp sv dr u f c) = f" "live (stored_token stamp sv dr u f c)"
  "rt_TokenHash (stored_token stamp sv dr u f c) = snd (NewRefreshToken (dr 1))"
  "rt_ExpiresAt (stored_token stamp sv dr u f c) = stamp (d_now (dr 2) + sv_refreshTTL sv)"
  by (simp_all add: stored_token_def new_token_def live_def)

context token_store
begin

lemma issue_ok:
  assumes "inv s" "\<forall>k. ok (dr k)" "sv_tokens sv = T" "known (frame s) userID" "fresh_draws (toks s) dr"
    and access: "IssueAccess jw (sv_issuer sv) (dr 0) userID = Inr (a, x)"
  shows "\<exists>s' c. issue jw sv dr userID familyID s =
      (Inr \<lparr>ss_UserID = userID, ss_AccessToken = a, ss_RefreshToken = fst (NewRefreshToken (dr 1)), ss_AccessExpiresAt = x\<rparr>, s')
    \<and> inv s' \<and> frame s' = frame s \<and> toks s' = (toks s)(NewID (dr 3) := Some (stored_token stamp sv dr userID familyID c))"
proof -
  have "\<exists>s' c. ts_Issue T (dr 4) (new_token sv dr userID familyID) s = (Inr (), s') \<and> inv s' \<and> frame s' = frame s
      \<and> toks s' = (toks s)(rt_ID (new_token sv dr userID familyID) :=
           Some ((new_token sv dr userID familyID)\<lparr>rt_ExpiresAt := stamp (rt_ExpiresAt (new_token sv dr userID familyID)), rt_CreatedAt := c\<rparr>))"
    using assms by (intro Issue) (auto simp: new_token_def fresh_draws_def)
  then show ?thesis
    using assms(3) access by (auto simp: issue_def stored_token_def new_token_def)
qed

lemma issue_unsigned:
  "IssueAccess jw (sv_issuer sv) (dr 0) userID = Inl e \<Longrightarrow> issue jw sv dr userID familyID s = (Inl e, s)"
  by (simp add: issue_def)

lemma token_lookup:
  assumes "inv s" "ok d"
  obtains (unknown) "\<And>i t. toks s i = Some t \<Longrightarrow> rt_TokenHash t \<noteq> h" "ts_ByHash T d h s = Inl ErrNotFound"
    | (found) i t where "toks s i = Some t" "rt_TokenHash t = h" "ts_ByHash T d h s = Inr t" "rt_ID t = i"
proof (cases "\<exists>i t. toks s i = Some t \<and> rt_TokenHash t = h")
  case True
  then show ?thesis
    using found ByHash_hit [OF assms] toks_ID [OF assms(1)] by blast
next
  case False
  then show ?thesis
    using unknown ByHash_miss [OF assms, of h] by blast
qed

lemma rotate_unknown:
  assumes "inv s" "\<forall>k. ok (dr k)" "sv_tokens sv = T"
    and "\<And>i t. toks s i = Some t \<Longrightarrow> rt_TokenHash t \<noteq> HashRefreshToken presented"
  shows "Rotate jw sv dr presented s = (Inl ErrTokenInvalid, s)"
  using assms ByHash_miss [OF assms(1), of "dr 5" "HashRefreshToken presented"] by (simp add: Rotate_def)

lemma rotate_replay:
  assumes "inv s" "\<forall>k. ok (dr k)" "sv_tokens sv = T" "presented \<noteq> []"
    and t: "toks s i = Some t" "rt_TokenHash t = HashRefreshToken presented" and used: "rt_UsedAt t \<noteq> None"
  shows "\<exists>s'. Rotate jw sv dr presented s = (Inl ErrTokenInvalid, s') \<and> inv s' \<and> frame s' = frame s
    \<and> toks s' = (\<lambda>i. map_option (revoke_if (\<lambda>u. rt_FamilyID u = rt_FamilyID t) (stamp (d_now (dr 6)))) (toks s i))"
proof -
  have "ts_ByHash T (dr 5) (HashRefreshToken presented) s = Inr t"
    using ByHash_hit [OF assms(1) _ t(1)] assms(2) t(2) by metis
  then show ?thesis
    using assms RevokeFamily [OF assms(1), of "dr 7" "rt_FamilyID t" "d_now (dr 6)"]
    by (auto simp: Rotate_def)
qed

lemma rotate_rejected:
  assumes "inv s" "\<forall>k. ok (dr k)" "sv_tokens sv = T" "presented \<noteq> []"
    and t: "toks s i = Some t" "rt_TokenHash t = HashRefreshToken presented" and unused: "rt_UsedAt t = None"
    and dead: "rt_RevokedAt t \<noteq> None \<or> rt_ExpiresAt t \<le> d_now (dr 6)"
  shows "Rotate jw sv dr presented s =
    (Inl (if rt_RevokedAt t \<noteq> None then ErrTokenInvalid else ErrTokenExpired), s)"
proof -
  have "ts_ByHash T (dr 5) (HashRefreshToken presented) s = Inr t"
    using ByHash_hit [OF assms(1) _ t(1)] assms(2) t(2) by metis
  then show ?thesis
    using assms by (auto simp: Rotate_def)
qed

lemma rotate_accepted:
  assumes "inv s" "\<forall>k. ok (dr k)" "sv_tokens sv = T" "presented \<noteq> []"
    and t: "toks s i = Some t" "rt_TokenHash t = HashRefreshToken presented"
    and active: "rt_Active t (d_now (dr 6))"
  shows "\<exists>s'. Rotate jw sv dr presented s = issue jw sv dr (rt_UserID t) (rt_FamilyID t) s' \<and> inv s' \<and> frame s' = frame s
    \<and> toks s' = (toks s)(i := Some (t\<lparr>rt_UsedAt := Some (stamp (d_now (dr 6)))\<rparr>))"
proof -
  have hit: "ts_ByHash T (dr 5) (HashRefreshToken presented) s = Inr t"
    using ByHash_hit [OF assms(1) _ t(1)] assms(2) t(2) by metis
  have "rt_ID t = i"
    using toks_ID assms(1) t(1) .
  then show ?thesis
    using assms hit MarkUsed_hit [OF assms(1) _ t(1), of "dr 7" "d_now (dr 6)"]
    by (auto simp: Rotate_def rt_Active_def)
qed

lemma fresh_draws_use:
  "fresh_draws m dr \<Longrightarrow> m i = Some t \<Longrightarrow> fresh_draws (m(i := Some (t\<lparr>rt_UsedAt := Some at\<rparr>))) dr"
  by (auto simp: fresh_draws_def)

text \<open>Every call of the service is a step of the abstract machine.\<close>

lemma start_step:
  assumes "inv s" "\<forall>k. ok (dr k)" "sv_tokens sv = T" "known (frame s) userID" "fresh_draws (toks s) dr"
    and new: "NewID (dr 5) \<notin> F"
  shows "inv (snd (Start jw sv dr userID s))"
    and "\<exists>F'. F' \<subseteq> insert (NewID (dr 5)) F \<and> F \<subseteq> F' \<and> tok_step (toks s, F) (toks (snd (Start jw sv dr userID s)), F')"
proof -
  consider (unsigned) e where "IssueAccess jw (sv_issuer sv) (dr 0) userID = Inl e"
    | (signed) a x where "IssueAccess jw (sv_issuer sv) (dr 0) userID = Inr (a, x)"
    by (cases "IssueAccess jw (sv_issuer sv) (dr 0) userID") auto
  then have "inv (snd (Start jw sv dr userID s)) \<and>
    (\<exists>F'. F' \<subseteq> insert (NewID (dr 5)) F \<and> F \<subseteq> F' \<and> tok_step (toks s, F) (toks (snd (Start jw sv dr userID s)), F'))"
  proof cases
    case unsigned
    then show ?thesis
      using assms(1) tok_step.skip [of "toks s" F] by (auto simp: Start_def issue_unsigned)
  next
    case signed
    obtain s' c where s': "inv s'" "snd (Start jw sv dr userID s) = s'"
      "toks s' = (toks s)(NewID (dr 3) := Some (stored_token stamp sv dr userID (NewID (dr 5)) c))"
      using issue_ok [OF assms(1-5) signed, of "NewID (dr 5)"] by (auto simp: Start_def)
    have "tok_step (toks s, F) (toks s', insert (NewID (dr 5)) F)"
      using tok_step.start [of "toks s" "NewID (dr 3)" "stored_token stamp sv dr userID (NewID (dr 5)) c" F]
        assms(5) new s'(3) by (simp add: fresh_draws_def)
    then show ?thesis
      using s'(1,2) by blast
  qed
  then show "inv (snd (Start jw sv dr userID s))"
    and "\<exists>F'. F' \<subseteq> insert (NewID (dr 5)) F \<and> F \<subseteq> F' \<and> tok_step (toks s, F) (toks (snd (Start jw sv dr userID s)), F')"
    by blast+
qed

lemma rotate_active_step:
  assumes s: "inv s" and ok: "\<forall>k. ok (dr k)" and T: "sv_tokens sv = T" and fresh: "fresh_draws (toks s) dr" and "presented \<noteq> []"
    and found: "toks s i = Some t" "rt_TokenHash t = HashRefreshToken presented" and active: "rt_Active t (d_now (dr 6))"
  shows "inv (snd (Rotate jw sv dr presented s)) \<and> tok_step (toks s, F) (toks (snd (Rotate jw sv dr presented s)), F)"
proof -
  have live: "live t"
    using active by (simp add: live_def rt_Active_def)
  obtain s1 at where s1: "Rotate jw sv dr presented s = issue jw sv dr (rt_UserID t) (rt_FamilyID t) s1"
    "inv s1" "frame s1 = frame s" "toks s1 = (toks s)(i := Some (t\<lparr>rt_UsedAt := Some at\<rparr>))"
    using rotate_accepted [OF s ok T assms(5) found active] by blast
  have known: "known (frame s1) (rt_UserID t)" and fresh1: "fresh_draws (toks s1) dr"
    using toks_known [OF s found(1)] s1(3,4) fresh_draws_use [OF fresh found(1)] by simp_all
  show ?thesis
  proof (cases "IssueAccess jw (sv_issuer sv) (dr 0) (rt_UserID t)")
    case (Inl e)
    then show ?thesis
      using s1 tok_step.consume [of "toks s" i t F at] found(1) live by (simp add: issue_unsigned)
  next
    case (Inr ax)
    then obtain a x where ax: "IssueAccess jw (sv_issuer sv) (dr 0) (rt_UserID t) = Inr (a, x)"
      by (cases ax) auto
    obtain s' c where s': "inv s'" "snd (Rotate jw sv dr presented s) = s'"
      "toks s' = (toks s1)(NewID (dr 3) := Some (stored_token stamp sv dr (rt_UserID t) (rt_FamilyID t) c))"
      using issue_ok [OF s1(2) ok T known fresh1 ax, of "rt_FamilyID t"] s1(1) by auto
    then show ?thesis
      using tok_step.exchange [of "toks s" i t "NewID (dr 3)" "stored_token stamp sv dr (rt_UserID t) (rt_FamilyID t) c" F at]
        found(1) live fresh s1(4) by (simp add: fresh_draws_def)
  qed
qed

lemma rotate_step:
  assumes s: "inv s" and ok: "\<forall>k. ok (dr k)" and T: "sv_tokens sv = T" and fresh: "fresh_draws (toks s) dr"
  shows "inv (snd (Rotate jw sv dr presented s)) \<and> tok_step (toks s, F) (toks (snd (Rotate jw sv dr presented s)), F)"
proof (cases "presented = []")
  case True
  then show ?thesis
    using s by (simp add: Rotate_def tok_step.skip)
next
  case presented: False
  from s ok [THEN spec, of 5] show ?thesis
  proof (cases rule: token_lookup [of s "dr 5" "HashRefreshToken presented"])
    case unknown
    then show ?thesis
      using rotate_unknown [OF s ok T unknown(1)] s by (simp add: tok_step.skip)
  next
    case (found i t)
    consider (used) "rt_UsedAt t \<noteq> None" | (dead) "rt_UsedAt t = None" "rt_RevokedAt t \<noteq> None \<or> rt_ExpiresAt t \<le> d_now (dr 6)"
      | (active) "rt_Active t (d_now (dr 6))"
      unfolding rt_Active_def by fastforce
    then show ?thesis
    proof cases
      case used
      then show ?thesis
        using rotate_replay [OF s ok T presented found(1,2), where jw = jw] tok_step.revoke [of "toks s" F] by auto
    next
      case dead
      then show ?thesis
        using rotate_rejected [OF s ok T presented found(1,2)] s by (simp add: tok_step.skip)
    next
      case active
      then show ?thesis
        by (rule rotate_active_step [OF s ok T fresh presented found(1,2)])
    qed
  qed
qed

lemma revoke_found:
  assumes "inv s" "\<forall>k. ok (dr k)" "sv_tokens sv = T" "presented \<noteq> []"
    and t: "toks s i = Some t" "rt_TokenHash t = HashRefreshToken presented"
  shows "\<exists>s'. Revoke sv dr presented s = (Inr (), s') \<and> inv s' \<and> frame s' = frame s
    \<and> toks s' = (\<lambda>i. map_option (revoke_if (\<lambda>u. rt_FamilyID u = rt_FamilyID t) (stamp (d_now (dr 2)))) (toks s i))"
proof -
  have "ts_ByHash T (dr 0) (HashRefreshToken presented) s = Inr t"
    using ByHash_hit [OF assms(1) _ t(1)] assms(2) t(2) by metis
  then show ?thesis
    using assms RevokeFamily [OF assms(1), of "dr 1" "rt_FamilyID t" "d_now (dr 2)"]
    by (auto simp: Revoke_def)
qed

lemma revoke_unknown:
  assumes "inv s" "\<forall>k. ok (dr k)" "sv_tokens sv = T"
    and "\<And>i t. toks s i = Some t \<Longrightarrow> rt_TokenHash t \<noteq> HashRefreshToken presented"
  shows "Revoke sv dr presented s = (Inr (), s)"
  using assms ByHash_miss [OF assms(1), of "dr 0" "HashRefreshToken presented"] by (simp add: Revoke_def)

lemma revoke_step:
  assumes s: "inv s" and ok: "\<forall>k. ok (dr k)" and T: "sv_tokens sv = T"
  shows "inv (snd (Revoke sv dr presented s)) \<and> tok_step (toks s, F) (toks (snd (Revoke sv dr presented s)), F)"
proof (cases "presented = []")
  case True
  then show ?thesis
    using s by (simp add: Revoke_def tok_step.skip)
next
  case presented: False
  have ok0: "ok (dr 0)"
    using ok by blast
  from s ok0 show ?thesis
  proof (cases rule: token_lookup [of s "dr 0" "HashRefreshToken presented"])
    case unknown
    then show ?thesis
      using revoke_unknown [OF s ok T unknown(1)] s by (simp add: tok_step.skip)
  next
    case (found i t)
    then show ?thesis
      using revoke_found [OF s ok T presented found(1,2)] tok_step.revoke [of "toks s" F] by auto
  qed
qed

lemma revoke_all_step:
  assumes "inv s" "\<forall>k. ok (dr k)" "sv_tokens sv = T"
  shows "inv (snd (RevokeAllForUser sv dr userID s)) \<and>
    tok_step (toks s, F) (toks (snd (RevokeAllForUser sv dr userID s)), F)"
  using assms RevokeAll [OF assms(1), of "dr 0" userID "d_now (dr 1)"] tok_step.revoke [of "toks s" F]
  by (auto simp: RevokeAllForUser_def)

lemma expire_step:
  assumes "inv s" "ok d"
  shows "inv (snd (ts_DeleteExpired T d before s)) \<and> tok_step (toks s, F) (toks (snd (ts_DeleteExpired T d before s)), F)"
  using DeleteExpired [OF assms, of before] tok_step.delete [of "toks s" F "\<lambda>t. rt_ExpiresAt t < stamp before"] by auto

text \<open>So every run keeps the invariants, and a dead family stays dead for all of it.\<close>

definition session_ok :: "'s \<times> gostring set \<Rightarrow> bool" where
  "session_ok x \<longleftrightarrow> inv (fst x) \<and> family_inv (toks (fst x), snd x)"

lemma session_ok_step:
  assumes "session_ok (s, F)" and "inv s'" and "F1 \<subseteq> F'" and "tok_step (toks s, F) (toks s', F1)"
  shows "session_ok (s', F')" and "F \<subseteq> F'" and "dead_family f (toks s, F) \<Longrightarrow> dead_family f (toks s', F')"
proof -
  have "family_inv (toks s', F1)"
    using assms(1) tok_step_family_inv [OF assms(4)] by (simp add: session_ok_def)
  from family_invD [OF this] have "family_inv (toks s', F')"
    using assms(3) by (intro family_invI) blast+
  then show "session_ok (s', F')"
    using assms(2) by (simp add: session_ok_def)
  show "F \<subseteq> F'"
    using tok_step_grows [OF assms(4)] assms(3) by auto
  show "dead_family f (toks s, F) \<Longrightarrow> dead_family f (toks s', F')"
    using tok_step_dead [OF assms(4), of f] assms(1,3) by (auto simp: session_ok_def dead_family_def)
qed

lemma run_ok:
  assumes "session_run toks (\<lambda>s. known (frame s)) ok jw sv x y" and "sv_tokens sv = T" and "session_ok x"
  shows "session_ok y \<and> (dead_family f (toks (fst x), snd x) \<longrightarrow> dead_family f (toks (fst y), snd y))"
  using assms
proof (induction rule: session_run.induct)
  case (start s F dr userID)
  then have inv: "session_ok (s, F)" "inv s"
    by (auto simp: session_ok_def)
  obtain F' where F': "F' \<subseteq> insert (NewID (dr 5)) F"
    "tok_step (toks s, F) (toks (snd (Start jw sv dr userID s)), F')"
    using start_step(2) [OF inv(2) start.hyps(2) start.prems(1) start.hyps(3,4,5)] by blast
  note step = session_ok_step [OF inv(1) start_step(1) [OF inv(2) start.hyps(2) start.prems(1) start.hyps(3,4,5)] F']
  show ?case
    using step start by auto
next
  case (rotate s F dr presented)
  then have inv: "session_ok (s, F)" "inv s"
    by (auto simp: session_ok_def)
  note r = rotate_step [OF inv(2) rotate.hyps(2) rotate.prems(1) rotate.hyps(3), of jw presented F]
  show ?case
    using session_ok_step [OF inv(1) conjunct1 [OF r] order.refl conjunct2 [OF r]] rotate by auto
next
  case (revoke s F dr presented)
  then have inv: "session_ok (s, F)" "inv s"
    by (auto simp: session_ok_def)
  note r = revoke_step [OF inv(2) revoke.hyps(2) revoke.prems(1), of presented F]
  show ?case
    using session_ok_step [OF inv(1) conjunct1 [OF r] order.refl conjunct2 [OF r]] revoke by auto
next
  case (revoke_all s F dr userID)
  then have inv: "session_ok (s, F)" "inv s"
    by (auto simp: session_ok_def)
  note r = revoke_all_step [OF inv(2) revoke_all.hyps(2) revoke_all.prems(1), of userID F]
  show ?case
    using session_ok_step [OF inv(1) conjunct1 [OF r] order.refl conjunct2 [OF r]] revoke_all by auto
next
  case (expire s F d before)
  then have inv: "session_ok (s, F)" "inv s"
    by (auto simp: session_ok_def)
  note r = expire_step [OF inv(2) expire.hyps(2), of before F]
  show ?case
    using session_ok_step [OF inv(1) conjunct1 [OF r] order.refl conjunct2 [OF r]] expire by auto
qed auto

text \<open>A token of a dead family is never exchanged.\<close>

lemma rotate_dead:
  assumes s: "inv s" and ok: "\<forall>k. ok (dr k)" and T: "sv_tokens sv = T"
    and dead: "\<And>i t. toks s i = Some t \<Longrightarrow> rt_TokenHash t = HashRefreshToken presented \<Longrightarrow> \<not> live t"
  shows "fst (Rotate jw sv dr presented s) = Inl ErrTokenInvalid"
proof (cases "presented = []")
  case True
  then show ?thesis
    by (simp add: Rotate_def)
next
  case presented: False
  have ok5: "ok (dr 5)"
    using ok by blast
  from s ok5 show ?thesis
  proof (cases rule: token_lookup [of s "dr 5" "HashRefreshToken presented"])
    case unknown
    then show ?thesis
      using rotate_unknown [OF s ok T unknown(1)] by simp
  next
    case (found i t)
    then have "rt_UsedAt t \<noteq> None \<or> rt_UsedAt t = None \<and> rt_RevokedAt t \<noteq> None"
      using dead by (auto simp: live_def)
    then show ?thesis
      using rotate_replay [OF s ok T presented found(1,2), where jw = jw]
        rotate_rejected [OF s ok T presented found(1,2), where jw = jw] by auto
  qed
qed

end

end
