(* ===== verification/Concurrency.thy ===== *)
theory Concurrency
  imports SessionLaws
begin

text \<open>
  Requests run concurrently, and only the single store calls are atomic.  A request is a
  program counter that performs one store call per step; the local tests between two calls
  belong to the step before.  \<open>conc_step\<close> cuts \<open>Rotate\<close> and \<open>Revoke\<close> at those calls.
\<close>

section \<open>Requests, one store call at a time\<close>

datatype request_pc =
    RotLookup gostring
  | RotRevokeReplay RefreshToken time
  | RotMark RefreshToken time
  | RotRevokeRace RefreshToken time
  | RotIssue RefreshToken
  | OutLookup gostring
  | OutRevoke RefreshToken
  | RotDone "RefreshToken option" "auth_error + Session"
  | OutDone "auth_error + unit"

fun conc_step :: "JwtLib \<Rightarrow> 's Service \<Rightarrow> (nat \<Rightarrow> Draw) \<Rightarrow> request_pc \<Rightarrow> 's \<Rightarrow> request_pc \<times> 's" where
  "conc_step jw sv dr (RotLookup presented) s =
     (if presented = [] then (RotDone None (Inl ErrTokenInvalid), s)
      else case ts_ByHash (sv_tokens sv) (dr 5) (HashRefreshToken presented) s of
        Inl ErrNotFound \<Rightarrow> (RotDone None (Inl ErrTokenInvalid), s)
      | Inl e \<Rightarrow> (RotDone None (Inl (AuthStore ''looking up refresh token'' e)), s)
      | Inr token \<Rightarrow>
          let now = d_now (dr 6)
          in if rt_UsedAt token \<noteq> None then (RotRevokeReplay token now, s)
             else if rt_RevokedAt token \<noteq> None then (RotDone (Some token) (Inl ErrTokenInvalid), s)
             else if \<not> now < rt_ExpiresAt token then (RotDone (Some token) (Inl ErrTokenExpired), s)
             else (RotMark token now, s))"
| "conc_step jw sv dr (RotRevokeReplay token now) s =
     (case ts_RevokeFamily (sv_tokens sv) (dr 7) (rt_FamilyID token) now s of
        (Inl e, s') \<Rightarrow> (RotDone (Some token) (Inl (AuthStore ''revoking replayed token family'' e)), s')
      | (Inr _, s') \<Rightarrow> (RotDone (Some token) (Inl ErrTokenInvalid), s'))"
| "conc_step jw sv dr (RotMark token now) s =
     (case ts_MarkUsed (sv_tokens sv) (dr 7) (rt_ID token) now s of
        (Inl ErrNotFound, s') \<Rightarrow> (RotRevokeRace token now, s')
      | (Inl e, s') \<Rightarrow> (RotDone (Some token) (Inl (AuthStore ''consuming refresh token'' e)), s')
      | (Inr _, s') \<Rightarrow> (RotIssue token, s'))"
| "conc_step jw sv dr (RotRevokeRace token now) s =
     (case ts_RevokeFamily (sv_tokens sv) (dr 8) (rt_FamilyID token) now s of
        (Inl e, s') \<Rightarrow> (RotDone (Some token) (Inl (AuthStore ''revoking raced token family'' e)), s')
      | (Inr _, s') \<Rightarrow> (RotDone (Some token) (Inl ErrTokenInvalid), s'))"
| "conc_step jw sv dr (RotIssue token) s =
     apfst (RotDone (Some token)) (issue jw sv dr (rt_UserID token) (rt_FamilyID token) s)"
| "conc_step jw sv dr (OutLookup presented) s =
     (if presented = [] then (OutDone (Inr ()), s)
      else case ts_ByHash (sv_tokens sv) (dr 0) (HashRefreshToken presented) s of
        Inl ErrNotFound \<Rightarrow> (OutDone (Inr ()), s)
      | Inl e \<Rightarrow> (OutDone (Inl (AuthStore ''looking up refresh token'' e)), s)
      | Inr token \<Rightarrow> (OutRevoke token, s))"
| "conc_step jw sv dr (OutRevoke token) s =
     (case ts_RevokeFamily (sv_tokens sv) (dr 1) (rt_FamilyID token) (d_now (dr 2)) s of
        (Inl e, s') \<Rightarrow> (OutDone (Inl (AuthStore [] e)), s')
      | (Inr _, s') \<Rightarrow> (OutDone (Inr ()), s'))"
| "conc_step jw sv dr (RotDone t r) s = (RotDone t r, s)"
| "conc_step jw sv dr (OutDone r) s = (OutDone r, s)"

text \<open>A request that runs alone, for \<open>n\<close> steps.\<close>

fun alone :: "JwtLib \<Rightarrow> 's Service \<Rightarrow> (nat \<Rightarrow> Draw) \<Rightarrow> nat \<Rightarrow> request_pc \<times> 's \<Rightarrow> request_pc \<times> 's" where
  "alone jw sv dr 0 x = x"
| "alone jw sv dr (Suc n) (pc, s) = alone jw sv dr n (conc_step jw sv dr pc s)"

fun rot_result :: "request_pc \<times> 's \<Rightarrow> ((auth_error + Session) \<times> 's) option" where
  "rot_result (RotDone t r, s) = Some (r, s)"
| "rot_result _ = None"

fun out_result :: "request_pc \<times> 's \<Rightarrow> ((auth_error + unit) \<times> 's) option" where
  "out_result (OutDone r, s) = Some (r, s)"
| "out_result _ = None"

text \<open>Four steps are enough for either request, and alone they are the sequential functions.\<close>

lemma alone_RotDone [simp]: "alone jw sv dr n (RotDone t r, s) = (RotDone t r, s)"
  by (induction n) auto

lemma alone_OutDone [simp]: "alone jw sv dr n (OutDone r, s) = (OutDone r, s)"
  by (induction n) auto

lemma rot_result_apfst: "rot_result (apfst (RotDone t) x) = Some x"
  by (cases x) simp

lemma rot_result_alone_apfst: "rot_result (alone jw sv dr n (apfst (RotDone t) x)) = Some x"
  by (cases x) simp

lemma rotate_alone: "rot_result (alone jw sv dr 4 (RotLookup presented, s)) = Some (Rotate jw sv dr presented s)"
  by (auto simp: Rotate_def Let_def rot_result_alone_apfst rot_result_apfst numeral_eq_Suc
      split: sum.split store_error.split prod.split)

lemma revoke_alone: "out_result (alone jw sv dr 4 (OutLookup presented, s)) = Some (Revoke sv dr presented s)"
  by (auto simp: Revoke_def numeral_eq_Suc split: sum.split store_error.split prod.split)

section \<open>Interleavings\<close>

text \<open>
  Any number of requests, numbered; one of them makes a step with whatever the clock, the
  random generator and the runtime give it then.
\<close>

inductive interleave ::
    "('s \<Rightarrow> gostring \<Rightarrow> RefreshToken option) \<Rightarrow> (Draw \<Rightarrow> bool) \<Rightarrow> JwtLib \<Rightarrow> 's Service
      \<Rightarrow> (nat \<Rightarrow> request_pc) \<times> 's \<Rightarrow> (nat \<Rightarrow> request_pc) \<times> 's \<Rightarrow> bool"
  for toks ok jw sv x where
  init: "interleave toks ok jw sv x x"
| step: "interleave toks ok jw sv x (pcs, s) \<Longrightarrow> \<forall>k. ok (dr k) \<Longrightarrow> fresh_draws (toks s) dr \<Longrightarrow>
    conc_step jw sv dr (pcs n) s = (pc', s') \<Longrightarrow>
    interleave toks ok jw sv x (pcs(n := pc'), s')"

text \<open>The token a request works on.\<close>

fun pc_token :: "request_pc \<Rightarrow> RefreshToken option" where
  "pc_token (RotLookup _) = None"
| "pc_token (RotRevokeReplay t _) = Some t"
| "pc_token (RotMark t _) = Some t"
| "pc_token (RotRevokeRace t _) = Some t"
| "pc_token (RotIssue t) = Some t"
| "pc_token (OutLookup _) = None"
| "pc_token (OutRevoke t) = Some t"
| "pc_token (RotDone t _) = t"
| "pc_token (OutDone _) = None"

text \<open>A request that has consumed a token: it is about to issue, or has answered with a session.\<close>

fun won :: "request_pc \<Rightarrow> RefreshToken option" where
  "won (RotIssue t) = Some t"
| "won (RotDone (Some t) (Inr _)) = Some t"
| "won _ = None"

context token_store
begin

text \<open>What one step of one request may do to the rows and to its own counter.\<close>

definition rows_grow :: "'s \<Rightarrow> 's \<Rightarrow> bool" where
  "rows_grow s s' \<longleftrightarrow> (\<forall>i u. toks s i = Some u \<longrightarrow> (\<exists>v. toks s' i = Some v \<and> rt_TokenHash v = rt_TokenHash u
     \<and> (rt_UsedAt u \<noteq> None \<longrightarrow> rt_UsedAt v \<noteq> None)))"

lemma rows_grow_refl: "rows_grow s s"
  by (simp add: rows_grow_def)

lemma rows_grow_revoke: "toks s' = (\<lambda>i. map_option (revoke_if P at) (toks s i)) \<Longrightarrow> rows_grow s s'"
  by (simp add: rows_grow_def)

definition step_ok :: "request_pc \<Rightarrow> 's \<Rightarrow> request_pc \<Rightarrow> 's \<Rightarrow> bool" where
  "step_ok pc s pc' s' \<longleftrightarrow> inv s' \<and> frame s' = frame s \<and> rows_grow s s'
     \<and> (\<forall>t. pc_token pc' = Some t \<longrightarrow> pc_token pc = Some t
          \<or> (\<exists>p. (pc = RotLookup p \<or> pc = OutLookup p) \<and> toks s (rt_ID t) = Some t \<and> rt_TokenHash t = HashRefreshToken p))
     \<and> (\<forall>t. won pc' = Some t \<longrightarrow> won pc = Some t
          \<or> (\<exists>u v. toks s (rt_ID t) = Some u \<and> rt_UsedAt u = None \<and> toks s' (rt_ID t) = Some v \<and> rt_UsedAt v \<noteq> None))"

lemma step_ok_same:
  assumes "inv s" and "\<And>t. pc_token pc' = Some t \<Longrightarrow> pc_token pc = Some t" and "\<And>t. won pc' = Some t \<Longrightarrow> won pc = Some t"
  shows "step_ok pc s pc' s"
  using assms by (simp add: step_ok_def rows_grow_refl)

lemma step_ok_revoke:
  assumes s: "inv s" "ok d" and f: "\<exists>s'. r = (Inr (), s') \<and> inv s' \<and> frame s' = frame s
      \<and> toks s' = (\<lambda>i. map_option (revoke_if P at) (toks s i))"
    and run: "(pc', s') = (case r of (Inl e, s') \<Rightarrow> (E e, s') | (Inr u, s') \<Rightarrow> (D, s'))"
    and t: "pc_token D = pc_token pc \<or> pc_token D = None" "won D = None"
  shows "step_ok pc s pc' s'"
proof -
  obtain s1 where s1: "r = (Inr (), s1)" "inv s1" "frame s1 = frame s" "toks s1 = (\<lambda>i. map_option (revoke_if P at) (toks s i))"
    using f by blast
  then have "pc' = D" "s' = s1"
    using run by simp_all
  then show ?thesis
    using s1 t rows_grow_revoke [OF s1(4)] by (auto simp: step_ok_def)
qed

lemma step_ok_lookup:
  assumes s: "inv s" and ok: "ok d" and p: "pc = RotLookup p \<or> pc = OutLookup p"
    and run: "(pc', s') = (if p = [] then (N, s) else case ts_ByHash T d (HashRefreshToken p) s of
        Inl ErrNotFound \<Rightarrow> (N, s) | Inl e \<Rightarrow> (E e, s) | Inr t \<Rightarrow> (F t, s))"
    and t: "pc_token N = None" "won N = None" "\<And>t. pc_token (F t) = Some t" "\<And>t. won (F t) = None"
  shows "step_ok pc s pc' s'"
proof -
  have none: "pc_token pc = None" "won pc = None"
    using p by auto
  from s ok show ?thesis
  proof (cases rule: token_lookup [of s d "HashRefreshToken p"])
    case unknown
    then have "pc' = N" "s' = s"
      using run by (auto split: if_splits)
    then show ?thesis
      using t s none by (auto simp: step_ok_def rows_grow_refl)
  next
    case (found i u)
    then have "s' = s" "pc' = N \<or> pc' = F u"
      using run by (auto split: if_splits)
    then show ?thesis
      using t s none p found by (auto simp: step_ok_def rows_grow_refl)
  qed
qed

lemma step_ok_mark:
  assumes s: "inv s" and ok: "\<forall>k. ok (dr k)" and T: "sv_tokens sv = T"
    and run: "conc_step jw sv dr (RotMark token now) s = (pc', s')"
  shows "step_ok (RotMark token now) s pc' s'"
proof (cases "\<exists>u. toks s (rt_ID token) = Some u \<and> rt_UsedAt u = None")
  case True
  then obtain u where u: "toks s (rt_ID token) = Some u" "rt_UsedAt u = None"
    by blast
  have "ok (dr 7)"
    using ok by blast
  from MarkUsed_hit [OF s this u, of now] obtain s1 where s1: "ts_MarkUsed T (dr 7) (rt_ID token) now s = (Inr (), s1)"
    "inv s1" "frame s1 = frame s" "toks s1 = (toks s)(rt_ID token := Some (u\<lparr>rt_UsedAt := Some (stamp now)\<rparr>))"
    by blast
  then have "pc' = RotIssue token" "s' = s1"
    using run T by simp_all
  then show ?thesis
    using s1 u by (auto simp: step_ok_def rows_grow_def)
next
  case False
  have "ok (dr 7)"
    using ok by blast
  from MarkUsed_miss [OF s this, of "rt_ID token" now] False have "pc' = RotRevokeRace token now" "s' = s"
    using run T by auto
  then show ?thesis
    using s by (auto intro: step_ok_same)
qed

lemma step_ok_issue:
  assumes s: "inv s" and ok: "\<forall>k. ok (dr k)" and T: "sv_tokens sv = T" and fresh: "fresh_draws (toks s) dr"
    and known: "known (frame s) (rt_UserID token)"
    and run: "conc_step jw sv dr (RotIssue token) s = (pc', s')"
  shows "step_ok (RotIssue token) s pc' s'"
proof (cases "IssueAccess jw (sv_issuer sv) (dr 0) (rt_UserID token)")
  case (Inl e)
  then have "pc' = RotDone (Some token) (Inl e)" "s' = s"
    using run by (simp_all add: issue_unsigned)
  then show ?thesis
    using s by (auto intro: step_ok_same)
next
  case (Inr ax)
  then obtain a x where ax: "IssueAccess jw (sv_issuer sv) (dr 0) (rt_UserID token) = Inr (a, x)"
    by (cases ax) auto
  obtain s1 c r where s1: "issue jw sv dr (rt_UserID token) (rt_FamilyID token) s = (Inr r, s1)" "inv s1" "frame s1 = frame s"
    "toks s1 = (toks s)(NewID (dr 3) := Some (stored_token stamp sv dr (rt_UserID token) (rt_FamilyID token) c))"
    using issue_ok [OF s ok T known fresh ax, of "rt_FamilyID token"] by blast
  then have "pc' = RotDone (Some token) (Inr r)" "s' = s1"
    using run by simp_all
  then show ?thesis
    using s1 fresh by (auto simp: step_ok_def rows_grow_def fresh_draws_def)
qed

lemma step_ok_rot_lookup:
  assumes s: "inv s" and ok: "\<forall>k. ok (dr k)" and T: "sv_tokens sv = T"
    and run: "conc_step jw sv dr (RotLookup p) s = (pc', s')"
  shows "step_ok (RotLookup p) s pc' s'"
  by (rule step_ok_lookup [OF s ok [THEN spec, of 5] disjI1 [OF refl], where N = "RotDone None (Inl ErrTokenInvalid)"
        and E = "\<lambda>e. RotDone None (Inl (AuthStore ''looking up refresh token'' e))"
        and F = "\<lambda>t. if rt_UsedAt t \<noteq> None then RotRevokeReplay t (d_now (dr 6))
          else if rt_RevokedAt t \<noteq> None then RotDone (Some t) (Inl ErrTokenInvalid)
          else if \<not> d_now (dr 6) < rt_ExpiresAt t then RotDone (Some t) (Inl ErrTokenExpired)
          else RotMark t (d_now (dr 6))"])
    (use run T in \<open>auto simp: Let_def split: sum.splits store_error.splits\<close>)

lemma conc_step_ok:
  assumes s: "inv s" and ok: "\<forall>k. ok (dr k)" and T: "sv_tokens sv = T" and fresh: "fresh_draws (toks s) dr"
    and known: "\<And>t. pc_token pc = Some t \<Longrightarrow> known (frame s) (rt_UserID t)"
    and run: "conc_step jw sv dr pc s = (pc', s')"
  shows "step_ok pc s pc' s'"
proof (cases pc)
  case (RotLookup p)
  then show ?thesis
    using step_ok_rot_lookup [OF s ok T] run by simp
next
  case (OutLookup p)
  show ?thesis
    by (rule step_ok_lookup [OF s ok [THEN spec, of 0] disjI2 [OF OutLookup], where N = "OutDone (Inr ())"
          and E = "\<lambda>e. OutDone (Inl (AuthStore ''looking up refresh token'' e))" and F = OutRevoke])
      (use run OutLookup T in \<open>auto split: sum.splits store_error.splits\<close>)
next
  case (RotRevokeReplay token now)
  note ok7 = ok [THEN spec, of 7]
  show ?thesis
    by (rule step_ok_revoke [OF s ok7 RevokeFamily [OF s ok7, of "rt_FamilyID token" now],
          where D = "RotDone (Some token) (Inl ErrTokenInvalid)"
          and E = "\<lambda>e. RotDone (Some token) (Inl (AuthStore ''revoking replayed token family'' e))"])
      (use run RotRevokeReplay T in \<open>auto split: sum.splits prod.splits\<close>)
next
  case (RotRevokeRace token now)
  note ok8 = ok [THEN spec, of 8]
  show ?thesis
    by (rule step_ok_revoke [OF s ok8 RevokeFamily [OF s ok8, of "rt_FamilyID token" now],
          where D = "RotDone (Some token) (Inl ErrTokenInvalid)"
          and E = "\<lambda>e. RotDone (Some token) (Inl (AuthStore ''revoking raced token family'' e))"])
      (use run RotRevokeRace T in \<open>auto split: sum.splits prod.splits\<close>)
next
  case (OutRevoke token)
  note ok1 = ok [THEN spec, of 1]
  show ?thesis
    by (rule step_ok_revoke [OF s ok1 RevokeFamily [OF s ok1, of "rt_FamilyID token" "d_now (dr 2)"],
          where D = "OutDone (Inr ())" and E = "\<lambda>e. OutDone (Inl (AuthStore [] e))"])
      (use run OutRevoke T in \<open>auto split: sum.splits prod.splits\<close>)
next
  case (RotMark token now)
  then show ?thesis
    using step_ok_mark [OF s ok T] run by simp
next
  case (RotIssue token)
  then show ?thesis
    using step_ok_issue [OF s ok T fresh known] run by simp
qed (use s run in \<open>simp_all add: step_ok_same\<close>)

text \<open>
  The invariant of an interleaving in which request \<open>n\<close> presented \<open>p n\<close>: the counters hold rows
  of the table, a consumed token is marked there, and no two requests have consumed the same.
\<close>

definition conc_ok :: "(nat \<Rightarrow> gostring) \<Rightarrow> (nat \<Rightarrow> request_pc) \<Rightarrow> 's \<Rightarrow> bool" where
  "conc_ok p pcs s \<longleftrightarrow> inv s
     \<and> (\<forall>n. (\<forall>q. pcs n = RotLookup q \<or> pcs n = OutLookup q \<longrightarrow> q = p n) \<and> (\<forall>r. pcs n \<noteq> RotDone None (Inr r)))
     \<and> (\<forall>n t. pc_token (pcs n) = Some t \<longrightarrow> known (frame s) (rt_UserID t) \<and> rt_TokenHash t = HashRefreshToken (p n)
          \<and> (\<exists>u. toks s (rt_ID t) = Some u \<and> rt_TokenHash u = rt_TokenHash t))
     \<and> (\<forall>n t. won (pcs n) = Some t \<longrightarrow> (\<exists>u. toks s (rt_ID t) = Some u \<and> rt_UsedAt u \<noteq> None))
     \<and> (\<forall>m n t u. m \<noteq> n \<longrightarrow> won (pcs m) = Some t \<longrightarrow> won (pcs n) = Some u \<longrightarrow> rt_ID t \<noteq> rt_ID u)"

lemma conc_step_not_lookup:
  "conc_step jw sv dr pc s = (pc', s') \<Longrightarrow>
     pc' \<noteq> RotLookup q \<and> pc' \<noteq> OutLookup q \<and> (pc \<noteq> RotDone None (Inr r) \<longrightarrow> pc' \<noteq> RotDone None (Inr r))"
  by (cases pc) (auto simp: Let_def apfst_def map_prod_def split: if_splits sum.splits store_error.splits prod.splits)

lemma conc_okD:
  assumes "conc_ok p pcs s"
  shows "inv s"
    and "pcs n = RotLookup q \<or> pcs n = OutLookup q \<Longrightarrow> q = p n"
    and "pcs n \<noteq> RotDone None (Inr r)"
    and "pc_token (pcs n) = Some t \<Longrightarrow> known (frame s) (rt_UserID t)"
    and "pc_token (pcs n) = Some t \<Longrightarrow> rt_TokenHash t = HashRefreshToken (p n)"
    and "pc_token (pcs n) = Some t \<Longrightarrow> \<exists>u. toks s (rt_ID t) = Some u \<and> rt_TokenHash u = rt_TokenHash t"
    and "won (pcs n) = Some t \<Longrightarrow> \<exists>u. toks s (rt_ID t) = Some u \<and> rt_UsedAt u \<noteq> None"
    and "m \<noteq> n \<Longrightarrow> won (pcs m) = Some t \<Longrightarrow> won (pcs n) = Some u \<Longrightarrow> rt_ID t \<noteq> rt_ID u"
proof -
  note c = assms [unfolded conc_ok_def]
  note look = c [THEN conjunct2, THEN conjunct1, rule_format]
  note tokn = c [THEN conjunct2, THEN conjunct2, THEN conjunct1, rule_format]
  show "inv s"
    by (rule c [THEN conjunct1])
  show "pcs n = RotLookup q \<or> pcs n = OutLookup q \<Longrightarrow> q = p n"
    by (rule look [THEN conjunct1, rule_format])
  show "pcs n \<noteq> RotDone None (Inr r)"
    by (rule look [THEN conjunct2, rule_format])
  show "pc_token (pcs n) = Some t \<Longrightarrow> known (frame s) (rt_UserID t)"
    by (rule tokn [THEN conjunct1])
  show "pc_token (pcs n) = Some t \<Longrightarrow> rt_TokenHash t = HashRefreshToken (p n)"
    by (rule tokn [THEN conjunct2, THEN conjunct1])
  show "pc_token (pcs n) = Some t \<Longrightarrow> \<exists>u. toks s (rt_ID t) = Some u \<and> rt_TokenHash u = rt_TokenHash t"
    by (rule tokn [THEN conjunct2, THEN conjunct2])
  show "won (pcs n) = Some t \<Longrightarrow> \<exists>u. toks s (rt_ID t) = Some u \<and> rt_UsedAt u \<noteq> None"
    by (rule c [THEN conjunct2, THEN conjunct2, THEN conjunct2, THEN conjunct1, rule_format])
  show "m \<noteq> n \<Longrightarrow> won (pcs m) = Some t \<Longrightarrow> won (pcs n) = Some u \<Longrightarrow> rt_ID t \<noteq> rt_ID u"
    by (rule c [THEN conjunct2, THEN conjunct2, THEN conjunct2, THEN conjunct2, rule_format])
qed

text \<open>What a step of request \<open>n\<close> keeps of the three parts of the invariant.\<close>

lemma step_token:
  assumes c: "conc_ok p pcs s" and step: "step_ok (pcs n) s pc' s'" and t: "pc_token ((pcs(n := pc')) m) = Some t"
  shows "known (frame s') (rt_UserID t)" "rt_TokenHash t = HashRefreshToken (p m)"
    "\<exists>u. toks s' (rt_ID t) = Some u \<and> rt_TokenHash u = rt_TokenHash t"
proof -
  have frame: "frame s' = frame s" and "rows_grow s s'"
    using step by (simp_all add: step_ok_def)
  then have row: "\<And>i u. toks s i = Some u \<Longrightarrow> \<exists>v. toks s' i = Some v \<and> rt_TokenHash v = rt_TokenHash u"
    unfolding rows_grow_def by blast
  have "pc_token pc' = Some t \<Longrightarrow> pc_token (pcs n) = Some t \<or> (toks s (rt_ID t) = Some t \<and> rt_TokenHash t = HashRefreshToken (p n))"
    using step conc_okD(2) [OF c, of n] unfolding step_ok_def by metis
  then have "pc_token (pcs m) = Some t \<or> (m = n \<and> toks s (rt_ID t) = Some t \<and> rt_TokenHash t = HashRefreshToken (p n))"
    using t by (cases "m = n") auto
  then have "known (frame s) (rt_UserID t) \<and> rt_TokenHash t = HashRefreshToken (p m)
      \<and> (\<exists>u. toks s (rt_ID t) = Some u \<and> rt_TokenHash u = rt_TokenHash t)"
    using conc_okD(4-6) [OF c, of m t] toks_known [OF conc_okD(1) [OF c]] by blast
  then show "known (frame s') (rt_UserID t)" "rt_TokenHash t = HashRefreshToken (p m)"
    "\<exists>u. toks s' (rt_ID t) = Some u \<and> rt_TokenHash u = rt_TokenHash t"
    using frame row by metis+
qed

lemma step_won:
  assumes c: "conc_ok p pcs s" and step: "step_ok (pcs n) s pc' s'" and t: "won ((pcs(n := pc')) m) = Some t"
  shows "\<exists>u. toks s' (rt_ID t) = Some u \<and> rt_UsedAt u \<noteq> None"
proof -
  have "rows_grow s s'"
    using step by (simp add: step_ok_def)
  then have row: "\<And>i u. toks s i = Some u \<Longrightarrow> \<exists>v. toks s' i = Some v \<and> (rt_UsedAt u \<noteq> None \<longrightarrow> rt_UsedAt v \<noteq> None)"
    unfolding rows_grow_def by blast
  have "won (pcs m) = Some t \<or> (\<exists>v. toks s' (rt_ID t) = Some v \<and> rt_UsedAt v \<noteq> None)"
    using step t by (cases "m = n") (auto simp: step_ok_def)
  then show ?thesis
    using conc_okD(7) [OF c, of m t] row by metis
qed

lemma step_excl:
  assumes c: "conc_ok p pcs s" and step: "step_ok (pcs n) s pc' s'"
    and new: "won pc' = Some t" and old: "won (pcs m) = Some u" and m: "m \<noteq> n"
  shows "rt_ID t \<noteq> rt_ID u"
proof -
  have "won (pcs n) = Some t \<or> (\<exists>u. toks s (rt_ID t) = Some u \<and> rt_UsedAt u = None)"
    using step new by (auto simp: step_ok_def)
  then show ?thesis
    using conc_okD(8) [OF c m [symmetric], of t u] conc_okD(7) [OF c old] old by fastforce
qed

lemma conc_ok_step:
  assumes c: "conc_ok p pcs s" and ok: "\<forall>k. ok (dr k)" and T: "sv_tokens sv = T" and fresh: "fresh_draws (toks s) dr"
    and run: "conc_step jw sv dr (pcs n) s = (pc', s')"
  shows "conc_ok p (pcs(n := pc')) s'"
proof -
  have step: "step_ok (pcs n) s pc' s'"
    using conc_step_ok [OF conc_okD(1) [OF c] ok T fresh conc_okD(4) [OF c] run] .
  then have inv': "inv s'"
    by (simp add: step_ok_def)
  note A = step_token [OF c step] and B = step_won [OF c step] and new = step_excl [OF c step]
  have C: "rt_ID t \<noteq> rt_ID u"
    if "m \<noteq> k" "won ((pcs(n := pc')) m) = Some t" "won ((pcs(n := pc')) k) = Some u" for m k t u
    using that new [of t k u] new [of u m t] conc_okD(8) [OF c, of m k t u] by (auto split: if_splits)
  have D: "q = p m" if "(pcs(n := pc')) m = RotLookup q \<or> (pcs(n := pc')) m = OutLookup q" for m q
    using that conc_okD(2) [OF c, of m q] conc_step_not_lookup [OF run, of q] by (cases "m = n") auto
  have E: "(pcs(n := pc')) m \<noteq> RotDone None (Inr r)" for m r
    using conc_okD(3) [OF c, of m r] conc_step_not_lookup [OF run, of _ r] by (cases "m = n") auto
  show ?thesis
    unfolding conc_ok_def
    by (intro conjI allI impI; (rule inv' | rule E | erule D | erule A | erule B | (rule C; assumption)))
qed

lemma interleave_ok:
  assumes "interleave toks ok jw sv x y" and "sv_tokens sv = T" and "conc_ok p (fst x) (snd x)"
  shows "conc_ok p (fst y) (snd y)"
  using assms
proof (induction rule: interleave.induct)
  case (step pcs s dr n pc' s')
  then show ?case
    using conc_ok_step [of p pcs s dr sv jw n pc' s'] unfolding fst_conv snd_conv by blast
qed simp

lemma conc_ok_start: "inv s \<Longrightarrow> conc_ok p (\<lambda>n. RotLookup (p n)) s"
  by (simp add: conc_ok_def)

text \<open>Of all requests presenting the same token, at most one is answered with a session.\<close>

lemma single_winner:
  assumes run: "interleave toks ok jw sv (\<lambda>n. RotLookup (p n), s) (pcs, s')" and T: "sv_tokens sv = T" and s: "inv s"
    and fin: "pcs m = RotDone t (Inr r)" "pcs n = RotDone u (Inr r')" and same: "p m = p n"
  shows "m = n"
proof (rule ccontr)
  assume "m \<noteq> n"
  have c: "conc_ok p pcs s'"
    using interleave_ok [OF run T] conc_ok_start [OF s] by simp
  then have tu: "t \<noteq> None" "u \<noteq> None"
    using fin conc_okD(3) [OF c] by metis+
  obtain a b where ab: "t = Some a" "u = Some b"
    using tu by blast
  have won: "won (pcs m) = Some a" "won (pcs n) = Some b"
    using fin ab by simp_all
  then have "rt_ID a \<noteq> rt_ID b"
    by (rule conc_okD(8) [OF c \<open>m \<noteq> n\<close>])
  have tokens: "pc_token (pcs m) = Some a" "pc_token (pcs n) = Some b"
    using fin ab by simp_all
  obtain v w where "toks s' (rt_ID a) = Some v" "rt_TokenHash v = rt_TokenHash a"
      "toks s' (rt_ID b) = Some w" "rt_TokenHash w = rt_TokenHash b"
    using conc_okD(6) [OF c tokens(1)] conc_okD(6) [OF c tokens(2)] by blast
  moreover have "rt_TokenHash a = rt_TokenHash b"
    using conc_okD(5) [OF c tokens(1)] conc_okD(5) [OF c tokens(2)] same by simp
  ultimately show False
    using hash_inj [OF conc_okD(1) [OF c]] \<open>rt_ID a \<noteq> rt_ID b\<close> by metis
qed

end

end
