(* ===== verification/SessionProps.thy ===== *)
theory SessionProps
  imports Concurrency
begin

text \<open>
  What the session service promises, over the two stores: rotation, replay detection, logout,
  the life of an access token, and what holds and what does not when requests interleave.
\<close>

section \<open>Concrete inputs\<close>

definition ex_jwt :: JwtLib where
  "ex_jwt = \<lparr>jw_NewNumericDate = (\<lambda>t. t - t mod second), jw_SignedString = (\<lambda>k a c. Inr ''jwt''),
     jw_ParseWithClaims = (\<lambda>now kf opts raw. (Some [''ErrTokenMalformed''],
        \<lparr>cl_Issuer = [], cl_Subject = [], cl_ID = [], cl_IssuedAt = 0, cl_NotBefore = 0, cl_ExpiresAt = 0\<rparr>))\<rparr>"

definition ex_issuer :: TokenIssuer where
  "ex_issuer = NewTokenIssuer ''secret'' (15 * minute)"

definition ex_mem_service :: "MemStore Service" where
  "ex_mem_service = NewService mem_Tokens ex_issuer (30 * 24 * hour)"

definition ex_pl :: PgLib where
  "ex_pl = \<lparr>pg_timestamptz = (\<lambda>t. t - t mod 1000), pg_lower = (\<lambda>s. s)\<rparr>"

definition ex_pg_service :: "PgDB Service" where
  "ex_pg_service = NewService (pg_Tokens ex_pl) ex_issuer (30 * 24 * hour)"

definition ex_draw :: Draw where
  "ex_draw = \<lparr>d_now = hour, d_rand = (\<lambda>_. CHR ''r''), d_order = (\<lambda>_. 0), d_fault = None\<rparr>"

definition ex_token :: RefreshToken where
  "ex_token = \<lparr>rt_ID = ''t1'', rt_UserID = ''u1'', rt_FamilyID = ''f1'', rt_TokenHash = HashRefreshToken ''secret'',
     rt_ExpiresAt = 2 * hour, rt_CreatedAt = 0, rt_UsedAt = None, rt_RevokedAt = None\<rparr>"

definition ex_used_token :: RefreshToken where
  "ex_used_token = ex_token\<lparr>rt_UsedAt := Some minute\<rparr>"

definition ex_mem :: "RefreshToken \<Rightarrow> MemStore" where
  "ex_mem t = mem_New\<lparr>m_tokens := [(rt_ID t, t)]\<rparr>"

definition ex_user :: User where
  "ex_user = \<lparr>u_ID = ''u1'', u_Email = ''ada@example.com'', u_Username = ''ada'', u_DisplayName = ''Ada'', u_Bio = [],
     u_AvatarKey = None, u_CreatedAt = 0, u_UpdatedAt = 0\<rparr>"

definition ex_pg :: "RefreshToken \<Rightarrow> PgDB" where
  "ex_pg t = pg_empty\<lparr>t_users := [\<lparr>ur_User = ex_user, ur_password_hash = ''h''\<rparr>], t_tokens := [t]\<rparr>"

lemma ex_mem_inv: "mem_inv (ex_mem t)"
  by (simp add: mem_inv_def ex_mem_def mem_New_def users_ok_def posts_ok_def tokens_ok_def uploads_ok_def gomap_ok_def)

lemma ex_user_check: "users_check ex_pl ex_user = None"
  by (simp add: users_check_None ex_user_def ex_pl_def rune_count_ascii is_ascii_def username_char_def)

lemma ex_pg_inv: "rt_UserID t = ''u1'' \<Longrightarrow> pg_inv ex_pl (ex_pg t)"
  using ex_user_check
  by (simp add: pg_inv_def ex_pg_def pg_empty_def pg_users_ok_def pg_posts_ok_def pg_tokens_ok_def pg_uploads_ok_def
      user_exists_def ex_user_def)

lemma ex_token_sel [simp]:
  "rt_ID ex_token = ''t1''" "rt_UserID ex_token = ''u1''" "rt_FamilyID ex_token = ''f1''"
  "rt_TokenHash ex_token = HashRefreshToken ''secret''" "rt_UsedAt ex_token = None" "rt_RevokedAt ex_token = None"
  "rt_ExpiresAt ex_token = 2 * hour"
  "rt_ID ex_used_token = ''t1''" "rt_UserID ex_used_token = ''u1''" "rt_FamilyID ex_used_token = ''f1''"
  "rt_TokenHash ex_used_token = HashRefreshToken ''secret''" "rt_UsedAt ex_used_token = Some minute"
  "rt_RevokedAt ex_used_token = None"
  by (simp_all add: ex_token_def ex_used_token_def)

lemma ex_pg_row: "pg_toks (ex_pg t) (rt_ID t) = Some t"
  by (simp add: ex_pg_def pg_empty_def keyed_def)

lemma ex_mem_row: "map_of (m_tokens (ex_mem t)) (rt_ID t) = Some t"
  by (simp add: ex_mem_def)

lemma ex_pg_ok: "pg_ok ex_pl ex_draw"
  by (simp add: pg_ok_def ex_pl_def ex_draw_def)

lemma ex_pg_tokens [simp]: "sv_tokens ex_pg_service = pg_Tokens ex_pl"
  by (simp add: ex_pg_service_def NewService_def)

lemma ex_mem_tokens [simp]: "sv_tokens ex_mem_service = mem_Tokens"
  by (simp add: ex_mem_service_def NewService_def)

lemma ex_access: "IssueAccess ex_jwt (sv_issuer ex_mem_service) ex_draw uid = Inr (''jwt'', hour + 15 * minute)"
  by (simp add: IssueAccess_def ex_jwt_def ex_mem_service_def NewService_def ex_issuer_def NewTokenIssuer_def ex_draw_def)

text \<open>After a revocation every row it selects carries a stamp.\<close>

lemma revoked_rows:
  "\<forall>j u. map_option (revoke_if (\<lambda>u. rt_FamilyID u = f) at) (m j) = Some u \<longrightarrow> rt_FamilyID u = f \<longrightarrow> rt_RevokedAt u \<noteq> None"
proof (intro allI impI)
  fix j u
  assume u: "map_option (revoke_if (\<lambda>u. rt_FamilyID u = f) at) (m j) = Some u" "rt_FamilyID u = f"
  from u(1) obtain v where "u = revoke_if (\<lambda>u. rt_FamilyID u = f) at v"
    by auto
  then show "rt_RevokedAt u \<noteq> None"
    using u(2) revoke_if_hit [of "\<lambda>u. rt_FamilyID u = f" v at] by simp
qed

section \<open>Rotation\<close>

text \<open>C2: presenting a refresh token that was already consumed, on the Postgres
  store, is answered with "invalid", revokes every token of its family and touches no other
  token and no other table.\<close>

theorem replay_revokes_family:
  assumes "pg_inv pl db" and "\<forall>k. pg_ok pl (dr k)" and "sv_tokens sv = pg_Tokens pl"
    and "presented \<noteq> []" and "pg_toks db i = Some t" and "rt_TokenHash t = HashRefreshToken presented"
    and "rt_UsedAt t \<noteq> None"
  shows "\<exists>db'. Rotate jw sv dr presented db = (Inl ErrTokenInvalid, db') \<and> pg_inv pl db'
    \<and> db'\<lparr>t_tokens := []\<rparr> = db\<lparr>t_tokens := []\<rparr>
    \<and> (\<forall>j u. pg_toks db' j = Some u \<longrightarrow> rt_FamilyID u = rt_FamilyID t \<longrightarrow> rt_RevokedAt u \<noteq> None)
    \<and> (\<forall>j u. pg_toks db j = Some u \<longrightarrow> rt_FamilyID u \<noteq> rt_FamilyID t \<longrightarrow> pg_toks db' j = Some u)
    \<and> dom (pg_toks db') = dom (pg_toks db)"
proof -
  obtain db' where run: "Rotate jw sv dr presented db = (Inl ErrTokenInvalid, db')" "pg_inv pl db'"
    "db'\<lparr>t_tokens := []\<rparr> = db\<lparr>t_tokens := []\<rparr>"
    and rows: "pg_toks db' = (\<lambda>i. map_option (revoke_if (\<lambda>u. rt_FamilyID u = rt_FamilyID t) (pg_timestamptz pl (d_now (dr 6)))) (pg_toks db i))"
    using pg_tok.rotate_replay [OF assms(1-7), where jw = jw] by blast
  have "\<forall>j u. pg_toks db' j = Some u \<longrightarrow> rt_FamilyID u = rt_FamilyID t \<longrightarrow> rt_RevokedAt u \<noteq> None"
    unfolding rows by (rule revoked_rows)
  moreover have "pg_toks db' j = Some u" if "pg_toks db j = Some u" "rt_FamilyID u \<noteq> rt_FamilyID t" for j u
    using that by (simp add: rows revoke_if_miss)
  moreover have "dom (pg_toks db') = dom (pg_toks db)"
    by (auto simp: rows dom_def)
  ultimately show ?thesis
    using run by blast
qed

theorem replay_revokes_family_witness:
  "\<exists>db'. Rotate ex_jwt ex_pg_service (\<lambda>_. ex_draw) ''secret'' (ex_pg ex_used_token) = (Inl ErrTokenInvalid, db')
     \<and> (\<forall>j u. pg_toks db' j = Some u \<longrightarrow> rt_FamilyID u = ''f1'' \<longrightarrow> rt_RevokedAt u \<noteq> None)"
  using replay_revokes_family [of ex_pl "ex_pg ex_used_token" "\<lambda>_. ex_draw" ex_pg_service "''secret''" "''t1''" ex_used_token ex_jwt]
    ex_pg_inv [of ex_used_token] ex_pg_row [of ex_used_token] ex_pg_ok by auto

text \<open>An active refresh token is exchanged, on the memory store, for a session of the same
  user: the presented row is stamped used with everything else of it unchanged, a successor with the same user and family, the
  configured lifetime and the digest of the returned token is stored, and nothing else changes.\<close>

theorem rotate_exchanges:
  assumes "mem_inv s" and "sv_tokens sv = mem_Tokens" and "presented \<noteq> []"
    and "map_of (m_tokens s) i = Some t" and "rt_TokenHash t = HashRefreshToken presented"
    and "rt_Active t (d_now (dr 6))"
    and "IssueAccess jw (sv_issuer sv) (dr 0) (rt_UserID t) = Inr (a, x)"
  shows "Rotate jw sv dr presented s =
    (Inr \<lparr>ss_UserID = rt_UserID t, ss_AccessToken = a, ss_RefreshToken = fst (NewRefreshToken (dr 1)), ss_AccessExpiresAt = x\<rparr>,
     s\<lparr>m_tokens := AList.update (NewID (dr 3))
         \<lparr>rt_ID = NewID (dr 3), rt_UserID = rt_UserID t, rt_FamilyID = rt_FamilyID t,
          rt_TokenHash = HashRefreshToken (fst (NewRefreshToken (dr 1))),
          rt_ExpiresAt = d_now (dr 2) + sv_refreshTTL sv, rt_CreatedAt = d_now (dr 2), rt_UsedAt = None, rt_RevokedAt = None\<rparr>
         (AList.update i (t\<lparr>rt_UsedAt := Some (d_now (dr 6))\<rparr>) (m_tokens s))\<rparr>)"
proof -
  have "ts_ByHash mem_Tokens (dr 5) (HashRefreshToken presented) s = Inr t"
    using mem_tok.ByHash_hit [OF assms(1) TrueI assms(4)] assms(5) by simp
  moreover have "rt_ID t = i"
    by (rule mem_tok.toks_ID [OF assms(1,4)])
  moreover have "rt_UsedAt t = None" "rt_RevokedAt t = None" "d_now (dr 6) < rt_ExpiresAt t"
    using assms(6) by (simp_all add: rt_Active_def)
  moreover have "ts_MarkUsed mem_Tokens = mem_token_MarkUsed" "ts_Issue mem_Tokens = mem_token_Issue"
    by (simp_all add: mem_Tokens_def)
  ultimately show ?thesis
    using assms by (simp add: Rotate_def issue_def mem_token_MarkUsed_def mem_token_Issue_def new_token_def NewRefreshToken_def Let_def)
qed

theorem rotate_exchanges_witness:
  "\<exists>s'. Rotate ex_jwt ex_mem_service (\<lambda>_. ex_draw) ''secret'' (ex_mem ex_token) =
     (Inr \<lparr>ss_UserID = ''u1'', ss_AccessToken = ''jwt'', ss_RefreshToken = fst (NewRefreshToken ex_draw),
           ss_AccessExpiresAt = hour + 15 * minute\<rparr>, s')"
  using rotate_exchanges [of "ex_mem ex_token" ex_mem_service "''secret''" "''t1''" ex_token "\<lambda>_. ex_draw" ex_jwt]
    ex_mem_inv [of ex_token] ex_mem_row [of ex_token] ex_access [of "''u1''"]
  by (simp add: rt_Active_def ex_draw_def)

text \<open>A refresh token that is unknown, revoked or past its lifetime is refused with the error
  that fits, and the Postgres store is left exactly as it was.\<close>

theorem rotate_rejects:
  assumes "pg_inv pl db" and "\<forall>k. pg_ok pl (dr k)" and "sv_tokens sv = pg_Tokens pl" and "presented \<noteq> []"
  shows "((\<forall>t \<in> set (t_tokens db). rt_TokenHash t \<noteq> HashRefreshToken presented) \<longrightarrow>
      Rotate jw sv dr presented db = (Inl ErrTokenInvalid, db))
    \<and> (\<forall>t \<in> set (t_tokens db). rt_TokenHash t = HashRefreshToken presented \<and> rt_UsedAt t = None \<longrightarrow>
      (rt_RevokedAt t \<noteq> None \<longrightarrow> Rotate jw sv dr presented db = (Inl ErrTokenInvalid, db))
      \<and> (rt_RevokedAt t = None \<and> rt_ExpiresAt t \<le> d_now (dr 6) \<longrightarrow>
          Rotate jw sv dr presented db = (Inl ErrTokenExpired, db)))"
proof (intro conjI impI ballI)
  assume "\<forall>t \<in> set (t_tokens db). rt_TokenHash t \<noteq> HashRefreshToken presented"
  then show "Rotate jw sv dr presented db = (Inl ErrTokenInvalid, db)"
    by (intro pg_tok.rotate_unknown [OF assms(1-3)]) (blast dest: keyed_mem)
next
  fix t
  assume t: "t \<in> set (t_tokens db)" "rt_TokenHash t = HashRefreshToken presented \<and> rt_UsedAt t = None"
  then have row: "pg_toks db (rt_ID t) = Some t"
    using pg_toks_Some [OF assms(1)] by blast
  {
    assume "rt_RevokedAt t \<noteq> None"
    then show "Rotate jw sv dr presented db = (Inl ErrTokenInvalid, db)"
      using pg_tok.rotate_rejected [OF assms row] t(2) by simp
  next
    assume "rt_RevokedAt t = None \<and> rt_ExpiresAt t \<le> d_now (dr 6)"
    then show "Rotate jw sv dr presented db = (Inl ErrTokenExpired, db)"
      using pg_tok.rotate_rejected [OF assms row] t(2) by simp
  }
qed

theorem rotate_rejects_witness:
  "Rotate ex_jwt ex_pg_service (\<lambda>_. ex_draw) ''secret'' (ex_pg (ex_token\<lparr>rt_ExpiresAt := hour\<rparr>)) =
     (Inl ErrTokenExpired, ex_pg (ex_token\<lparr>rt_ExpiresAt := hour\<rparr>))"
  using rotate_rejects [of ex_pl "ex_pg (ex_token\<lparr>rt_ExpiresAt := hour\<rparr>)" "\<lambda>_. ex_draw" ex_pg_service "''secret''" ex_jwt]
    ex_pg_inv [of "ex_token\<lparr>rt_ExpiresAt := hour\<rparr>"] ex_pg_ok
  by (simp add: ex_pg_def ex_draw_def)

section \<open>Families over time\<close>

text \<open>C1: whatever sequence of logins, refreshes, logouts and clean-ups an
  initially empty Postgres database has been through, a token family belongs to one user and has at
  most one token that is neither consumed nor revoked.\<close>

theorem one_live_token_per_family:
  assumes "session_run pg_toks user_exists (pg_ok pl) jw sv (db0, {}) (db, F)" and "sv_tokens sv = pg_Tokens pl"
    and "pg_inv pl db0" and "t_tokens db0 = []"
    and "pg_toks db i = Some t" and "pg_toks db j = Some u" and "rt_FamilyID t = rt_FamilyID u"
  shows "rt_UserID t = rt_UserID u \<and> (live t \<longrightarrow> live u \<longrightarrow> i = j)"
proof -
  have "family_inv (pg_toks db0, {})"
    using assms(4) by (simp add: family_inv_def keyed_def)
  then have start: "pg_tok.session_ok pl (db0, {})"
    using assms(3) by (simp add: pg_tok.session_ok_def)
  have run: "session_run pg_toks (\<lambda>s. user_exists (s\<lparr>t_tokens := []\<rparr>)) (pg_ok pl) jw sv (db0, {}) (db, F)"
  proof -
    have "(\<lambda>s. user_exists (s\<lparr>t_tokens := []\<rparr>)) = user_exists"
      by (simp add: fun_eq_iff user_exists_def)
    then show ?thesis
      using assms(1) by simp
  qed
  have "family_inv (pg_toks db, F)"
    using pg_tok.run_ok [OF run assms(2) start] by (simp add: pg_tok.session_ok_def)
  from family_invD [OF this] show ?thesis
    using assms(5-7) by blast
qed

lemma user_exists_frame: "(\<lambda>db. user_exists (db\<lparr>t_tokens := []\<rparr>)) = user_exists"
  by (simp add: fun_eq_iff user_exists_def)

lemma ex_pg_start:
  "session_run pg_toks user_exists (pg_ok ex_pl) ex_jwt ex_pg_service
     (ex_pg ex_token\<lparr>t_tokens := []\<rparr>, {})
     (snd (Start ex_jwt ex_pg_service (\<lambda>_. ex_draw) ''u1'' (ex_pg ex_token\<lparr>t_tokens := []\<rparr>)), {NewID ex_draw})"
proof -
  let ?db = "ex_pg ex_token\<lparr>t_tokens := []\<rparr>"
  have known: "user_exists ?db ''u1''"
    by (simp add: ex_pg_def user_exists_def ex_user_def)
  have fresh: "fresh_draws (pg_toks ?db) (\<lambda>_. ex_draw)"
    by (simp add: fresh_draws_def keyed_def)
  have ok: "\<forall>k :: nat. pg_ok ex_pl ((\<lambda>_. ex_draw) k)"
    using ex_pg_ok by simp
  show ?thesis
    using session_run.start [of pg_toks user_exists "pg_ok ex_pl" ex_jwt ex_pg_service "(?db, {})" ?db "{}" "\<lambda>_. ex_draw" "''u1''"]
      session_run.init [of pg_toks user_exists "pg_ok ex_pl" ex_jwt ex_pg_service "(?db, {})"] ok known fresh by simp
qed

theorem one_live_token_per_family_witness:
  "\<exists>db F. session_run pg_toks user_exists (pg_ok ex_pl) ex_jwt ex_pg_service (ex_pg ex_token\<lparr>t_tokens := []\<rparr>, {}) (db, F)
     \<and> (\<forall>i t j u. pg_toks db i = Some t \<longrightarrow> pg_toks db j = Some u \<longrightarrow> rt_FamilyID t = rt_FamilyID u \<longrightarrow> live t \<longrightarrow> live u \<longrightarrow> i = j)"
proof -
  have inv: "pg_inv ex_pl (ex_pg ex_token\<lparr>t_tokens := []\<rparr>)"
    using ex_pg_inv [of ex_token] pg_inv_filter_tokens [of ex_pl "ex_pg ex_token" "\<lambda>_. False"] by simp
  show ?thesis
  proof (intro exI conjI allI impI)
    show "session_run pg_toks user_exists (pg_ok ex_pl) ex_jwt ex_pg_service (ex_pg ex_token\<lparr>t_tokens := []\<rparr>, {})
        (snd (Start ex_jwt ex_pg_service (\<lambda>_. ex_draw) ''u1'' (ex_pg ex_token\<lparr>t_tokens := []\<rparr>)), {NewID ex_draw})"
      by (rule ex_pg_start)
    fix i t j u
    let ?db = "snd (Start ex_jwt ex_pg_service (\<lambda>_. ex_draw) ''u1'' (ex_pg ex_token\<lparr>t_tokens := []\<rparr>))"
    assume a: "pg_toks ?db i = Some t" "pg_toks ?db j = Some u" "rt_FamilyID t = rt_FamilyID u" "live t" "live u"
    show "i = j"
      using one_live_token_per_family [OF ex_pg_start ex_pg_tokens inv _ a(1-3)] a(4,5) by simp
  qed
qed

text \<open>Once a family is dead, no run brings a token of it back.\<close>

lemma dead_family_refused:
  assumes start: "pg_tok.session_ok pl (db1, F)" and dead: "dead_family f (pg_toks db1, F)"
    and run: "session_run pg_toks user_exists (pg_ok pl) jw sv (db1, F) (db', F')" and T: "sv_tokens sv = pg_Tokens pl"
    and ok: "\<forall>k. pg_ok pl (dr' k)"
    and u: "pg_toks db' j = Some u" "rt_FamilyID u = f" "rt_TokenHash u = HashRefreshToken later"
  shows "fst (Rotate jw sv dr' later db') = Inl ErrTokenInvalid"
proof -
  have run': "session_run pg_toks (\<lambda>db. user_exists (db\<lparr>t_tokens := []\<rparr>)) (pg_ok pl) jw sv (db1, F) (db', F')"
    using run by (simp add: user_exists_frame)
  have fin: "pg_tok.session_ok pl (db', F')" "dead_family f (pg_toks db', F')"
    using pg_tok.run_ok [OF run' T start, of f] dead by simp_all
  have "\<not> live v" if v: "pg_toks db' k = Some v" "rt_TokenHash v = HashRefreshToken later" for k v
  proof -
    have "k = j"
      using pg_tok.hash_inj [of pl db' k v j u] fin(1) v u by (simp add: pg_tok.session_ok_def)
    then show ?thesis
      using fin(2) v(1) u by (auto simp: dead_family_def)
  qed
  then show ?thesis
    using pg_tok.rotate_dead [of pl db' dr' sv later jw] fin(1) T ok by (simp add: pg_tok.session_ok_def)
qed

text \<open>C3: once a consumed token of a family has been replayed, no later sequence of calls
  ever lets a token of that family be exchanged again: every such attempt, in any state the Postgres
  store can reach, is answered with "invalid".\<close>

theorem replay_is_final:
  assumes db: "pg_inv pl db" "family_inv (pg_toks db, F)" and T: "sv_tokens sv = pg_Tokens pl"
    and ok: "\<forall>k. pg_ok pl (dr k)" "\<forall>k. pg_ok pl (dr' k)"
    and t: "presented \<noteq> []" "pg_toks db i = Some t" "rt_TokenHash t = HashRefreshToken presented" "rt_UsedAt t \<noteq> None"
    and run: "session_run pg_toks user_exists (pg_ok pl) jw sv (snd (Rotate jw sv dr presented db), F) (db', F')"
  shows "\<forall>j u later. pg_toks db' j = Some u \<and> rt_FamilyID u = rt_FamilyID t \<and> rt_TokenHash u = HashRefreshToken later
    \<longrightarrow> fst (Rotate jw sv dr' later db') = Inl ErrTokenInvalid"
proof (intro allI impI, elim conjE)
  fix j u later
  assume u: "pg_toks db' j = Some u" "rt_FamilyID u = rt_FamilyID t" "rt_TokenHash u = HashRefreshToken later"
  let ?revoke = "revoke_if (\<lambda>u. rt_FamilyID u = rt_FamilyID t) (pg_timestamptz pl (d_now (dr 6)))"
  obtain db1 where r: "Rotate jw sv dr presented db = (Inl ErrTokenInvalid, db1)" "pg_inv pl db1"
    "pg_toks db1 = (\<lambda>i. map_option ?revoke (pg_toks db i))"
    using pg_tok.rotate_replay [OF db(1) ok(1) T t, where jw = jw] by blast
  have "\<forall>j u. pg_toks db1 j = Some u \<longrightarrow> rt_FamilyID u = rt_FamilyID t \<longrightarrow> rt_RevokedAt u \<noteq> None"
    unfolding r(3) by (rule revoked_rows)
  then have dead: "dead_family (rt_FamilyID t) (pg_toks db1, F)"
    using family_invD(1) [OF db(2) t(2)] by (auto simp: dead_family_def live_def)
  have "tok_step (pg_toks db, F) (pg_toks db1, F)"
    unfolding r(3) by (rule tok_step.revoke)
  then have start: "pg_tok.session_ok pl (db1, F)"
    using tok_step_family_inv [OF _ db(2)] r(2) by (simp add: pg_tok.session_ok_def)
  show "fst (Rotate jw sv dr' later db') = Inl ErrTokenInvalid"
    using dead_family_refused [OF start dead _ T ok(2) u] run r(1) by simp
qed

lemma ex_family: "family_inv (pg_toks (ex_pg t), {rt_FamilyID t})"
  by (rule family_invI) (auto simp: ex_pg_def keyed_def split: if_splits)

theorem replay_is_final_witness:
  "\<exists>db1. Rotate ex_jwt ex_pg_service (\<lambda>_. ex_draw) ''secret'' (ex_pg ex_used_token) = (Inl ErrTokenInvalid, db1)
     \<and> fst (Rotate ex_jwt ex_pg_service (\<lambda>_. ex_draw) ''secret'' db1) = Inl ErrTokenInvalid"
proof -
  have ok: "\<forall>k :: nat. pg_ok ex_pl ((\<lambda>_. ex_draw) k)"
    using ex_pg_ok by simp
  have t: "''secret'' \<noteq> []" "pg_toks (ex_pg ex_used_token) ''t1'' = Some ex_used_token"
    "rt_TokenHash ex_used_token = HashRefreshToken ''secret''" "rt_UsedAt ex_used_token \<noteq> None"
    using ex_pg_row [of ex_used_token] by simp_all
  have uid: "rt_UserID ex_used_token = ''u1''"
    by simp
  obtain db1 where r: "Rotate ex_jwt ex_pg_service (\<lambda>_. ex_draw) ''secret'' (ex_pg ex_used_token) = (Inl ErrTokenInvalid, db1)"
    "pg_toks db1 = (\<lambda>i. map_option (revoke_if (\<lambda>u. rt_FamilyID u = rt_FamilyID ex_used_token)
       (pg_timestamptz ex_pl (d_now ex_draw))) (pg_toks (ex_pg ex_used_token) i))"
    using pg_tok.rotate_replay [OF ex_pg_inv [OF uid] ok ex_pg_tokens t, where jw = ex_jwt] by blast
  obtain u where u: "pg_toks db1 ''t1'' = Some u \<and> rt_FamilyID u = rt_FamilyID ex_used_token \<and> rt_TokenHash u = HashRefreshToken ''secret''"
    using r(2) t(2, 3) by (simp add: revoke_if_def split: if_splits)
  have "fst (Rotate ex_jwt ex_pg_service (\<lambda>_. ex_draw) ''secret'' db1) = Inl ErrTokenInvalid"
    using replay_is_final [OF ex_pg_inv [OF uid] ex_family ex_pg_tokens ok ok t session_run.init, where jw = ex_jwt,
        THEN spec, THEN spec, THEN spec, THEN mp, unfolded r(1) snd_conv, OF u] .
  then show ?thesis
    using r(1) by blast
qed

text \<open>C20: logout with any token of a family, even a consumed one, makes every token
  of that family unusable: a later refresh with any of them is refused, whatever calls come between.
  Logout with an unknown or empty token succeeds and changes nothing.\<close>

theorem logout_ends_session:
  assumes db: "pg_inv pl db" "family_inv (pg_toks db, F)" and T: "sv_tokens sv = pg_Tokens pl"
    and ok: "\<forall>k. pg_ok pl (dr k)" "\<forall>k. pg_ok pl (dr' k)"
  shows "((\<forall>i t. pg_toks db i = Some t \<longrightarrow> rt_TokenHash t \<noteq> HashRefreshToken presented) \<longrightarrow>
      Revoke sv dr presented db = (Inr (), db))
    \<and> (\<forall>i t. presented \<noteq> [] \<and> pg_toks db i = Some t \<and> rt_TokenHash t = HashRefreshToken presented \<longrightarrow>
      (\<exists>db1. Revoke sv dr presented db = (Inr (), db1) \<and>
        (\<forall>db' F'. session_run pg_toks user_exists (pg_ok pl) jw sv (db1, F) (db', F') \<longrightarrow>
          (\<forall>j u later. pg_toks db' j = Some u \<and> rt_FamilyID u = rt_FamilyID t \<and> rt_TokenHash u = HashRefreshToken later \<longrightarrow>
            fst (Rotate jw sv dr' later db') = Inl ErrTokenInvalid))))"
proof (intro conjI impI allI)
  assume "\<forall>i t. pg_toks db i = Some t \<longrightarrow> rt_TokenHash t \<noteq> HashRefreshToken presented"
  then show "Revoke sv dr presented db = (Inr (), db)"
    by (intro pg_tok.revoke_unknown [OF db(1) ok(1) T]) blast
next
  fix i t
  assume "presented \<noteq> [] \<and> pg_toks db i = Some t \<and> rt_TokenHash t = HashRefreshToken presented"
  then have t: "presented \<noteq> []" "pg_toks db i = Some t" "rt_TokenHash t = HashRefreshToken presented"
    by simp_all
  let ?revoke = "revoke_if (\<lambda>u. rt_FamilyID u = rt_FamilyID t) (pg_timestamptz pl (d_now (dr 2)))"
  obtain db1 where r: "Revoke sv dr presented db = (Inr (), db1)" "pg_inv pl db1"
    "pg_toks db1 = (\<lambda>i. map_option ?revoke (pg_toks db i))"
    using pg_tok.revoke_found [OF db(1) ok(1) T t] by blast
  have "\<forall>j u. pg_toks db1 j = Some u \<longrightarrow> rt_FamilyID u = rt_FamilyID t \<longrightarrow> rt_RevokedAt u \<noteq> None"
    unfolding r(3) by (rule revoked_rows)
  then have dead: "dead_family (rt_FamilyID t) (pg_toks db1, F)"
    using family_invD(1) [OF db(2) t(2)] by (auto simp: dead_family_def live_def)
  have "tok_step (pg_toks db, F) (pg_toks db1, F)"
    unfolding r(3) by (rule tok_step.revoke)
  then have start: "pg_tok.session_ok pl (db1, F)"
    using tok_step_family_inv [OF _ db(2)] r(2) by (simp add: pg_tok.session_ok_def)
  have "fst (Rotate jw sv dr' later db') = Inl ErrTokenInvalid"
    if "session_run pg_toks user_exists (pg_ok pl) jw sv (db1, F) (db', F')" "pg_toks db' j = Some u"
      "rt_FamilyID u = rt_FamilyID t" "rt_TokenHash u = HashRefreshToken later" for db' F' j u later
    using dead_family_refused [OF start dead that(1) T ok(2) that(2-4)] .
  then show "\<exists>db1. Revoke sv dr presented db = (Inr (), db1) \<and>
      (\<forall>db' F'. session_run pg_toks user_exists (pg_ok pl) jw sv (db1, F) (db', F') \<longrightarrow>
        (\<forall>j u later. pg_toks db' j = Some u \<and> rt_FamilyID u = rt_FamilyID t \<and> rt_TokenHash u = HashRefreshToken later \<longrightarrow>
          fst (Rotate jw sv dr' later db') = Inl ErrTokenInvalid))"
    using r(1) by blast
qed

theorem logout_ends_session_witness:
  "\<exists>db1. Revoke ex_pg_service (\<lambda>_. ex_draw) ''secret'' (ex_pg ex_token) = (Inr (), db1)
     \<and> (\<forall>db' F'. session_run pg_toks user_exists (pg_ok ex_pl) ex_jwt ex_pg_service (db1, {''f1''}) (db', F') \<longrightarrow>
          (\<forall>j u later. pg_toks db' j = Some u \<and> rt_FamilyID u = ''f1'' \<and> rt_TokenHash u = HashRefreshToken later \<longrightarrow>
            fst (Rotate ex_jwt ex_pg_service (\<lambda>_. ex_draw) later db') = Inl ErrTokenInvalid))"
proof -
  have ok: "\<forall>k :: nat. pg_ok ex_pl ((\<lambda>_. ex_draw) k)"
    using ex_pg_ok by simp
  have row: "''secret'' \<noteq> [] \<and> pg_toks (ex_pg ex_token) ''t1'' = Some ex_token \<and> rt_TokenHash ex_token = HashRefreshToken ''secret''"
    using ex_pg_row [of ex_token] by simp
  show ?thesis
    using logout_ends_session [OF ex_pg_inv [OF ex_token_sel(2)] ex_family ex_pg_tokens ok ok, of "''secret''" ex_jwt,
        THEN conjunct2, THEN spec, THEN spec, THEN mp, OF row] by simp
qed

section \<open>Access tokens\<close>

text \<open>
  What the JWT library documents: a token signed by it with a key, for a method the options
  allow and with the issuer they ask for, parses back to its claims while the clock is between
  \<open>nbf\<close> and \<open>exp\<close>, and from \<open>exp\<close> on fails with \<open>ErrTokenExpired\<close> among its errors.
\<close>

definition jwt_contract :: "JwtLib \<Rightarrow> gostring \<Rightarrow> Claims \<Rightarrow> bool" where
  "jwt_contract jw key c \<longleftrightarrow>
     (\<forall>raw now kf opts.
        jw_SignedString jw key ''HS256'' c = Inr raw \<and> kf True ''HS256'' = Inr key
        \<and> ''HS256'' \<in> set (po_ValidMethods opts) \<and> cl_Issuer c = po_Issuer opts \<and> cl_NotBefore c \<le> now \<longrightarrow>
        (now < cl_ExpiresAt c \<longrightarrow> jw_ParseWithClaims jw now kf opts raw = (None, c)) \<and>
        (cl_ExpiresAt c \<le> now \<longrightarrow>
          (\<exists>errs c'. jw_ParseWithClaims jw now kf opts raw = (Some errs, c') \<and> ''ErrTokenExpired'' \<in> set errs)))"

text \<open>C36: an access token authenticates exactly the user it was issued to until its
  lifetime (to the library's precision) has passed, and from then on is reported expired rather
  than invalid, so the client refreshes instead of logging out.\<close>

theorem access_token_life:
  assumes "jwt_contract jw (ti_secret ti) (access_claims jw ti d userID)" and "userID \<noteq> []"
    and "IssueAccess jw ti d userID = Inr (raw, expiresAt)" and "jw_NewNumericDate jw (d_now d) \<le> d_now d'"
  shows "ParseAccess jw ti d' raw =
    (if d_now d' < jw_NewNumericDate jw expiresAt then Inr userID else Inl ErrTokenExpired)"
proof -
  let ?c = "access_claims jw ti d userID"
  have issued: "jw_SignedString jw (ti_secret ti) ''HS256'' ?c = Inr raw" "expiresAt = d_now d + ti_accessTTL ti"
    using assms(3) by (auto simp: IssueAccess_def split: sum.splits)
  have sel: "cl_Subject ?c = userID" "cl_Issuer ?c = tokenIssuer" "cl_NotBefore ?c = jw_NewNumericDate jw (d_now d)"
    "cl_ExpiresAt ?c = jw_NewNumericDate jw expiresAt"
    by (simp_all add: access_claims_def issued(2))
  note contract = assms(1) [unfolded jwt_contract_def, rule_format, of raw "access_keyfunc ti" access_options "d_now d'"]
  have pre: "jw_SignedString jw (ti_secret ti) ''HS256'' ?c = Inr raw \<and> access_keyfunc ti True ''HS256'' = Inr (ti_secret ti)
      \<and> ''HS256'' \<in> set (po_ValidMethods access_options) \<and> cl_Issuer ?c = po_Issuer access_options \<and> cl_NotBefore ?c \<le> d_now d'"
    using issued(1) assms(4) by (simp add: access_keyfunc_def access_options_def sel)
  show ?thesis
    using contract [OF pre] assms(2) by (auto simp: ParseAccess_def sel)
qed

definition ex_claims :: Claims where
  "ex_claims = \<lparr>cl_Issuer = ''domieface'', cl_Subject = ''u1'', cl_ID = hex_encode (rand_bytes ex_draw 8),
     cl_IssuedAt = hour, cl_NotBefore = hour, cl_ExpiresAt = hour + 15 * minute\<rparr>"

definition ex_jwt_one :: JwtLib where
  "ex_jwt_one = \<lparr>jw_NewNumericDate = (\<lambda>t. t - t mod second), jw_SignedString = (\<lambda>k a c. Inr ''jwt''),
     jw_ParseWithClaims = (\<lambda>now kf opts raw.
       if now < hour + 15 * minute then (None, ex_claims) else (Some [''ErrTokenExpired''], ex_claims))\<rparr>"

theorem access_token_life_witness:
  "ParseAccess ex_jwt_one ex_issuer (ex_draw\<lparr>d_now := hour + 14 * minute\<rparr>) ''jwt'' = Inr ''u1'' \<and>
   ParseAccess ex_jwt_one ex_issuer (ex_draw\<lparr>d_now := hour + 15 * minute\<rparr>) ''jwt'' = Inl ErrTokenExpired"
proof -
  have claims: "access_claims ex_jwt_one ex_issuer ex_draw ''u1'' = ex_claims"
    by (simp add: access_claims_def ex_claims_def ex_jwt_one_def ex_draw_def ex_issuer_def NewTokenIssuer_def tokenIssuer_def)
  have contract: "jwt_contract ex_jwt_one (ti_secret ex_issuer) (access_claims ex_jwt_one ex_issuer ex_draw ''u1'')"
    unfolding claims by (simp add: jwt_contract_def ex_jwt_one_def ex_claims_def)
  have issued: "IssueAccess ex_jwt_one ex_issuer ex_draw ''u1'' = Inr (''jwt'', hour + 15 * minute)"
    by (simp add: IssueAccess_def ex_jwt_one_def ex_issuer_def NewTokenIssuer_def ex_draw_def)
  have date: "jw_NewNumericDate ex_jwt_one t = t - t mod second" for t
    by (simp add: ex_jwt_one_def)
  note life = access_token_life [OF contract _ issued]
  show ?thesis
    using life [of "ex_draw\<lparr>d_now := hour + 14 * minute\<rparr>"] life [of "ex_draw\<lparr>d_now := hour + 15 * minute\<rparr>"]
    by (simp add: date ex_draw_def)
qed

section \<open>Concurrent requests\<close>

text \<open>C4: however the requests that present refresh tokens to the Postgres store
  interleave, two requests that presented the same token cannot both be answered with a session.\<close>

theorem single_session_per_token:
  assumes "interleave pg_toks (pg_ok pl) jw sv (\<lambda>n. RotLookup (p n), db) (pcs, db')" and "sv_tokens sv = pg_Tokens pl"
    and "pg_inv pl db" and "m \<noteq> n" and "p m = p n"
  shows "\<not> (\<exists>t r u r'. pcs m = RotDone t (Inr r) \<and> pcs n = RotDone u (Inr r'))"
  using pg_tok.single_winner [OF assms(1-3) _ _ assms(5)] assms(4) by blast

theorem single_session_per_token_witness:
  "\<exists>pcs db'. interleave pg_toks (pg_ok ex_pl) ex_jwt ex_pg_service (\<lambda>n. RotLookup ''lost'', ex_pg ex_token\<lparr>t_tokens := []\<rparr>) (pcs, db')
     \<and> pcs 0 = RotDone None (Inl ErrTokenInvalid)
     \<and> \<not> (\<exists>t r u r'. pcs 0 = RotDone t (Inr r) \<and> pcs 1 = RotDone u (Inr r'))"
proof -
  let ?db = "ex_pg ex_token\<lparr>t_tokens := []\<rparr>"
  let ?start = "(\<lambda>n :: nat. RotLookup ''lost'', ?db)"
  let ?pcs = "(\<lambda>n. RotLookup ''lost'')(0 := RotDone None (Inl ErrTokenInvalid))"
  have inv: "pg_inv ex_pl ?db"
    using ex_pg_inv [of ex_token] pg_inv_filter_tokens [of ex_pl "ex_pg ex_token" "\<lambda>_. False"] by simp
  have ok: "\<forall>k :: nat. pg_ok ex_pl ((\<lambda>_. ex_draw) k)"
    using ex_pg_ok by simp
  have fresh: "fresh_draws (pg_toks ?db) (\<lambda>_. ex_draw)"
    by (simp add: fresh_draws_def keyed_def)
  have lookup: "conc_step ex_jwt ex_pg_service (\<lambda>_. ex_draw) (RotLookup ''lost'') ?db = (RotDone None (Inl ErrTokenInvalid), ?db)"
    using ex_pg_ok by (simp add: pg_Tokens_def pg_token_ByHash_def pg_ok_def first_row_def)
  have run: "interleave pg_toks (pg_ok ex_pl) ex_jwt ex_pg_service ?start (?pcs, ?db)"
    using interleave.step [of pg_toks "pg_ok ex_pl" ex_jwt ex_pg_service ?start "\<lambda>n. RotLookup ''lost''" ?db
        "\<lambda>_. ex_draw" 0 "RotDone None (Inl ErrTokenInvalid)" ?db]
      interleave.init [of pg_toks "pg_ok ex_pl" ex_jwt ex_pg_service ?start] ok fresh lookup by blast
  have "\<not> (\<exists>t r u r'. ?pcs 0 = RotDone t (Inr r) \<and> ?pcs 1 = RotDone u (Inr r'))"
    using single_session_per_token [where p = "\<lambda>n. ''lost''" and m = 0 and n = 1, OF run ex_pg_tokens inv] by simp
  then show ?thesis
    using run by (intro exI conjI) (assumption, simp_all)
qed


text \<open>One store call of request \<open>n\<close>, and a schedule of them.\<close>

fun run_schedule ::
    "JwtLib \<Rightarrow> 's Service \<Rightarrow> (nat \<Rightarrow> Draw) \<Rightarrow> nat list \<Rightarrow> (nat \<Rightarrow> request_pc) \<times> 's \<Rightarrow> (nat \<Rightarrow> request_pc) \<times> 's" where
  "run_schedule jw sv dr [] x = x"
| "run_schedule jw sv dr (n # ns) (pcs, s) =
     (let (pc', s') = conc_step jw sv dr (pcs n) s in run_schedule jw sv dr ns (pcs(n := pc'), s'))"

definition two_requests :: "request_pc \<Rightarrow> request_pc \<Rightarrow> nat \<Rightarrow> request_pc" where
  "two_requests a b n = (if n = 0 then a else b)"



end
