(* ===== verification/StoreProps.thy ===== *)
theory StoreProps
  imports MemoryStore PostgresLaws
begin

text \<open>
  What a client of the stores relies on: the pages of the feed, claims on uploads, deletion of
  posts, uniqueness of users, and that the two stores agree.
\<close>

section \<open>Feeds over any store\<close>

context post_store
begin

definition feed_set :: "'s \<Rightarrow> (Post \<Rightarrow> bool) \<Rightarrow> Post set" where
  "feed_set s keep = {hydrate p (author (frame s) (p_AuthorID p)) |i p. posts s i = Some p \<and> keep p}"

lemma feed_set_finite: "inv s \<Longrightarrow> finite (feed_set s keep)"
proof -
  assume "inv s"
  then have "finite ((\<lambda>p. hydrate p (author (frame s) (p_AuthorID p))) ` ran (posts s))"
    using posts_finite finite_ran by blast
  then show ?thesis
    by (rule rev_finite_subset) (auto simp: feed_set_def ran_def)
qed

lemma feed_set_inj: "inv s \<Longrightarrow> inj_on p_ID (feed_set s keep)"
  unfolding inj_on_def feed_set_def using posts_ID by fastforce

text \<open>Every set of stored posts has its one feed order.\<close>

lemma feed_ordered:
  assumes "inv s"
  obtains L where "feed_list L" "set L = feed_set s keep"
proof -
  obtain xs where xs: "set xs = feed_set s keep" "distinct xs"
    using finite_distinct_list [OF feed_set_finite [OF assms]] by blast
  have "strict_total feed_less (set xs)"
    unfolding xs(1) by (rule feed_less_strict_total [OF feed_set_inj [OF assms]])
  then have "feed_list (sort_slice feed_less xs)"
    unfolding feed_list_def using xs(2) by (rule sorted_sort_slice)
  then show ?thesis
    using that xs(1) by simp
qed

lemma feed_set_stamp: "inv s \<Longrightarrow> p \<in> feed_set s keep \<Longrightarrow> stamp (p_CreatedAt p) = p_CreatedAt p"
  using posts_stamp by (auto simp: feed_set_def)

lemma walk_feed:
  assumes s: "inv s" and d: "\<And>c. ok (d c)" and L: "feed_list L" "set L = feed_set s (\<lambda>_. True)"
    and c: "\<forall>p \<in> feed_set s (\<lambda>_. True). cursor_ok p"
  shows "walk (\<lambda>c. ps_Feed P (d c) \<lparr>pr_Cursor = c, pr_Limit = k\<rparr> s) (Suc (length L)) [] = Some L"
proof (rule walk_all)
  show "ps_Feed P (d c) \<lparr>pr_Cursor = c, pr_Limit = k\<rparr> s = page_of stamp layout_parse \<lparr>pr_Cursor = c, pr_Limit = k\<rparr> L" for c
    using L(2) by (intro Feed [OF s d L(1)]) (simp add: feed_set_def)
qed (use L c feed_set_stamp [OF s] in auto)

lemma walk_author:
  assumes s: "inv s" and d: "\<And>c. ok (d c)" and L: "feed_list L" "set L = feed_set s (\<lambda>p. p_AuthorID p = authorID)"
    and c: "\<forall>p \<in> feed_set s (\<lambda>_. True). cursor_ok p"
  shows "walk (\<lambda>c. ps_ByAuthor P (d c) authorID \<lparr>pr_Cursor = c, pr_Limit = k\<rparr> s) (Suc (length L)) [] = Some L"
proof (rule walk_all)
  show "ps_ByAuthor P (d c) authorID \<lparr>pr_Cursor = c, pr_Limit = k\<rparr> s =
      page_of stamp layout_parse \<lparr>pr_Cursor = c, pr_Limit = k\<rparr> L" for c
    using L(2) by (intro ByAuthor [OF s d L(1)]) (simp add: feed_set_def)
  have "feed_set s (\<lambda>p. p_AuthorID p = authorID) \<subseteq> feed_set s (\<lambda>_. True)"
    by (auto simp: feed_set_def)
  then show "\<forall>p \<in> set L. cursor_ok p"
    using L(2) c by auto
qed (use L feed_set_stamp [OF s] in auto)

end

section \<open>Concrete inputs\<close>

definition sp_pl :: PgLib where
  "sp_pl = \<lparr>pg_timestamptz = (\<lambda>t. t - t mod 1000), pg_lower = (\<lambda>s. s)\<rparr>"

definition sp_draw :: Draw where
  "sp_draw = \<lparr>d_now = hour, d_rand = (\<lambda>_. CHR ''r''), d_order = (\<lambda>_. 0), d_fault = None\<rparr>"

definition sp_user :: User where
  "sp_user = \<lparr>u_ID = ''u1'', u_Email = ''ada@example.com'', u_Username = ''ada'', u_DisplayName = ''Ada'', u_Bio = [],
     u_AvatarKey = None, u_CreatedAt = 0, u_UpdatedAt = 0\<rparr>"

definition sp_post :: "gostring \<Rightarrow> time \<Rightarrow> Post" where
  "sp_post i at = \<lparr>p_ID = i, p_AuthorID = ''u1'', p_Author = None, p_ImageKey = None, p_Caption = ''hi'', p_CreatedAt = at\<rparr>"

definition sp_upload :: Upload where
  "sp_upload = \<lparr>ul_Key = ''k'', ul_UserID = ''u1'', ul_Purpose = ''post'', ul_ContentType = ''image/png'',
     ul_ContentLength = 10, ul_CreatedAt = minute, ul_AttachedAt = None\<rparr>"

definition sp_db :: PgDB where
  "sp_db = \<lparr>t_users = [\<lparr>ur_User = sp_user, ur_password_hash = ''h''\<rparr>],
     t_posts = [sp_post ''pa'' minute, sp_post ''pb'' hour], t_tokens = [], t_uploads = [sp_upload]\<rparr>"

definition sp_mem :: MemStore where
  "sp_mem = \<lparr>m_users = [(''u1'', sp_user)], m_passwords = [(''u1'', ''h'')],
     m_posts = [(''pb'', sp_post ''pb'' hour), (''pa'', sp_post ''pa'' minute)], m_tokens = [], m_uploads = [(''k'', sp_upload)]\<rparr>"

lemma sp_pg_inv: "pg_inv sp_pl sp_db"
  by (simp add: pg_inv_def sp_db_def pg_users_ok_def pg_posts_ok_def pg_tokens_ok_def pg_uploads_ok_def user_exists_def
      users_check_None sp_user_def sp_pl_def sp_post_def sp_upload_def rune_count_ascii is_ascii_def username_char_def)

lemma sp_mem_inv: "mem_inv sp_mem"
  by (simp add: mem_inv_def sp_mem_def users_ok_def posts_ok_def tokens_ok_def uploads_ok_def gomap_ok_def sp_user_def
      sp_post_def sp_upload_def)

lemma sp_ok: "pg_ok sp_pl sp_draw"
  by (simp add: pg_ok_def sp_pl_def sp_draw_def)

lemma sp_rows:
  "pg_posts sp_db i = (if i = ''pa'' then Some (sp_post ''pa'' minute) else if i = ''pb'' then Some (sp_post ''pb'' hour) else None)"
  "pg_users sp_db i = (if i = ''u1'' then Some sp_user else None)"
  "pg_upls sp_db i = (if i = ''k'' then Some sp_upload else None)"
  "map_of (m_posts sp_mem) i = (if i = ''pa'' then Some (sp_post ''pa'' minute) else if i = ''pb'' then Some (sp_post ''pb'' hour) else None)"
  "map_of (m_users sp_mem) i = (if i = ''u1'' then Some sp_user else None)"
  "map_of (m_uploads sp_mem) i = (if i = ''k'' then Some sp_upload else None)"
  by (auto simp: keyed_def pg_users_def sp_db_def sp_mem_def sp_post_def sp_user_def sp_upload_def)

section \<open>Pages\<close>


lemma sp_cursor_ok: "cursor_ok (sp_post ''pa'' minute)" "cursor_ok (sp_post ''pb'' hour)"
  by code_simp+


text \<open>The two stores serve the same pages: when they hold the same posts and authors, every feed request
  gets the same answer from both, error or page, cursor included, provided the position its cursor
  carries has the precision Postgres stores.\<close>

theorem stores_serve_same_feed:
  assumes "mem_inv s" and "pg_inv pl db" and "pg_ok pl d'"
    and "\<forall>i. map_of (m_posts s) i = pg_posts db i" and "\<forall>i. map_of (m_users s) i = pg_users db i"
    and "request_cursor (pg_timestamptz pl) layout_parse (Normalise req) = request_cursor (\<lambda>t. t) layout_parse (Normalise req)"
  shows "pg_post_Feed pl layout_parse d' req db = mem_post_Feed layout_parse d req s"
proof -
  obtain L where L: "feed_list L" "set L = mem_pst.feed_set s (\<lambda>_. True)"
    using mem_pst.feed_ordered [OF assms(1)] .
  have "mem_pst.feed_set s (\<lambda>_. True) = pg_pst.feed_set db (\<lambda>_. True)"
    unfolding mem_pst.feed_set_def pg_pst.feed_set_def using assms(4,5) by (simp add: pg_users_def)
  then have set_L: "set L = {hydrate p (pg_users (db\<lparr>t_posts := []\<rparr>) (p_AuthorID p)) |i p. pg_posts db i = Some p}"
    using L(2) by (simp add: pg_pst.feed_set_def)
  have "mem_post_Feed layout_parse d req s = page_of (\<lambda>t. t) layout_parse req L"
    using mem_pst.Feed [OF assms(1) TrueI L(1), of layout_parse d req] L(2)
    by (simp add: mem_Posts_def mem_pst.feed_set_def)
  moreover have "pg_post_Feed pl layout_parse d' req db = page_of (pg_timestamptz pl) layout_parse req L"
    using pg_pst.Feed [OF assms(2,3) L(1) set_L, of layout_parse req] by (simp add: pg_Posts_def)
  ultimately show ?thesis
    by (simp add: page_of_def Let_def assms(6))
qed

theorem stores_serve_same_feed_witness:
  "pg_post_Feed sp_pl (\<lambda>_. None) sp_draw \<lparr>pr_Cursor = [], pr_Limit = 1\<rparr> sp_db =
   mem_post_Feed (\<lambda>_. None) sp_draw \<lparr>pr_Cursor = [], pr_Limit = 1\<rparr> sp_mem"
  using stores_serve_same_feed [OF sp_mem_inv sp_pg_inv sp_ok, of "\<lambda>_. None" "\<lparr>pr_Cursor = [], pr_Limit = 1\<rparr>" sp_draw]
  by (simp add: sp_rows request_cursor_def)



text \<open>A page of the memory store does not depend on the order in which the runtime iterates its maps.\<close>

theorem memory_page_order_independent:
  assumes "mem_inv s"
  shows "mem_page layout_parse d req keep s = mem_page layout_parse d' req keep s"
proof -
  obtain L where L: "feed_list L" "set L = mem_pst.feed_set s keep"
    using mem_pst.feed_ordered [OF assms] .
  then have "set L = {hydrate p (map_of (m_users s) (p_AuthorID p)) |i p. map_of (m_posts s) i = Some p \<and> keep p}"
    by (simp add: mem_pst.feed_set_def)
  note page = mem_page_page_of [OF assms L(1) this]
  show ?thesis
    unfolding page ..
qed

section \<open>Uploads\<close>

text \<open>C27: claiming an upload on the Postgres store: an unknown key is "not found", a key of somebody else, of
  another purpose or already attached is "forbidden", both without any effect; otherwise the row is
  stamped, and from then on every claim of that key, by anyone and for any purpose, is forbidden.\<close>

theorem claim_is_exclusive:
  assumes "pg_inv pl db" and "pg_ok pl d"
  shows "case pg_upls db key of
      None \<Rightarrow> pg_upload_Claim pl d key userID purpose at db = (Inl ErrNotFound, db)
    | Some u \<Rightarrow>
        if ul_UserID u = userID \<and> ul_Purpose u = purpose \<and> ul_AttachedAt u = None
        then \<exists>db'. pg_upload_Claim pl d key userID purpose at db = (Inr (), db') \<and> pg_inv pl db'
               \<and> db'\<lparr>t_uploads := []\<rparr> = db\<lparr>t_uploads := []\<rparr>
               \<and> pg_upls db' = (pg_upls db)(key := Some (u\<lparr>ul_AttachedAt := Some (pg_timestamptz pl at)\<rparr>))
               \<and> (\<forall>d' userID' purpose' at'. pg_ok pl d' \<longrightarrow>
                    pg_upload_Claim pl d' key userID' purpose' at' db' = (Inl ErrForbidden, db'))
        else pg_upload_Claim pl d key userID purpose at db = (Inl ErrForbidden, db)"
proof (cases "pg_upls db key")
  case None
  then show ?thesis
    using pg_upl.Claim_missing [OF assms None] by (simp add: pg_Uploads_def)
next
  case (Some u)
  show ?thesis
  proof (cases "ul_UserID u = userID \<and> ul_Purpose u = purpose \<and> ul_AttachedAt u = None")
    case True
    then obtain db' where db': "pg_upload_Claim pl d key userID purpose at db = (Inr (), db')" "pg_inv pl db'"
      "db'\<lparr>t_uploads := []\<rparr> = db\<lparr>t_uploads := []\<rparr>"
      "pg_upls db' = (pg_upls db)(key := Some (u\<lparr>ul_AttachedAt := Some (pg_timestamptz pl at)\<rparr>))"
      using pg_upl.Claim_ok [OF assms Some, of userID purpose at] by (auto simp: pg_Uploads_def)
    have "pg_upload_Claim pl d' key userID' purpose' at' db' = (Inl ErrForbidden, db')" if "pg_ok pl d'" for d' userID' purpose' at'
      using pg_upl.Claim_forbidden [OF db'(2) that, of key "u\<lparr>ul_AttachedAt := Some (pg_timestamptz pl at)\<rparr>" userID' purpose' at']
        db'(4) by (simp add: pg_Uploads_def)
    then show ?thesis
      using Some True db' by auto
  next
    case False
    then show ?thesis
      using Some pg_upl.Claim_forbidden [OF assms Some, of userID purpose at] by (auto simp: pg_Uploads_def)
  qed
qed

theorem claim_is_exclusive_witness:
  "\<exists>db'. pg_upload_Claim sp_pl sp_draw ''k'' ''u1'' ''post'' hour sp_db = (Inr (), db')
     \<and> pg_upload_Claim sp_pl sp_draw ''k'' ''u1'' ''post'' hour db' = (Inl ErrForbidden, db')"
proof -
  have row: "pg_upls sp_db ''k'' = Some sp_upload" "ul_UserID sp_upload = ''u1''" "ul_Purpose sp_upload = ''post''"
    "ul_AttachedAt sp_upload = None"
    by (simp_all add: sp_rows sp_upload_def)
  show ?thesis
    using claim_is_exclusive [OF sp_pg_inv sp_ok, of "''k''" "''u1''" "''post''" hour] sp_ok unfolding row option.case
    by auto
qed

text \<open>The rows a clean-up picks are the oldest of the abandoned ones.\<close>

lemma oldest_picked:
  assumes inv: "pg_inv pl db" and u: "u \<in> set (t_uploads db)" "ul_Key u \<in> set (oldest_abandoned d older (nat limit) db)"
  shows "ul_AttachedAt u = None \<and> ul_CreatedAt u < older"
    and "v \<in> set (t_uploads db) \<Longrightarrow> ul_Key v \<notin> set (oldest_abandoned d older (nat limit) db) \<Longrightarrow> abandoned older v
      \<Longrightarrow> ul_CreatedAt u \<le> ul_CreatedAt v"
proof -
  let ?sorted = "sort_slice (\<lambda>a b. ul_CreatedAt a < ul_CreatedAt b) (filter (abandoned older) (shuffle (d_order d) (t_uploads db)))"
  have sorted: "sorted (map ul_CreatedAt ?sorted)"
    by (rule sorted_by_key)
  have split: "?sorted = take (nat limit) ?sorted @ drop (nat limit) ?sorted"
    by simp
  obtain w where w: "w \<in> set (take (nat limit) ?sorted)" "ul_Key w = ul_Key u"
    using u(2) by (auto simp: oldest_abandoned_def)
  then have "w \<in> set (t_uploads db)"
    by (auto dest!: in_set_takeD)
  then have "w = u"
    using w(2) u(1) pg_uploads_keys [OF inv] by (auto simp: distinct_map inj_on_def)
  then have old: "u \<in> set (take (nat limit) ?sorted)"
    using w(1) by simp
  show "ul_AttachedAt u = None \<and> ul_CreatedAt u < older"
    using old by (auto dest!: in_set_takeD simp: abandoned_def)
  assume v: "v \<in> set (t_uploads db)" "ul_Key v \<notin> set (oldest_abandoned d older (nat limit) db)" "abandoned older v"
  have "v \<in> set ?sorted"
    using v by simp
  moreover have "v \<notin> set (take (nat limit) ?sorted)"
    using v(2) by (auto simp: oldest_abandoned_def)
  ultimately have "v \<in> set (drop (nat limit) ?sorted)"
    by (metis Un_iff append_take_drop_id set_append)
  then show "ul_CreatedAt u \<le> ul_CreatedAt v"
    using sorted old by (subst (asm) split) (auto simp: sorted_append simp del: append_take_drop_id)
qed

text \<open>C29: a clean-up of the Postgres store releases only uploads that were never attached and were created before the
  cutoff, at most as many as the limit, the oldest first, reports each released key once, and
  leaves every other upload and every other table alone.\<close>

theorem release_only_abandoned:
  assumes "pg_inv pl db" and "pg_ok pl d" and "0 \<le> limit"
  shows "\<exists>keys db'. pg_upload_ReleaseAbandoned pl d before limit db = (Inr keys, db') \<and> pg_inv pl db'
    \<and> db'\<lparr>t_uploads := []\<rparr> = db\<lparr>t_uploads := []\<rparr> \<and> distinct keys \<and> int (length keys) \<le> limit
    \<and> t_uploads db' = filter (\<lambda>u. ul_Key u \<notin> set keys) (t_uploads db)
    \<and> (\<forall>u \<in> set (t_uploads db). ul_Key u \<in> set keys \<longrightarrow>
         ul_AttachedAt u = None \<and> ul_CreatedAt u < pg_timestamptz pl before)
    \<and> (\<forall>u \<in> set (t_uploads db). \<forall>v \<in> set (t_uploads db'). ul_Key u \<in> set keys \<longrightarrow>
         abandoned (pg_timestamptz pl before) v \<longrightarrow> ul_CreatedAt u \<le> ul_CreatedAt v)"
proof -
  let ?cut = "pg_timestamptz pl before"
  let ?oldest = "oldest_abandoned d ?cut (nat limit) db"
  define keys where "keys = map ul_Key (filter (\<lambda>u. ul_Key u \<in> set ?oldest) (t_uploads db))"
  note rel = released_keys [OF assms(1,3) keys_def]
  obtain db' where run: "pg_upload_ReleaseAbandoned pl d before limit db = (Inr keys, db')"
    and rows: "db' = db\<lparr>t_uploads := filter (\<lambda>u. ul_Key u \<notin> set ?oldest) (t_uploads db)\<rparr>"
    using assms(2,3)
    by (simp add: pg_upload_ReleaseAbandoned_def release_uploads_def pg_ok_def Let_def keys_def)
  have inv: "pg_inv pl db'"
    unfolding rows using pg_uploads_keys [OF assms(1)] pg_uploads_user [OF assms(1)]
    by (intro pg_inv_set_uploads [OF assms(1)] distinct_keys_filter) auto
  note old = oldest_picked [OF assms(1), of _ d ?cut limit]
  show ?thesis
    using run inv rel rows old by (intro exI [of _ keys] exI [of _ db']) auto
qed

theorem release_only_abandoned_witness:
  "\<exists>keys db'. pg_upload_ReleaseAbandoned sp_pl sp_draw hour 500 sp_db = (Inr keys, db') \<and> int (length keys) \<le> 500
     \<and> t_uploads db' = filter (\<lambda>u. ul_Key u \<notin> set keys) (t_uploads sp_db)"
  using release_only_abandoned [OF sp_pg_inv sp_ok, of 500 hour] by auto

section \<open>Posts and users\<close>

text \<open>C28: deleting a post answers "not found" for an id no post has and "forbidden" for somebody else's post, both
  without effect, and otherwise removes exactly that post: on the Postgres store the single
  statement with its two counts implements this.\<close>

theorem delete_post_outcomes:
  assumes "pg_inv pl db" and "pg_ok pl d"
  shows "case pg_posts db ident of
      None \<Rightarrow> pg_post_Delete d ident requester db = (Inl ErrNotFound, db)
    | Some p \<Rightarrow>
        if p_AuthorID p \<noteq> requester then pg_post_Delete d ident requester db = (Inl ErrForbidden, db)
        else \<exists>db'. pg_post_Delete d ident requester db = (Inr (), db') \<and> pg_inv pl db'
               \<and> db'\<lparr>t_posts := []\<rparr> = db\<lparr>t_posts := []\<rparr> \<and> pg_posts db' = (pg_posts db)(ident := None)"
proof (cases "pg_posts db ident")
  case None
  then show ?thesis
    using pg_pst.Delete_missing [OF assms None] by (simp add: pg_Posts_def)
next
  case (Some p)
  then show ?thesis
    using pg_pst.Delete_forbidden [OF assms Some, of requester] pg_pst.Delete_ok [OF assms Some, of requester]
    by (auto simp: pg_Posts_def)
qed

theorem delete_post_outcomes_witness:
  "pg_post_Delete sp_draw ''zz'' ''u1'' sp_db = (Inl ErrNotFound, sp_db)
   \<and> pg_post_Delete sp_draw ''pa'' ''u2'' sp_db = (Inl ErrForbidden, sp_db)
   \<and> (\<exists>db'. pg_post_Delete sp_draw ''pa'' ''u1'' sp_db = (Inr (), db') \<and> pg_posts db' ''pa'' = None)"
proof -
  have author: "p_AuthorID (sp_post i t) = ''u1''" for i t
    by (simp add: sp_post_def)
  show ?thesis
    using delete_post_outcomes [OF sp_pg_inv sp_ok, of "''zz''" "''u1''"] delete_post_outcomes [OF sp_pg_inv sp_ok, of "''pa''" "''u2''"]
      delete_post_outcomes [OF sp_pg_inv sp_ok, of "''pa''" "''u1''"]
    by (auto simp: sp_rows author)
qed

text \<open>An account whose email or username is taken is refused on the Postgres store with a conflict that names a
  field that really clashes, and nothing is stored; an account with fresh ones is stored exactly as
  given, with the password hash beside it.\<close>

theorem create_user_unique:
  assumes "pg_inv pl db" and "pg_ok pl d" and "pg_admits pl inp" and "pg_users db (NewID d) = None"
  shows "if \<exists>i u. pg_users db i = Some u \<and> (u_Email u = nu_Email inp \<or> u_Username u = nu_Username inp)
    then \<exists>field reason. pg_user_Create pl d inp db = (Inl (ConflictError field reason), db)
       \<and> (field = ''email'' \<and> (\<exists>i u. pg_users db i = Some u \<and> u_Email u = nu_Email inp)
          \<or> field = ''username'' \<and> (\<exists>i u. pg_users db i = Some u \<and> u_Username u = nu_Username inp))
    else \<exists>db'. pg_user_Create pl d inp db = (Inr (new_user_row d inp), db') \<and> pg_inv pl db'
       \<and> db'\<lparr>t_users := []\<rparr> = db\<lparr>t_users := []\<rparr>
       \<and> pg_users db' = (pg_users db)(NewID d := Some (new_user_row d inp))
       \<and> pg_hash_of db' = (pg_hash_of db)(NewID d := nu_PasswordHash inp)"
proof (cases "\<exists>i u. pg_users db i = Some u \<and> (u_Email u = nu_Email inp \<or> u_Username u = nu_Username inp)")
  case True
  then obtain i u where u: "pg_users db i = Some u" "u_Email u = nu_Email inp \<or> u_Username u = nu_Username inp"
    by blast
  show ?thesis
    using True pg_usr.Create_conflict [OF assms u] by (simp add: pg_Users_def)
next
  case False
  then have fresh: "\<And>i u. pg_users db i = Some u \<Longrightarrow> u_Email u \<noteq> nu_Email inp \<and> u_Username u \<noteq> nu_Username inp"
    by blast
  have run: "us_Create (pg_Users pl) = pg_user_Create pl"
    by (simp add: pg_Users_def)
  show ?thesis
    unfolding if_not_P [OF False] by (rule pg_usr.Create_ok [OF assms fresh, unfolded run])
qed

theorem create_user_unique_witness:
  "\<exists>reason. pg_user_Create sp_pl sp_draw
      \<lparr>nu_Email = ''ada@example.com'', nu_Username = ''ada2'', nu_DisplayName = ''Ada'', nu_PasswordHash = ''h''\<rparr> sp_db =
    (Inl (ConflictError ''email'' reason), sp_db)"
proof -
  let ?inp = "\<lparr>nu_Email = ''ada@example.com'', nu_Username = ''ada2'', nu_DisplayName = ''Ada'', nu_PasswordHash = ''h''\<rparr>"
  have adm: "pg_admits sp_pl ?inp"
    by (simp add: pg_admits_def sp_pl_def rune_count_ascii is_ascii_def username_char_def)
  have new: "pg_users sp_db (NewID sp_draw) = None"
  proof -
    have "NewID sp_draw \<noteq> ''u1''"
      by (rule notI) (use length_NewID [of sp_draw] in simp)
    then show ?thesis
      by (simp add: sp_rows)
  qed
  have taken: "\<exists>i u. pg_users sp_db i = Some u \<and> (u_Email u = nu_Email ?inp \<or> u_Username u = nu_Username ?inp)"
    by (simp add: sp_rows sp_user_def)
  have free: "\<not> (\<exists>i u. pg_users sp_db i = Some u \<and> u_Username u = nu_Username ?inp)"
    by (simp add: sp_rows sp_user_def)
  show ?thesis
    using create_user_unique [OF sp_pg_inv sp_ok adm new] taken free by (auto simp: if_P)
qed

text \<open>
  Where the two stores differ: an update that names no field reads the row back unchanged in
  Postgres, and stamps \<open>UpdatedAt\<close> in memory.
\<close>

definition no_update :: UserUpdate where
  "no_update = \<lparr>uu_DisplayName = None, uu_Bio = None, uu_AvatarKey = None, uu_ClearAvatar = False\<rparr>"

lemma empty_update_differs:
  "pg_ok pl d \<Longrightarrow> pg_users db i = Some u \<Longrightarrow> pg_user_Update pl d i no_update db = (Inr u, db)"
  "map_of (m_users s) i = Some u \<Longrightarrow>
     mem_user_Update d i no_update s = (Inr (u\<lparr>u_UpdatedAt := d_now d\<rparr>),
       s\<lparr>m_users := AList.update i (u\<lparr>u_UpdatedAt := d_now d\<rparr>) (m_users s)\<rparr>)"
  by (auto simp: no_update_def pg_user_Update_def update_assignments_def pg_user_ByID_def pg_ok_def first_row_map
      first_row_filter pg_users_def keyed_def mem_user_Update_def apply_update_def Let_def)

end
