(* ===== verification/Validate.thy ===== *)
theory Validate
  imports GoStrings Prelude
begin

text \<open>
  The field rules of \<open>internal/validate/validate.go\<close>, with the parts of \<open>net/mail\<close>, \<open>net\<close> and
  \<open>regexp\<close> they rely on.  The Go functions record their complaint through a pointer to the
  error map; here each takes the map and returns the normalised value with the new map.
\<close>

section \<open>The error map\<close>

type_synonym Errors = "gostring gomap"

definition Errors_Add :: "gostring \<Rightarrow> gostring \<Rightarrow> Errors \<Rightarrow> Errors" where
  "Errors_Add field reason e = (if map_of e field = None then AList.update field reason e else e)"

definition Errors_Any :: "Errors \<Rightarrow> bool" where
  "Errors_Any e \<longleftrightarrow> length e > 0"

definition EmailMaxLength :: nat where "EmailMaxLength = 254"
definition UsernameMinLength :: nat where "UsernameMinLength = 3"
definition UsernameMaxLength :: nat where "UsernameMaxLength = 30"
definition PasswordMinLength :: nat where "PasswordMinLength = 8"
definition PasswordMaxLength :: nat where "PasswordMaxLength = 128"
definition DisplayNameMinLength :: nat where "DisplayNameMinLength = 1"
definition DisplayNameMaxLength :: nat where "DisplayNameMaxLength = 50"
definition BioMaxLength :: nat where "BioMaxLength = 160"
definition CaptionMaxLength :: nat where "CaptionMaxLength = 2200"

lemmas limit_defs = EmailMaxLength_def UsernameMinLength_def UsernameMaxLength_def PasswordMinLength_def
  PasswordMaxLength_def DisplayNameMinLength_def DisplayNameMaxLength_def BioMaxLength_def CaptionMaxLength_def

section \<open>Addresses of hosts (\<open>net.ParseIP\<close>)\<close>

text \<open>Four decimal fields of at most 255, none with a leading zero.\<close>

definition octet_ok :: "gostring \<Rightarrow> bool" where
  "octet_ok f \<longleftrightarrow> f \<noteq> [] \<and> list_all is_digit f \<and> (length f > 1 \<longrightarrow> hd f \<noteq> CHR ''0'') \<and> digits_val f \<le> 255"

definition ipv4_ok :: "gostring \<Rightarrow> bool" where
  "ipv4_ok s =
     (let (a, s1, f1) = cut CHR ''.'' s; (b, s2, f2) = cut CHR ''.'' s1; (c, d, f3) = cut CHR ''.'' s2
      in f1 \<and> f2 \<and> f3 \<and> octet_ok a \<and> octet_ok b \<and> octet_ok c \<and> octet_ok d)"

definition is_hex_digit :: "char \<Rightarrow> bool" where
  "is_hex_digit c \<longleftrightarrow> (let n = of_char c in in_range 48 57 n \<or> in_range 97 102 n \<or> in_range 65 70 n)"

text \<open>
  The loop of \<open>netip.parseIPv6\<close>: \<open>i\<close> bytes are written, \<open>ellipsis\<close> records whether a double
  colon has been seen.  Each round writes a group, so eight units of fuel are enough.
\<close>

fun ipv6_groups :: "nat \<Rightarrow> nat \<Rightarrow> bool \<Rightarrow> gostring \<Rightarrow> bool" where
  "ipv6_groups n i ellipsis s =
     (if i \<ge> 16 then s = [] \<and> \<not> ellipsis
      else (case n of 0 \<Rightarrow> False
      | Suc n' \<Rightarrow>
          (let h = takeWhile is_hex_digit s; rest = dropWhile is_hex_digit s
          in if h = [] \<or> length h > 4 then False
             else (case rest of
               [] \<Rightarrow> if i + 2 < 16 then ellipsis else \<not> ellipsis
             | c # cs \<Rightarrow>
                 if c = CHR ''.'' then
                   (ellipsis \<or> i = 12) \<and> i + 4 \<le> 16 \<and> ipv4_ok s \<and> (if i + 4 < 16 then ellipsis else \<not> ellipsis)
                 else if c \<noteq> CHR '':'' then False
                 else (case cs of
                     [] \<Rightarrow> False
                   | c2 # cs2 \<Rightarrow>
                       if c2 = CHR '':'' then
                         (if ellipsis then False
                          else if cs2 = [] then i + 2 < 16
                          else ipv6_groups n' (i + 2) True cs2)
                       else ipv6_groups n' (i + 2) ellipsis cs)))))"

declare ipv6_groups.simps [simp del]

definition ipv6_ok :: "gostring \<Rightarrow> bool" where
  "ipv6_ok s =
     (if take 2 s = ''::'' then (drop 2 s = [] \<or> ipv6_groups 8 0 True (drop 2 s))
      else ipv6_groups 8 0 False s)"

text \<open>The first of the bytes \<open>. : %\<close> decides the family; a zone makes \<open>net.ParseIP\<close> fail.\<close>

definition ParseIP :: "gostring \<Rightarrow> bool" where
  "ParseIP s =
     (if CHR ''%'' \<in> set s then False
      else case find (\<lambda>c. c = CHR ''.'' \<or> c = CHR '':'') s of
        None \<Rightarrow> False
      | Some c \<Rightarrow> if c = CHR ''.'' then ipv4_ok s else ipv6_ok s)"

section \<open>Mail addresses\<close>

text \<open>
  \<open>addr, err := mail.ParseAddress(s)\<close> followed by \<open>err == nil && addr.Address == s\<close>.  The address
  the parser returns is its local part, an at sign and its domain; quotes, comments, angle
  brackets, a display name and surrounding blanks are dropped from it, so it is the whole text
  exactly when the text is a dot-atom, an at sign, and a dot-atom or an address literal.
\<close>

definition is_atext :: "nat \<Rightarrow> bool" where
  "is_atext r \<longleftrightarrow> r \<notin> set (map of_char ''()<>[]:;@,'') \<and> r \<noteq> 0x22 \<and> r \<noteq> 0x5C \<and> (in_range 33 126 r \<or> 128 \<le> r)"

definition is_dtext :: "nat \<Rightarrow> bool" where
  "is_dtext r \<longleftrightarrow> r \<noteq> 0x5B \<and> r \<noteq> 0x5C \<and> r \<noteq> 0x5D \<and> (in_range 33 126 r \<or> 128 \<le> r)"

definition valid_rune :: "nat \<times> gostring \<Rightarrow> bool" where
  "valid_rune p \<longleftrightarrow> \<not> (fst p = rune_error \<and> length (snd p) = 1)"

fun has_double_dot :: "gostring \<Rightarrow> bool" where
  "has_double_dot (a # b # cs) \<longleftrightarrow> (a = CHR ''.'' \<and> b = CHR ''.'') \<or> has_double_dot (b # cs)"
| "has_double_dot _ \<longleftrightarrow> False"

definition dot_atom :: "gostring \<Rightarrow> bool" where
  "dot_atom s \<longleftrightarrow> s \<noteq> [] \<and> list_all (\<lambda>p. valid_rune p \<and> is_atext (fst p)) (runes s)
     \<and> hd s \<noteq> CHR ''.'' \<and> last s \<noteq> CHR ''.'' \<and> \<not> has_double_dot s"

definition domain_literal :: "gostring \<Rightarrow> bool" where
  "domain_literal s \<longleftrightarrow> length s \<ge> 2 \<and> hd s = CHR ''['' \<and> last s = CHR '']''
     \<and> (let d = butlast (tl s) in list_all (\<lambda>p. valid_rune p \<and> is_dtext (fst p)) (runes d) \<and> ParseIP d)"

definition is_bare_address :: "gostring \<Rightarrow> bool" where
  "is_bare_address s =
     (let (local_part, domain, found) = cut CHR ''@'' s
      in found \<and> dot_atom local_part \<and> (dot_atom domain \<or> domain_literal domain))"

section \<open>The rules\<close>

text \<open>\<open>usernamePattern\<close>, the regular expression of one or more lowercase letters, digits and underscores.\<close>

definition usernamePattern :: "gostring \<Rightarrow> bool" where
  "usernamePattern s \<longleftrightarrow> s \<noteq> [] \<and>
     list_all (\<lambda>c. in_range 97 122 (of_char c) \<or> in_range 48 57 (of_char c) \<or> c = CHR ''_'') s"

definition Email :: "(nat \<Rightarrow> nat) \<Rightarrow> Errors \<Rightarrow> gostring \<Rightarrow> gostring \<Rightarrow> gostring \<times> Errors" where
  "Email uni errs field v =
     (let normalised = to_lower uni (trim_space v)
      in (normalised,
          if normalised = [] then Errors_Add field ''is required'' errs
          else if length normalised > EmailMaxLength then Errors_Add field ''must be 254 characters or fewer'' errs
          else if \<not> is_bare_address normalised then Errors_Add field ''must be a valid email address'' errs
          else errs))"

definition Username :: "Errors \<Rightarrow> gostring \<Rightarrow> gostring \<Rightarrow> gostring \<times> Errors" where
  "Username errs field v =
     (let normalised = trim_space v
      in (normalised,
          if normalised = [] then Errors_Add field ''is required'' errs
          else if length normalised < UsernameMinLength \<or> length normalised > UsernameMaxLength then
            Errors_Add field ''must be between 3 and 30 characters'' errs
          else if \<not> usernamePattern normalised then
            Errors_Add field ''may only contain lowercase letters, numbers and underscores'' errs
          else errs))"

definition Password :: "Errors \<Rightarrow> gostring \<Rightarrow> gostring \<Rightarrow> gostring \<times> Errors" where
  "Password errs field v =
     (v,
      if v = [] then Errors_Add field ''is required'' errs
      else if length v < PasswordMinLength then Errors_Add field ''must be at least 8 characters'' errs
      else if length v > PasswordMaxLength then Errors_Add field ''must be 128 characters or fewer'' errs
      else errs)"

definition DisplayName :: "Errors \<Rightarrow> gostring \<Rightarrow> gostring \<Rightarrow> gostring \<times> Errors" where
  "DisplayName errs field v =
     (let normalised = trim_space v
      in (normalised,
          if rune_count normalised < DisplayNameMinLength then Errors_Add field ''is required'' errs
          else if rune_count normalised > DisplayNameMaxLength then Errors_Add field ''must be 50 characters or fewer'' errs
          else errs))"

definition Bio :: "Errors \<Rightarrow> gostring \<Rightarrow> gostring \<Rightarrow> gostring \<times> Errors" where
  "Bio errs field v =
     (let normalised = trim_space v
      in (normalised,
          if rune_count normalised > BioMaxLength then Errors_Add field ''must be 160 characters or fewer'' errs else errs))"

definition Caption :: "Errors \<Rightarrow> gostring \<Rightarrow> gostring \<Rightarrow> gostring \<times> Errors" where
  "Caption errs field v =
     (let normalised = trim_space v
      in (normalised,
          if rune_count normalised > CaptionMaxLength then Errors_Add field ''must be 2,200 characters or fewer'' errs else errs))"

lemmas validator_defs = Email_def Username_def Password_def DisplayName_def Bio_def Caption_def

section \<open>Which values pass\<close>

lemma Errors_Any_iff [simp]: "Errors_Any e \<longleftrightarrow> e \<noteq> []"
  by (simp add: Errors_Any_def)

lemma Errors_Add_nonempty [simp]: "Errors_Add f r e \<noteq> []"
  by (cases e) (auto simp: Errors_Add_def)

text \<open>The first reason recorded for a field stays.\<close>

lemma Errors_Add_first:
  "map_of (Errors_Add f r e) g = (if g = f then Some (case map_of e f of None \<Rightarrow> r | Some r0 \<Rightarrow> r0) else map_of e g)"
  by (auto simp: Errors_Add_def update_conv split: option.splits)

lemma Errors_Add_ok: "gomap_ok e \<Longrightarrow> gomap_ok (Errors_Add f r e)"
  by (simp add: Errors_Add_def)

text \<open>A validator complains only about a value outside its rule, and only through its own field.\<close>

lemma validators_frame:
  "g \<noteq> f \<Longrightarrow> map_of (snd (Email uni e f v)) g = map_of e g"
  "g \<noteq> f \<Longrightarrow> map_of (snd (Username e f v)) g = map_of e g"
  "g \<noteq> f \<Longrightarrow> map_of (snd (Password e f v)) g = map_of e g"
  "g \<noteq> f \<Longrightarrow> map_of (snd (DisplayName e f v)) g = map_of e g"
  "g \<noteq> f \<Longrightarrow> map_of (snd (Bio e f v)) g = map_of e g"
  "g \<noteq> f \<Longrightarrow> map_of (snd (Caption e f v)) g = map_of e g"
  by (simp_all add: validator_defs Let_def Errors_Add_first)

lemma Email_ok_iff:
  "snd (Email uni e f v) = [] \<longleftrightarrow> e = [] \<and> length (fst (Email uni e f v)) \<le> 254 \<and> is_bare_address (fst (Email uni e f v))"
  by (auto simp: Email_def Let_def limit_defs is_bare_address_def)

lemma Username_ok_iff:
  "snd (Username e f v) = [] \<longleftrightarrow> e = [] \<and> 3 \<le> length (fst (Username e f v)) \<and> length (fst (Username e f v)) \<le> 30
     \<and> usernamePattern (fst (Username e f v))"
  by (auto simp: Username_def Let_def limit_defs usernamePattern_def)

lemma Password_ok_iff:
  "snd (Password e f v) = [] \<longleftrightarrow> e = [] \<and> 8 \<le> length v \<and> length v \<le> 128"
  by (auto simp: Password_def limit_defs)

lemma DisplayName_ok_iff:
  "snd (DisplayName e f v) = [] \<longleftrightarrow> e = [] \<and> 1 \<le> rune_count (fst (DisplayName e f v)) \<and> rune_count (fst (DisplayName e f v)) \<le> 50"
  by (auto simp: DisplayName_def Let_def limit_defs)

lemma Bio_ok_iff: "snd (Bio e f v) = [] \<longleftrightarrow> e = [] \<and> rune_count (fst (Bio e f v)) \<le> 160"
  by (auto simp: Bio_def Let_def limit_defs)

lemma Caption_ok_iff: "snd (Caption e f v) = [] \<longleftrightarrow> e = [] \<and> rune_count (fst (Caption e f v)) \<le> 2200"
  by (auto simp: Caption_def Let_def limit_defs)

end
