(* ===== verification/Http.thy ===== *)
theory Http
  imports Json Validate Encoding
begin

text \<open>
  Requests, responses and errors: the parts of \<open>net/http\<close> the program uses, the error type of
  \<open>internal/httpx/errors.go\<close> and the response writers of \<open>internal/httpx/respond.go\<close>.
\<close>

section \<open>Requests\<close>

text \<open>
  \<open>rq_Path\<close> is the cleaned path, as the list of its unescaped segments, a trailing slash being
  a last segment that is a slash.  \<open>rq_Query\<close> and \<open>rq_Header\<close> are \<open>URL.Query().Get\<close> and
  \<open>Header.Get\<close>.  The last three fields are what the router and the middleware add: the values
  of the path's wildcards and the two values of the request context.
\<close>

record 'u Request =
  rq_Method :: gostring
  rq_Path :: "gostring list"
  rq_Query :: "gostring \<Rightarrow> gostring"
  rq_Header :: "gostring \<Rightarrow> gostring"
  rq_Body :: gostring
  rq_RemoteAddr :: gostring
  rq_PathValue :: "gostring \<Rightarrow> gostring"
  rq_requestID :: gostring
  rq_currentUser :: "'u option"

definition url_path :: "'u Request \<Rightarrow> gostring" where
  "url_path r = (if rq_Path r = [] then ''/'' else concat (map (\<lambda>seg. if seg = ''/'' then seg else CHR ''/'' # seg) (rq_Path r)))"

definition MethodGet :: gostring where "MethodGet = ''GET''"
definition MethodHead :: gostring where "MethodHead = ''HEAD''"
definition MethodPost :: gostring where "MethodPost = ''POST''"
definition MethodPatch :: gostring where "MethodPatch = ''PATCH''"
definition MethodDelete :: gostring where "MethodDelete = ''DELETE''"
definition MethodOptions :: gostring where "MethodOptions = ''OPTIONS''"

section \<open>The response writer\<close>

text \<open>
  Headers may change until the status line is sent; \<open>wr_Sent\<close> is what went out with it.  A status
  of 0 means nothing has been sent.  \<open>wr_rec\<close> is the recorder of \<open>statusRecorder\<close> when one is
  wrapped around the writer: the status and the number of bytes it has seen.
\<close>

record Writer =
  wr_Header :: "gostring gomap"
  wr_Status :: int
  wr_Sent :: "gostring gomap"
  wr_Body :: gostring
  wr_rec :: "(int \<times> nat) option"

definition new_writer :: Writer where
  "new_writer = \<lparr>wr_Header = [], wr_Status = 0, wr_Sent = [], wr_Body = [], wr_rec = None\<rparr>"

definition Header_Set :: "gostring \<Rightarrow> gostring \<Rightarrow> Writer \<Rightarrow> Writer" where
  "Header_Set k v w = w\<lparr>wr_Header := AList.update k v (wr_Header w)\<rparr>"

text \<open>The writer of \<open>net/http\<close>: only the first status counts.\<close>

definition send_header :: "int \<Rightarrow> Writer \<Rightarrow> Writer" where
  "send_header code w = (if wr_Status w = 0 then w\<lparr>wr_Status := code, wr_Sent := wr_Header w\<rparr> else w)"

text \<open>\<open>statusRecorder.WriteHeader\<close> and \<open>statusRecorder.Write\<close>, or the bare writer without a recorder.\<close>

definition WriteHeader :: "int \<Rightarrow> Writer \<Rightarrow> Writer" where
  "WriteHeader code w = send_header code (w\<lparr>wr_rec := map_option (\<lambda>(_, n). (code, n)) (wr_rec w)\<rparr>)"

definition Write :: "gostring \<Rightarrow> Writer \<Rightarrow> Writer" where
  "Write b w =
     (let w1 = w\<lparr>wr_rec := map_option (\<lambda>(st, n). (if st = 0 then 200 else st, n)) (wr_rec w)\<rparr>;
          w2 = send_header 200 w1
      in w2\<lparr>wr_Body := wr_Body w2 @ b, wr_rec := map_option (\<lambda>(st, n). (st, n + length b)) (wr_rec w2)\<rparr>)"

section \<open>Errors (\<open>errors.go\<close>)\<close>

record APIError =
  ae_Status :: int
  ae_Code :: gostring
  ae_Message :: gostring
  ae_Details :: Errors
  ae_cause :: "gostring option"

text \<open>Any Go error a handler may return; of one that is not an \<open>APIError\<close> only its text matters.\<close>

datatype go_error = APIErr APIError | PlainErr gostring

definition CodeValidationFailed :: gostring where "CodeValidationFailed = ''VALIDATION_FAILED''"
definition CodeInvalidCredentials :: gostring where "CodeInvalidCredentials = ''INVALID_CREDENTIALS''"
definition CodeTokenExpired :: gostring where "CodeTokenExpired = ''TOKEN_EXPIRED''"
definition CodeTokenInvalid :: gostring where "CodeTokenInvalid = ''TOKEN_INVALID''"
definition CodeForbidden :: gostring where "CodeForbidden = ''FORBIDDEN''"
definition CodeNotFound :: gostring where "CodeNotFound = ''NOT_FOUND''"
definition CodeConflict :: gostring where "CodeConflict = ''CONFLICT''"
definition CodeFileTooLarge :: gostring where "CodeFileTooLarge = ''FILE_TOO_LARGE''"
definition CodeUnsupportedMediaType :: gostring where "CodeUnsupportedMediaType = ''UNSUPPORTED_MEDIA_TYPE''"
definition CodeRateLimited :: gostring where "CodeRateLimited = ''RATE_LIMITED''"
definition CodeInternalError :: gostring where "CodeInternalError = ''INTERNAL_ERROR''"

lemmas code_defs = CodeValidationFailed_def CodeInvalidCredentials_def CodeTokenExpired_def CodeTokenInvalid_def
  CodeForbidden_def CodeNotFound_def CodeConflict_def CodeFileTooLarge_def CodeUnsupportedMediaType_def
  CodeRateLimited_def CodeInternalError_def

definition APIError_Error :: "APIError \<Rightarrow> gostring" where
  "APIError_Error e =
     (case ae_cause e of
        Some c \<Rightarrow> ae_Code e @ '': '' @ ae_Message e @ '': '' @ c
      | None \<Rightarrow> ae_Code e @ '': '' @ ae_Message e)"

definition WithCause :: "gostring \<Rightarrow> APIError \<Rightarrow> APIError" where
  "WithCause err e = e\<lparr>ae_cause := Some err\<rparr>"

definition WithDetails :: "Errors \<Rightarrow> APIError \<Rightarrow> APIError" where
  "WithDetails details e = e\<lparr>ae_Details := details\<rparr>"

definition ErrValidation :: "gostring \<Rightarrow> Errors \<Rightarrow> APIError" where
  "ErrValidation message details =
     \<lparr>ae_Status = 400, ae_Code = CodeValidationFailed, ae_Message = message, ae_Details = details, ae_cause = None\<rparr>"

definition ErrInvalidCredentials :: APIError where
  "ErrInvalidCredentials =
     \<lparr>ae_Status = 401, ae_Code = CodeInvalidCredentials, ae_Message = ''Incorrect email or password.'',
      ae_Details = [], ae_cause = None\<rparr>"

definition APITokenExpired :: APIError where
  "APITokenExpired =
     \<lparr>ae_Status = 401, ae_Code = CodeTokenExpired, ae_Message = ''Your session has expired. Please sign in again.'',
      ae_Details = [], ae_cause = None\<rparr>"

definition APITokenInvalid :: APIError where
  "APITokenInvalid =
     \<lparr>ae_Status = 401, ae_Code = CodeTokenInvalid,
      ae_Message = ''Your session is no longer valid. Please sign in again.'', ae_Details = [], ae_cause = None\<rparr>"

definition APIForbidden :: "gostring \<Rightarrow> APIError" where
  "APIForbidden message =
     \<lparr>ae_Status = 403, ae_Code = CodeForbidden,
      ae_Message = (if message = [] then ''You do not have permission to do that.'' else message),
      ae_Details = [], ae_cause = None\<rparr>"

definition APINotFound :: "gostring \<Rightarrow> APIError" where
  "APINotFound message =
     \<lparr>ae_Status = 404, ae_Code = CodeNotFound,
      ae_Message = (if message = [] then ''We could not find what you were looking for.'' else message),
      ae_Details = [], ae_cause = None\<rparr>"

definition ErrConflict :: "gostring \<Rightarrow> Errors \<Rightarrow> APIError" where
  "ErrConflict message details =
     \<lparr>ae_Status = 409, ae_Code = CodeConflict, ae_Message = message, ae_Details = details, ae_cause = None\<rparr>"

definition ErrFileTooLarge :: "gostring \<Rightarrow> APIError" where
  "ErrFileTooLarge message =
     \<lparr>ae_Status = 413, ae_Code = CodeFileTooLarge, ae_Message = message, ae_Details = [], ae_cause = None\<rparr>"

definition ErrUnsupportedMediaType :: "gostring \<Rightarrow> APIError" where
  "ErrUnsupportedMediaType message =
     \<lparr>ae_Status = 415, ae_Code = CodeUnsupportedMediaType, ae_Message = message, ae_Details = [], ae_cause = None\<rparr>"

definition ErrRateLimited :: APIError where
  "ErrRateLimited =
     \<lparr>ae_Status = 429, ae_Code = CodeRateLimited, ae_Message = ''Too many requests. Please try again shortly.'',
      ae_Details = [], ae_cause = None\<rparr>"

definition ErrInternal :: "gostring \<Rightarrow> APIError" where
  "ErrInternal cause =
     \<lparr>ae_Status = 500, ae_Code = CodeInternalError,
      ae_Message = ''Something went wrong on our end. Please try again.'', ae_Details = [], ae_cause = Some cause\<rparr>"

lemmas api_error_defs = ErrValidation_def ErrInvalidCredentials_def APITokenExpired_def APITokenInvalid_def
  APIForbidden_def APINotFound_def ErrConflict_def ErrFileTooLarge_def ErrUnsupportedMediaType_def
  ErrRateLimited_def ErrInternal_def

definition AsAPIError :: "go_error \<Rightarrow> APIError" where
  "AsAPIError err = (case err of APIErr e \<Rightarrow> e | PlainErr msg \<Rightarrow> ErrInternal msg)"

section \<open>Writing JSON (\<open>respond.go\<close>)\<close>

text \<open>The JSON text \<open>json.Marshal\<close> writes for a value; strings are kept as the bytes between the quotes.\<close>

definition jstr :: "gostring \<Rightarrow> json" where
  "jstr s = JStr (concat (map escape_rune (runes s)))"

definition jnum :: "int \<Rightarrow> json" where
  "jnum n = JNum (itoa n)"

definition jopt :: "gostring option \<Rightarrow> json" where
  "jopt x = (case x of None \<Rightarrow> JNull | Some s \<Rightarrow> jstr s)"

definition jmember :: "gostring \<Rightarrow> json \<Rightarrow> gostring \<times> json" where
  "jmember k v = (concat (map escape_rune (runes k)), v)"

fun json_print :: "json \<Rightarrow> gostring" where
  "json_print JNull = ''null''"
| "json_print (JBool b) = (if b then ''true'' else ''false'')"
| "json_print (JNum raw) = raw"
| "json_print (JStr raw) = dquote # raw @ [dquote]"
| "json_print (JArr vs) = CHR ''['' # join '','' (map json_print vs) @ '']''"
| "json_print (JObj ms) =
     CHR ''{'' # join '','' (map (\<lambda>(k, v). dquote # k @ dquote # CHR '':'' # json_print v) ms) @ ''}''"

text \<open>A Go map is written with its keys in order.\<close>

definition jmap :: "Errors \<Rightarrow> json" where
  "jmap m = JObj (map (\<lambda>(k, v). jmember k (jstr v)) (sort_slice (\<lambda>a b. fst a < fst b) m))"

text \<open>\<open>errorEnvelope\<close>: the status and the cause are not serialised, empty details are omitted.\<close>

definition envelope_json :: "APIError \<Rightarrow> json" where
  "envelope_json e =
     JObj [jmember ''error''
       (JObj (jmember ''code'' (jstr (ae_Code e)) # jmember ''message'' (jstr (ae_Message e)) #
          (if ae_Details e = [] then [] else [jmember ''details'' (jmap (ae_Details e))])))]"

definition mustEnvelope :: "APIError \<Rightarrow> gostring" where
  "mustEnvelope e = json_print (envelope_json e)"

definition writeRaw :: "int \<Rightarrow> gostring \<Rightarrow> Writer \<Rightarrow> Writer" where
  "writeRaw status body w =
     Write body (WriteHeader status
       (Header_Set ''X-Content-Type-Options'' ''nosniff''
          (Header_Set ''Content-Type'' ''application/json; charset=utf-8'' w)))"

text \<open>Every response type of the program can be serialised, so the error branch of \<open>WriteJSON\<close> is never taken.\<close>

definition WriteJSON :: "int \<Rightarrow> json \<Rightarrow> Writer \<Rightarrow> Writer" where
  "WriteJSON status v w = writeRaw status (json_print v) w"

definition NoContent :: "Writer \<Rightarrow> Writer" where
  "NoContent w = WriteHeader 204 w"

text \<open>One line of the log.\<close>

record LogEntry =
  lg_Level :: gostring
  lg_Msg :: gostring
  lg_Attrs :: "(gostring \<times> gostring) list"

definition error_log :: "'u Request \<Rightarrow> APIError \<Rightarrow> LogEntry" where
  "error_log r e =
     (if ae_Status e \<ge> 500 then
        \<lparr>lg_Level = ''ERROR'', lg_Msg = ''request failed'',
         lg_Attrs = [(''method'', rq_Method r), (''path'', url_path r), (''code'', ae_Code e), (''error'', APIError_Error e)]\<rparr>
      else
        \<lparr>lg_Level = ''DEBUG'', lg_Msg = ''request rejected'',
         lg_Attrs = [(''method'', rq_Method r), (''path'', url_path r), (''status'', itoa (ae_Status e)), (''code'', ae_Code e)]\<rparr>)"

definition WriteError :: "'u Request \<Rightarrow> go_error \<Rightarrow> Writer \<Rightarrow> LogEntry list \<Rightarrow> Writer \<times> LogEntry list" where
  "WriteError r err w logs =
     (let e = AsAPIError err in (writeRaw (ae_Status e) (mustEnvelope e) w, logs @ [error_log r e]))"

section \<open>Facts\<close>

lemma writer_sel [simp]:
  "wr_Status (Header_Set k v w) = wr_Status w" "wr_Body (Header_Set k v w) = wr_Body w" "wr_Sent (Header_Set k v w) = wr_Sent w"
  "wr_Status new_writer = 0" "wr_Body new_writer = []"
  "wr_Body (WriteHeader c w) = wr_Body w" "wr_Header (WriteHeader c w) = wr_Header w"
  "wr_Status (WriteHeader c w) = (if wr_Status w = 0 then c else wr_Status w)"
  "wr_Sent (WriteHeader c w) = (if wr_Status w = 0 then wr_Header w else wr_Sent w)"
  by (simp_all add: Header_Set_def new_writer_def WriteHeader_def send_header_def)

lemma writer_Write [simp]:
  "wr_Body (Write b w) = wr_Body w @ b"
  "wr_Status (Write b w) = (if wr_Status w = 0 then 200 else wr_Status w)"
  "wr_Header (Write b w) = wr_Header w"
  "wr_Sent (Write b w) = (if wr_Status w = 0 then wr_Header w else wr_Sent w)"
  by (simp_all add: Write_def send_header_def Let_def)

lemma writer_header [simp]: "wr_Header (Header_Set k v w) = AList.update k v (wr_Header w)"
  by (simp add: Header_Set_def)

lemma writeRaw_sel [simp]:
  "wr_Body (writeRaw c b w) = wr_Body w @ b"
  "c \<noteq> 0 \<Longrightarrow> wr_Status (writeRaw c b w) = (if wr_Status w = 0 then c else wr_Status w)"
  by (simp_all add: writeRaw_def)

lemma WriteJSON_sel [simp]:
  "wr_Body (WriteJSON c v w) = wr_Body w @ json_print v"
  "c \<noteq> 0 \<Longrightarrow> wr_Status (WriteJSON c v w) = (if wr_Status w = 0 then c else wr_Status w)"
  by (simp_all add: WriteJSON_def)

lemma NoContent_sel [simp]:
  "wr_Body (NoContent w) = wr_Body w" "wr_Status (NoContent w) = (if wr_Status w = 0 then 204 else wr_Status w)"
  by (simp_all add: NoContent_def)

lemma json_print_jstr: "json_print (jstr s) = json_string s"
  by (simp add: jstr_def json_string_def)

text \<open>The cause of an error is not part of what is sent.\<close>

lemma envelope_cause [simp]: "mustEnvelope (e\<lparr>ae_cause := c\<rparr>) = mustEnvelope e"
  by (simp add: mustEnvelope_def envelope_json_def)

end
