(* ===== verification/Body.thy ===== *)
theory Body
  imports Http
begin

text \<open>
  Reading a request body: the stream scanner of \<open>encoding/json\<close> that finds one value in the
  body, the decoding of an object into a Go struct, \<open>Optional\<close> of \<open>internal/httpx/optional.go\<close>
  and \<open>DecodeJSON\<close> of \<open>internal/httpx/respond.go\<close>.
\<close>

section \<open>The extent of the next value\<close>

text \<open>The states of the scanner, with its stack of open objects and arrays.\<close>

datatype scan_state =
    SBeginValue | SBeginValueOrEmpty | SBeginStringOrEmpty | SBeginString | SEndValue
  | SInString | SEsc | SEscU nat | SNeg | SOne | SZero | SDot | SDotDigits | SExp | SExpSign | SExpDigits
  | SLit gostring

datatype parse_state = PObjectKey | PObjectValue | PArrayValue

text \<open>After a byte: more is needed, the text is malformed, the value ended before the byte or with it.\<close>

datatype scan_result = Cont scan_state "parse_state list" | Bad | EndBefore | EndAfter

definition pop_state :: "parse_state list \<Rightarrow> scan_result" where
  "pop_state ps = (if ps = [] then EndAfter else Cont SEndValue ps)"

definition push_state :: "scan_state \<Rightarrow> parse_state list \<Rightarrow> scan_result" where
  "push_state st ps = (if length ps \<le> max_nesting then Cont st ps else Bad)"

definition end_value :: "parse_state list \<Rightarrow> char \<Rightarrow> scan_result" where
  "end_value ps c =
     (case ps of
        [] \<Rightarrow> EndBefore
      | p # ps' \<Rightarrow>
          if is_ws c then Cont SEndValue ps
          else (case p of
              PObjectKey \<Rightarrow> if c = CHR '':'' then Cont SBeginValue (PObjectValue # ps') else Bad
            | PObjectValue \<Rightarrow>
                if c = CHR '','' then Cont SBeginString (PObjectKey # ps')
                else if c = CHR ''}'' then pop_state ps' else Bad
            | PArrayValue \<Rightarrow>
                if c = CHR '','' then Cont SBeginValue ps
                else if c = CHR '']'' then pop_state ps' else Bad))"

definition begin_value :: "parse_state list \<Rightarrow> char \<Rightarrow> scan_result" where
  "begin_value ps c =
     (if c = CHR ''{'' then push_state SBeginStringOrEmpty (PObjectKey # ps)
      else if c = CHR ''['' then push_state SBeginValueOrEmpty (PArrayValue # ps)
      else if c = dquote then Cont SInString ps
      else if c = CHR ''-'' then Cont SNeg ps
      else if c = CHR ''0'' then Cont SZero ps
      else if c = CHR ''t'' then Cont (SLit ''rue'') ps
      else if c = CHR ''f'' then Cont (SLit ''alse'') ps
      else if c = CHR ''n'' then Cont (SLit ''ull'') ps
      else if is_digit c then Cont SOne ps
      else Bad)"

definition begin_string :: "parse_state list \<Rightarrow> char \<Rightarrow> scan_result" where
  "begin_string ps c = (if c = dquote then Cont SInString ps else Bad)"

definition after_digits :: "parse_state list \<Rightarrow> char \<Rightarrow> scan_result" where
  "after_digits ps c = (if c = CHR ''e'' \<or> c = CHR ''E'' then Cont SExp ps else end_value ps c)"

definition after_int :: "parse_state list \<Rightarrow> char \<Rightarrow> scan_result" where
  "after_int ps c = (if c = CHR ''.'' then Cont SDot ps else after_digits ps c)"

fun scan_step :: "scan_state \<Rightarrow> parse_state list \<Rightarrow> char \<Rightarrow> scan_result" where
  "scan_step SBeginValue ps c = (if is_ws c then Cont SBeginValue ps else begin_value ps c)"
| "scan_step SBeginValueOrEmpty ps c =
     (if is_ws c then Cont SBeginValueOrEmpty ps
      else if c = CHR '']'' then end_value ps c else begin_value ps c)"
| "scan_step SBeginStringOrEmpty ps c =
     (if is_ws c then Cont SBeginStringOrEmpty ps
      else if c = CHR ''}'' then end_value (PObjectValue # tl ps) c else begin_string ps c)"
| "scan_step SBeginString ps c = (if is_ws c then Cont SBeginString ps else begin_string ps c)"
| "scan_step SEndValue ps c = end_value ps c"
| "scan_step SInString ps c =
     (if c = dquote then Cont SEndValue ps
      else if c = backslash then Cont SEsc ps
      else if of_char c < (32 :: nat) then Bad else Cont SInString ps)"
| "scan_step SEsc ps c =
     (if c \<in> {dquote, backslash, CHR ''/'', CHR ''b'', CHR ''f'', CHR ''n'', CHR ''r'', CHR ''t''} then Cont SInString ps
      else if c = CHR ''u'' then Cont (SEscU 3) ps else Bad)"
| "scan_step (SEscU n) ps c =
     (if is_hex c then Cont (case n of 0 \<Rightarrow> SInString | Suc m \<Rightarrow> SEscU m) ps else Bad)"
| "scan_step SNeg ps c =
     (if c = CHR ''0'' then Cont SZero ps else if is_digit c then Cont SOne ps else Bad)"
| "scan_step SOne ps c = (if is_digit c then Cont SOne ps else after_int ps c)"
| "scan_step SZero ps c = after_int ps c"
| "scan_step SDot ps c = (if is_digit c then Cont SDotDigits ps else Bad)"
| "scan_step SDotDigits ps c = (if is_digit c then Cont SDotDigits ps else after_digits ps c)"
| "scan_step SExp ps c =
     (if c = CHR ''+'' \<or> c = CHR ''-'' then Cont SExpSign ps
      else if is_digit c then Cont SExpDigits ps else Bad)"
| "scan_step SExpSign ps c = (if is_digit c then Cont SExpDigits ps else Bad)"
| "scan_step SExpDigits ps c = (if is_digit c then Cont SExpDigits ps else end_value ps c)"
| "scan_step (SLit expected) ps c =
     (case expected of
        [] \<Rightarrow> Bad
      | e # es \<Rightarrow> if c = e then Cont (if es = [] then SEndValue else SLit es) ps else Bad)"

text \<open>Running the scanner over the input: the value's bytes and the rest, malformed, or the input is too short.\<close>

datatype extent = Found gostring gostring | Malformed | Short scan_state "parse_state list"

fun scan_frame :: "scan_state \<Rightarrow> parse_state list \<Rightarrow> gostring \<Rightarrow> extent" where
  "scan_frame st ps [] = Short st ps"
| "scan_frame st ps (c # cs) =
     (case scan_step st ps c of
        Cont st' ps' \<Rightarrow> (case scan_frame st' ps' cs of Found v rest \<Rightarrow> Found (c # v) rest | e \<Rightarrow> e)
      | Bad \<Rightarrow> Malformed
      | EndBefore \<Rightarrow> Found [] (c # cs)
      | EndAfter \<Rightarrow> Found [c] cs)"

text \<open>
  \<open>Decoder.readValue\<close> on a body of which the reader lets at most the limit through; \<open>over\<close> says
  that the body is longer, so reading past its prefix is the reader's error.
\<close>

datatype framing = FValue gostring gostring | FEOF | FTooLarge | FSyntax

definition read_value :: "gostring \<Rightarrow> bool \<Rightarrow> framing" where
  "read_value input over =
     (case scan_frame SBeginValue [] input of
        Found v rest \<Rightarrow> FValue v rest
      | Malformed \<Rightarrow> FSyntax
      | Short st ps \<Rightarrow>
          if over then FTooLarge
          else if scan_step st ps CHR '' '' = EndBefore then FValue input []
          else if list_all is_ws input then FEOF
          else FSyntax)"

section \<open>Structs\<close>

text \<open>
  What a field makes of a value: stores it, records a type error and leaves the rest of the
  object to be decoded, or (a custom \<open>UnmarshalJSON\<close>) gives up at once.  The text is the name of
  the Go type expected.
\<close>

datatype 'a set_result = Stored 'a | Mismatch gostring 'a | Abort gostring

type_synonym 'a field = "gostring \<times> (json \<Rightarrow> 'a \<Rightarrow> 'a set_result)"

text \<open>
  A key matches a field's name up to Unicode case folding; the names are ASCII, and the only runes
  outside ASCII that fold into it are the long s (U+017F) and the Kelvin sign (U+212A).
\<close>

definition fold_rune :: "nat \<Rightarrow> nat" where
  "fold_rune r = (if in_range 65 90 r then r + 32 else if r = 0x17F then 115 else if r = 0x212A then 107 else r)"

definition fold_name :: "gostring \<Rightarrow> nat list" where
  "fold_name s = map (\<lambda>p. fold_rune (fst p)) (runes s)"

text \<open>The decoder looks for the exact name first.\<close>

definition find_field :: "'a field list \<Rightarrow> gostring \<Rightarrow> 'a field option" where
  "find_field fs k =
     (case find (\<lambda>f. fst f = k) fs of
        Some f \<Rightarrow> Some f
      | None \<Rightarrow> find (\<lambda>f. fold_name (fst f) = fold_name k) fs)"

text \<open>The members in order; \<open>saved\<close> is the first type error, the field's name with the type's.\<close>

fun decode_members ::
    "'a field list \<Rightarrow> (gostring \<times> gostring) option \<Rightarrow> 'a \<Rightarrow> (gostring \<times> json) list
      \<Rightarrow> (gostring \<times> gostring) + (gostring \<times> gostring) option \<times> 'a" where
  "decode_members fs saved x [] = Inr (saved, x)"
| "decode_members fs saved x ((k, v) # ms) =
     (case find_field fs (unquote k) of
        None \<Rightarrow> decode_members fs saved x ms
      | Some (name, set_field) \<Rightarrow>
          (case set_field v x of
             Stored x' \<Rightarrow> decode_members fs saved x' ms
           | Mismatch ty x' \<Rightarrow> decode_members fs (if saved = None then Some (name, ty) else saved) x' ms
           | Abort ty \<Rightarrow> Inl (name, ty)))"

text \<open>The outcome of unmarshalling: a type error without a field is one on the value as a whole.\<close>

datatype 'a decoded = Decoded 'a | FieldTypeError gostring gostring | OtherDecodeError

definition unmarshal_struct :: "'a field list \<Rightarrow> 'a \<Rightarrow> gostring \<Rightarrow> 'a decoded" where
  "unmarshal_struct fs zero raw =
     (case json_parse raw of
        Some (JObj ms) \<Rightarrow>
          (case decode_members fs None zero ms of
             Inl (name, ty) \<Rightarrow> FieldTypeError name ty
           | Inr (Some (name, ty), x) \<Rightarrow> FieldTypeError name ty
           | Inr (None, x) \<Rightarrow> Decoded x)
      | Some JNull \<Rightarrow> Decoded zero
      | _ \<Rightarrow> OtherDecodeError)"

text \<open>A \<open>string\<close>, an \<open>int64\<close> and a \<open>*string\<close> field; \<open>null\<close> leaves the first two alone.\<close>

definition string_field :: "gostring \<Rightarrow> (gostring \<Rightarrow> 'a \<Rightarrow> 'a) \<Rightarrow> 'a field" where
  "string_field name put =
     (name, \<lambda>v x. case v of JStr raw \<Rightarrow> Stored (put (unquote raw) x) | JNull \<Rightarrow> Stored x | _ \<Rightarrow> Mismatch ''string'' x)"

definition int64_field :: "gostring \<Rightarrow> (int \<Rightarrow> 'a \<Rightarrow> 'a) \<Rightarrow> 'a field" where
  "int64_field name put =
     (name, \<lambda>v x. case v of
        JNum raw \<Rightarrow> (case atoi raw of Some n \<Rightarrow> Stored (put n x) | None \<Rightarrow> Mismatch ''int64'' x)
      | JNull \<Rightarrow> Stored x
      | _ \<Rightarrow> Mismatch ''int64'' x)"

definition string_ptr_field :: "gostring \<Rightarrow> (gostring option \<Rightarrow> 'a \<Rightarrow> 'a) \<Rightarrow> 'a field" where
  "string_ptr_field name put =
     (name, \<lambda>v x. case v of
        JStr raw \<Rightarrow> Stored (put (Some (unquote raw)) x)
      | JNull \<Rightarrow> Stored (put None x)
      | _ \<Rightarrow> Mismatch ''string'' (put (Some []) x))"

section \<open>Optional fields (\<open>optional.go\<close>)\<close>

record 'a Optional =
  opt_Value :: 'a
  opt_Present :: bool
  opt_Null :: bool

definition opt_absent :: "'a \<Rightarrow> 'a Optional" where
  "opt_absent zero = \<lparr>opt_Value = zero, opt_Present = False, opt_Null = False\<rparr>"

text \<open>\<open>UnmarshalJSON\<close> of an \<open>Optional\<close>, given \<open>json.Unmarshal\<close> into its value (\<open>None\<close>: an error).\<close>

definition Optional_UnmarshalJSON :: "(json \<Rightarrow> 'a option) \<Rightarrow> json \<Rightarrow> 'a Optional \<Rightarrow> 'a Optional option" where
  "Optional_UnmarshalJSON unmarshal v ov =
     (let ov1 = ov\<lparr>opt_Present := True\<rparr>
      in if v = JNull then Some (ov1\<lparr>opt_Null := True\<rparr>)
         else map_option (\<lambda>x. ov1\<lparr>opt_Value := x\<rparr>) (unmarshal v))"

definition Optional_MarshalJSON :: "('a \<Rightarrow> json) \<Rightarrow> 'a Optional \<Rightarrow> json" where
  "Optional_MarshalJSON marshal ov = (if opt_Null ov \<or> \<not> opt_Present ov then JNull else marshal (opt_Value ov))"

definition Optional_Set :: "'a Optional \<Rightarrow> bool" where
  "Optional_Set ov \<longleftrightarrow> opt_Present ov \<and> \<not> opt_Null ov"

definition Optional_Get :: "'a \<Rightarrow> 'a Optional \<Rightarrow> 'a \<times> bool" where
  "Optional_Get zero ov = (if \<not> Optional_Set ov then (zero, False) else (opt_Value ov, True))"

definition unmarshal_string :: "json \<Rightarrow> gostring option" where
  "unmarshal_string v = (case v of JStr raw \<Rightarrow> Some (unquote raw) | _ \<Rightarrow> None)"

definition optional_string_field ::
    "gostring \<Rightarrow> ('a \<Rightarrow> gostring Optional) \<Rightarrow> (gostring Optional \<Rightarrow> 'a \<Rightarrow> 'a) \<Rightarrow> 'a field" where
  "optional_string_field name sel put =
     (name, \<lambda>v x. case Optional_UnmarshalJSON unmarshal_string v (sel x) of
        Some ov \<Rightarrow> Stored (put ov x)
      | None \<Rightarrow> Abort ''string'')"

section \<open>\<open>DecodeJSON\<close>\<close>

definition maxBodyBytes :: nat where "maxBodyBytes = 1048576"

definition media_type :: "gostring \<Rightarrow> gostring" where
  "media_type ct = trim_space (fst (cut CHR '';'' ct))"

definition unreadable :: gostring where
  "unreadable = ''That request body could not be read.''"

definition DecodeJSON :: "'u Request \<Rightarrow> 'a field list \<Rightarrow> 'a \<Rightarrow> APIError + 'a" where
  "DecodeJSON r fs zero =
     (let ct = rq_Header r ''Content-Type''
      in if ct \<noteq> [] \<and> media_type ct \<noteq> ''application/json'' then
           Inl (ErrUnsupportedMediaType ''This endpoint accepts JSON only.'')
         else
           let input = take maxBodyBytes (rq_Body r); over = length (rq_Body r) > maxBodyBytes
           in case read_value input over of
                FEOF \<Rightarrow> Inl (ErrValidation ''A request body is required.'' [])
              | FTooLarge \<Rightarrow> Inl (ErrFileTooLarge ''That request body is too large.'')
              | FSyntax \<Rightarrow> Inl (WithCause ''invalid JSON'' (ErrValidation unreadable []))
              | FValue raw rest \<Rightarrow>
                  (case unmarshal_struct fs zero raw of
                     FieldTypeError name ty \<Rightarrow> Inl (ErrValidation unreadable [(name, ''expected '' @ ty)])
                   | OtherDecodeError \<Rightarrow> Inl (WithCause ''invalid JSON'' (ErrValidation unreadable []))
                   | Decoded x \<Rightarrow>
                       if read_value rest over = FEOF then Inr x
                       else Inl (ErrValidation ''A request body must contain a single JSON object.'' [])))"

section \<open>Facts\<close>

lemma scan_frame_Found: "scan_frame st ps s = Found v rest \<Longrightarrow> s = v @ rest"
  by (induction st ps s arbitrary: v rule: scan_frame.induct) (auto split: scan_result.splits extent.splits)

text \<open>Whatever a client sends, the answer to an unusable body is one of three client errors, never a 500.\<close>

lemma DecodeJSON_error:
  "DecodeJSON r fs zero = Inl e \<Longrightarrow> ae_Status e \<in> {400, 413, 415}"
  by (auto simp: DecodeJSON_def Let_def api_error_defs WithCause_def split: if_splits framing.splits decoded.splits)

text \<open>The three states of an optional field.\<close>

lemma Optional_states:
  "Optional_Get z (opt_absent z) = (z, False)"
  "Optional_UnmarshalJSON u JNull ov = Some ov' \<Longrightarrow> opt_Present ov' \<and> opt_Null ov' \<and> opt_Value ov' = opt_Value ov"
  "v \<noteq> JNull \<Longrightarrow> u v = Some x \<Longrightarrow> \<exists>ov'. Optional_UnmarshalJSON u v (opt_absent z) = Some ov' \<and> Optional_Get z ov' = (x, True)"
  by (auto simp: Optional_Get_def Optional_Set_def opt_absent_def Optional_UnmarshalJSON_def)

end
