(* ===== verification/DataProps.thy ===== *)
theory DataProps
  imports Timestamps Cursor Body
begin

text \<open>What survives a trip through the wire formats: cursors and timestamps.\<close>

section \<open>Cursors\<close>

text \<open>C37: a cursor made of a time and an identifier the server drew decodes to exactly that position, and no
  text decodes to anything but a position with a time and an identifier or the one cursor error.\<close>

theorem cursor_roundtrip:
  assumes "0 \<le> cv_year (civil t)" and "cv_year (civil t) \<le> 9999" and "t \<noteq> 0"
  shows "DecodeCursor layout_parse (EncodeCursor t (NewID d)) = Inr (t, NewID d) \<and>
    (case DecodeCursor layout_parse c of Inl e \<Rightarrow> e = ErrInvalidCursor | Inr (at, i) \<Rightarrow> at \<noteq> 0 \<and> i \<noteq> [])"
  using Decode_EncodeCursor(1) [OF assms NewID_chars NewID_nonempty] by (auto simp: DecodeCursor_def split: option.split)

theorem cursor_roundtrip_witness:
  "DecodeCursor (\<lambda>_. None) (EncodeCursor hour (NewID \<lparr>d_now = 0, d_rand = (\<lambda>_. CHR ''x''), d_order = (\<lambda>_. 0), d_fault = None\<rparr>)) =
     Inr (hour, NewID \<lparr>d_now = 0, d_rand = (\<lambda>_. CHR ''x''), d_order = (\<lambda>_. 0), d_fault = None\<rparr>)"
proof -
  have "cv_year (civil hour) = 1"
    by code_simp
  then show ?thesis
    using cursor_roundtrip [of hour "\<lambda>_. None"] by simp
qed

section \<open>Timestamps\<close>

text \<open>C38: a time is written to JSON with the millisecond it falls in, reading it back gives exactly that
  millisecond, and the truncation keeps the order of times.\<close>

theorem timestamp_roundtrip:
  assumes "0 \<le> cv_year (civil (jsontime_New t))" and "cv_year (civil (jsontime_New t)) \<le> 9999" and "t \<le> u"
  shows "jsontime_Unmarshal layout_parse (jsontime_Marshal (jsontime_New t)) = Some (jsontime_New t)
    \<and> jsontime_New t \<le> t \<and> t < jsontime_New t + millisecond \<and> jsontime_New t \<le> jsontime_New u"
  using jsontime_roundtrip_New [OF assms(1,2)] jsontime_New_bounds [of t] jsontime_New_mono [OF assms(3)]
  by (simp add: jsontime_New_def)

theorem timestamp_roundtrip_witness:
  "jsontime_Unmarshal (\<lambda>_. None) (jsontime_Marshal (jsontime_New 1234567)) = Some 1000000"
proof -
  have "cv_year (civil (jsontime_New 1234567)) = 1" "jsontime_New 1234567 = 1000000"
    by (code_simp)+
  then show ?thesis
    using timestamp_roundtrip [of 1234567 1234567 "\<lambda>_. None"] by simp
qed

end
