(* ===== verification/Net.thy ===== *)
theory Net
  imports GoStrings Prelude
begin

text \<open>\<open>net.SplitHostPort\<close> and \<open>net.JoinHostPort\<close>, which the rate limiter's key and the
  configuration use.\<close>

text \<open>The bytes before and after the last colon.\<close>

definition last_colon :: "gostring \<Rightarrow> (gostring \<times> gostring) option" where
  "last_colon s =
     (if CHR '':'' \<in> set s
      then Some (rev (tl (dropWhile (\<lambda>c. c \<noteq> CHR '':'') (rev s))), rev (takeWhile (\<lambda>c. c \<noteq> CHR '':'') (rev s)))
      else None)"

definition addr_error :: "gostring \<Rightarrow> gostring \<Rightarrow> gostring" where
  "addr_error addr why = ''address '' @ addr @ '': '' @ why"

definition SplitHostPort :: "gostring \<Rightarrow> gostring + gostring \<times> gostring" where
  "SplitHostPort hostport =
     (let missing_port = Inl (addr_error hostport ''missing port in address'');
          too_many = Inl (addr_error hostport ''too many colons in address'')
      in case last_colon hostport of
        None \<Rightarrow> missing_port
      | Some (before, port) \<Rightarrow>
          if hd hostport = CHR ''['' then
            (let (inside, rest, found) = cut CHR '']'' (tl hostport)
             in if \<not> found then Inl (addr_error hostport ''missing ']' in address'')
                else if rest = [] then missing_port
                else if rest \<noteq> CHR '':'' # port then (if hd rest = CHR '':'' then too_many else missing_port)
                else if CHR ''['' \<in> set inside \<or> CHR ''['' \<in> set port then
                  Inl (addr_error hostport ''unexpected '[' in address'')
                else if CHR '']'' \<in> set port then Inl (addr_error hostport ''unexpected ']' in address'')
                else Inr (inside, port))
          else if CHR '':'' \<in> set before then too_many
          else if CHR ''['' \<in> set hostport then Inl (addr_error hostport ''unexpected '[' in address'')
          else if CHR '']'' \<in> set hostport then Inl (addr_error hostport ''unexpected ']' in address'')
          else Inr (before, port))"

text \<open>An address with a colon or a zone is written in brackets.\<close>

definition JoinHostPort :: "gostring \<Rightarrow> gostring \<Rightarrow> gostring" where
  "JoinHostPort host port =
     (if CHR '':'' \<in> set host \<or> CHR ''%'' \<in> set host then CHR ''['' # host @ '']:'' @ port
      else host @ CHR '':'' # port)"

lemma last_colon_found: "CHR '':'' \<notin> set p \<Longrightarrow> last_colon (h @ CHR '':'' # p) = Some (h, p)"
  by (simp add: last_colon_def dropWhile_append takeWhile_append)

text \<open>What \<open>JoinHostPort\<close> writes, \<open>SplitHostPort\<close> reads back.\<close>

lemma Split_JoinHostPort:
  assumes "CHR '':'' \<notin> set port" and "CHR ''['' \<notin> set host \<union> set port" and "CHR '']'' \<notin> set host \<union> set port"
  shows "SplitHostPort (JoinHostPort host port) = Inr (host, port)"
proof (cases "CHR '':'' \<in> set host \<or> CHR ''%'' \<in> set host")
  case True
  have "last_colon (CHR ''['' # host @ '']:'' @ port) = Some (CHR ''['' # host @ '']'', port)"
    using last_colon_found [OF assms(1), of "CHR ''['' # host @ '']''"] by simp
  then show ?thesis
    using True assms cut_found [of "CHR '']''" host "CHR '':'' # port"]
    by (simp add: SplitHostPort_def JoinHostPort_def Let_def)
next
  case False
  have "host @ CHR '':'' # port \<noteq> [] \<and> hd (host @ CHR '':'' # port) \<noteq> CHR ''[''"
    using assms by (cases host) auto
  then show ?thesis
    using False assms last_colon_found [OF assms(1), of host]
    by (simp add: SplitHostPort_def JoinHostPort_def Let_def)
qed

end
