(* ===== verification/RateLimit.thy ===== *)
theory RateLimit
  imports Http Net Complex_Main
begin

text \<open>
  The token buckets of \<open>internal/httpx/ratelimit.go\<close> and the client key of
  \<open>internal/httpx/middleware.go\<close>.  A \<open>float64\<close> is a rational; every arithmetic operation on
  floats is followed by the rounding \<open>rnd\<close>, a parameter of which only what IEEE 754 guarantees
  is used (\<open>float_rounding\<close> below).  Clock readings are draws; the mutex makes each call one step.
\<close>

section \<open>Buckets\<close>

record Bucket =
  bk_tokens :: rat
  bk_lastSeen :: time

record RateLimiter =
  rl_buckets :: "Bucket gomap"
  rl_refillPerSecond :: rat
  rl_burst :: rat

text \<open>The rounding of floats, by the three facts the proofs use: order is kept, small integers are exact, a float is left alone.\<close>

definition float_rounding :: "(rat \<Rightarrow> rat) \<Rightarrow> bool" where
  "float_rounding rnd \<longleftrightarrow> (\<forall>x y. x \<le> y \<longrightarrow> rnd x \<le> rnd y) \<and> (\<forall>n. \<bar>n\<bar> \<le> 2 ^ 53 \<longrightarrow> rnd (of_int n) = of_int n) \<and>
     (\<forall>x. rnd (rnd x) = rnd x)"

definition NewRateLimiter :: "(rat \<Rightarrow> rat) \<Rightarrow> int \<Rightarrow> int \<Rightarrow> RateLimiter" where
  "NewRateLimiter rnd perMinute burst =
     (let perMinute = (if perMinute \<le> 0 then 60 else perMinute);
          burst = (if burst \<le> 0 then perMinute else burst)
      in \<lparr>rl_buckets = [], rl_refillPerSecond = rnd (rnd (of_int perMinute) / 60), rl_burst = rnd (of_int burst)\<rparr>)"

text \<open>\<open>Duration.Seconds\<close>: whole seconds and the remainder, truncated towards zero.\<close>

definition seconds :: "(rat \<Rightarrow> rat) \<Rightarrow> duration \<Rightarrow> rat" where
  "seconds rnd d =
     (let q = (if d < 0 then - ((- d) div second) else d div second)
      in rnd (rnd (of_int q) + rnd (rnd (of_int (d - q * second)) / of_int second)))"

text \<open>The conversion of a float to a \<open>Duration\<close> truncates.\<close>

definition truncate_rat :: "rat \<Rightarrow> int" where
  "truncate_rat x = (if x < 0 then - \<lfloor>- x\<rfloor> else \<lfloor>x\<rfloor>)"

definition refill :: "(rat \<Rightarrow> rat) \<Rightarrow> RateLimiter \<Rightarrow> time \<Rightarrow> Bucket \<Rightarrow> rat" where
  "refill rnd rl now b =
     min (rl_burst rl) (rnd (bk_tokens b + rnd (seconds rnd (now - bk_lastSeen b) * rl_refillPerSecond rl)))"

text \<open>\<open>Allow\<close>: the verdict, the wait, and the limiter with its bucket updated.\<close>

definition Allow :: "(rat \<Rightarrow> rat) \<Rightarrow> Draw \<Rightarrow> gostring \<Rightarrow> RateLimiter \<Rightarrow> (bool \<times> duration) \<times> RateLimiter" where
  "Allow rnd d key rl =
     (let now = d_now d;
          b = (case map_of (rl_buckets rl) key of Some b \<Rightarrow> b | None \<Rightarrow> \<lparr>bk_tokens = rl_burst rl, bk_lastSeen = now\<rparr>);
          tokens = refill rnd rl now b;
          put = (\<lambda>t. rl\<lparr>rl_buckets := AList.update key \<lparr>bk_tokens = t, bk_lastSeen = now\<rparr> (rl_buckets rl)\<rparr>)
      in if tokens < 1 then
           (let deficit = rnd (1 - tokens);
                wait = truncate_rat (rnd (rnd (deficit / rl_refillPerSecond rl) * of_int second))
            in ((False, max wait second), put tokens))
         else ((True, 0), put (rnd (tokens - 1))))"

definition Reap :: "Draw \<Rightarrow> duration \<Rightarrow> RateLimiter \<Rightarrow> RateLimiter" where
  "Reap d idleFor rl =
     (let cutoff = d_now d - idleFor
      in rl\<lparr>rl_buckets := filter (\<lambda>(_, b). \<not> bk_lastSeen b < cutoff) (rl_buckets rl)\<rparr>)"

text \<open>\<open>StartReaper\<close>: one \<open>Reap\<close> per tick, until the stop channel is closed; the events it selects on are given.\<close>

datatype reaper_event = Tick Draw | Stop

fun StartReaper :: "duration \<Rightarrow> reaper_event list \<Rightarrow> RateLimiter \<Rightarrow> RateLimiter" where
  "StartReaper idleFor [] rl = rl"
| "StartReaper idleFor (Stop # evs) rl = rl"
| "StartReaper idleFor (Tick d # evs) rl = StartReaper idleFor evs (Reap d idleFor rl)"

text \<open>The header of a rejection: whole seconds, rounded up.\<close>

definition retry_after :: "(rat \<Rightarrow> rat) \<Rightarrow> duration \<Rightarrow> gostring" where
  "retry_after rnd d = itoa \<lceil>seconds rnd d\<rceil>"

section \<open>The client's key\<close>

definition ClientIP :: "'u Request \<Rightarrow> bool \<Rightarrow> gostring" where
  "ClientIP r trustProxyHeader =
     (let fwd = rq_Header r ''X-Forwarded-For''
      in if trustProxyHeader \<and> fwd \<noteq> [] then
           (case cut CHR '','' fwd of (first, _, found) \<Rightarrow> if found then trim_space first else trim_space fwd)
         else (case SplitHostPort (rq_RemoteAddr r) of Inl _ \<Rightarrow> rq_RemoteAddr r | Inr (host, _) \<Rightarrow> host))"

section \<open>The invariant of a limiter\<close>

text \<open>The budget and the rate are positive, and every bucket holds between none and all of the budget.\<close>

definition limiter_ok :: "(rat \<Rightarrow> rat) \<Rightarrow> RateLimiter \<Rightarrow> bool" where
  "limiter_ok rnd rl \<longleftrightarrow>
     1 \<le> rl_burst rl \<and> rnd (rl_burst rl) = rl_burst rl \<and> 0 \<le> rl_refillPerSecond rl \<and> gomap_ok (rl_buckets rl) \<and>
     (\<forall>b \<in> snd ` set (rl_buckets rl). 0 \<le> bk_tokens b \<and> bk_tokens b \<le> rl_burst rl \<and> rnd (bk_tokens b) = bk_tokens b)"

lemma roundingD:
  assumes "float_rounding rnd"
  shows "x \<le> y \<Longrightarrow> rnd x \<le> rnd y" "\<bar>n\<bar> \<le> 2 ^ 53 \<Longrightarrow> rnd (of_int n) = of_int n" "rnd 0 = 0" "rnd 1 = 1"
    "0 \<le> x \<Longrightarrow> 0 \<le> rnd x" "rnd (rnd x) = rnd x"
proof -
  note mono = assms [unfolded float_rounding_def, THEN conjunct1, rule_format]
  note int = assms [unfolded float_rounding_def, THEN conjunct2, THEN conjunct1, rule_format]
  show "x \<le> y \<Longrightarrow> rnd x \<le> rnd y"
    by (rule mono)
  show "\<bar>n\<bar> \<le> 2 ^ 53 \<Longrightarrow> rnd (of_int n) = of_int n"
    by (rule int)
  show zero: "rnd 0 = 0" and "rnd 1 = 1"
    using int [of 0, unfolded of_int_0] int [of 1, unfolded of_int_1] by (simp_all only: abs_zero abs_one) simp_all
  show "0 \<le> x \<Longrightarrow> 0 \<le> rnd x"
    using mono [of 0 x] unfolding zero .
  show "rnd (rnd x) = rnd x"
    using assms unfolding float_rounding_def by blast
qed

lemma seconds_nonneg:
  assumes rnd: "float_rounding rnd" and d: "0 \<le> d"
  shows "0 \<le> seconds rnd d"
proof -
  note nonneg = roundingD(5) [OF rnd]
  have "0 \<le> d div second" and "0 \<le> d - d div second * second"
    using d by (simp_all add: pos_imp_zdiv_nonneg_iff minus_div_mult_eq_mod)
  then have "0 \<le> rnd (of_int (d div second)) + rnd (rnd (of_int (d - d div second * second)) / of_int second)"
    by (intro add_nonneg_nonneg nonneg divide_nonneg_nonneg) simp_all
  then show ?thesis
    using d nonneg unfolding seconds_def Let_def by (simp del: of_int_diff of_int_mult)
qed

lemma seconds_zero:
  assumes "float_rounding rnd"
  shows "seconds rnd 0 = 0"
  by (simp add: seconds_def roundingD(3) [OF assms])

lemma refill_bounds:
  assumes "float_rounding rnd" and "limiter_ok rnd rl" and "0 \<le> bk_tokens b" and "bk_lastSeen b \<le> now"
  shows "0 \<le> refill rnd rl now b \<and> refill rnd rl now b \<le> rl_burst rl \<and> rnd (refill rnd rl now b) = refill rnd rl now b"
proof -
  have "0 \<le> seconds rnd (now - bk_lastSeen b)"
    by (rule seconds_nonneg [OF assms(1)]) (use assms(4) in simp)
  then have "0 \<le> rnd (bk_tokens b + rnd (seconds rnd (now - bk_lastSeen b) * rl_refillPerSecond rl))"
    using assms(2, 3) by (intro roundingD(5) [OF assms(1)] add_nonneg_nonneg mult_nonneg_nonneg) (auto simp: limiter_ok_def)
  then show ?thesis
    using assms(2) by (simp add: refill_def limiter_ok_def min_def roundingD(6) [OF assms(1)])
qed

text \<open>The bucket a request finds.\<close>

definition bucket_of :: "RateLimiter \<Rightarrow> time \<Rightarrow> gostring \<Rightarrow> Bucket" where
  "bucket_of rl now key =
     (case map_of (rl_buckets rl) key of Some b \<Rightarrow> b | None \<Rightarrow> \<lparr>bk_tokens = rl_burst rl, bk_lastSeen = now\<rparr>)"

lemma bucket_of_ok:
  assumes "limiter_ok rnd rl"
  shows "0 \<le> bk_tokens (bucket_of rl now key) \<and> bk_tokens (bucket_of rl now key) \<le> rl_burst rl
    \<and> rnd (bk_tokens (bucket_of rl now key)) = bk_tokens (bucket_of rl now key)"
proof (cases "map_of (rl_buckets rl) key")
  case (Some b)
  then have "b \<in> snd ` set (rl_buckets rl)"
    by (metis image_eqI map_of_SomeD snd_conv)
  with Some show ?thesis
    using assms unfolding limiter_ok_def by (auto simp: bucket_of_def)
next
  case None
  then show ?thesis
    using assms by (simp add: bucket_of_def limiter_ok_def)
qed

lemma Allow_cases:
  "Allow rnd d key rl =
     (let tokens = refill rnd rl (d_now d) (bucket_of rl (d_now d) key);
          put = (\<lambda>t. rl\<lparr>rl_buckets := AList.update key \<lparr>bk_tokens = t, bk_lastSeen = d_now d\<rparr> (rl_buckets rl)\<rparr>)
      in if tokens < 1 then
           ((False, max (truncate_rat (rnd (rnd (rnd (1 - tokens) / rl_refillPerSecond rl) * of_int second))) second), put tokens)
         else ((True, 0), put (rnd (tokens - 1))))"
  by (simp add: Allow_def bucket_of_def Let_def)

lemma Allow_config [simp]:
  "rl_burst (snd (Allow rnd d key rl)) = rl_burst rl" "rl_refillPerSecond (snd (Allow rnd d key rl)) = rl_refillPerSecond rl"
  by (simp_all add: Allow_cases Let_def)

lemma Allow_bucket:
  "bucket_of (snd (Allow rnd d key rl)) now key =
     \<lparr>bk_tokens = (let t = refill rnd rl (d_now d) (bucket_of rl (d_now d) key) in if t < 1 then t else rnd (t - 1)),
      bk_lastSeen = d_now d\<rparr>"
  by (simp add: Allow_cases Let_def bucket_of_def update_conv)

lemma Allow_verdict:
  "fst (fst (Allow rnd d key rl)) \<longleftrightarrow> 1 \<le> refill rnd rl (d_now d) (bucket_of rl (d_now d) key)"
  by (simp add: Allow_cases Let_def not_less)

lemma Allow_frame:
  "key' \<noteq> key \<Longrightarrow> bucket_of (snd (Allow rnd d key rl)) now key' = bucket_of rl now key'"
  by (cases "map_of (rl_buckets rl) key'") (simp_all add: Allow_cases Let_def bucket_of_def [of _ _ key'] update_conv)

lemma snd_set_update: "snd ` set (AList.update k v m) \<subseteq> insert v (snd ` set m)"
  by (induction m) auto

lemma limiter_ok_put:
  assumes "limiter_ok rnd rl" and "0 \<le> t" and "t \<le> rl_burst rl" and "rnd t = t"
  shows "limiter_ok rnd (rl\<lparr>rl_buckets := AList.update key \<lparr>bk_tokens = t, bk_lastSeen = now\<rparr> (rl_buckets rl)\<rparr>)"
proof -
  let ?b = "\<lparr>bk_tokens = t, bk_lastSeen = now\<rparr>"
  have "0 \<le> bk_tokens b \<and> bk_tokens b \<le> rl_burst rl \<and> rnd (bk_tokens b) = bk_tokens b"
    if "b \<in> snd ` set (AList.update key ?b (rl_buckets rl))" for b
  proof -
    have "b = ?b \<or> b \<in> snd ` set (rl_buckets rl)"
      using snd_set_update [of key ?b] that by blast
    then show ?thesis
      using assms unfolding limiter_ok_def by auto
  qed
  then show ?thesis
    using assms(1) by (simp add: limiter_ok_def)
qed

lemma NewRateLimiter_ok:
  assumes rnd: "float_rounding rnd"
  shows "limiter_ok rnd (NewRateLimiter rnd perMinute burst)"
proof -
  have pos: "1 \<le> rnd (of_int n)" if "1 \<le> n" for n
    using roundingD(1) [OF rnd, of "of_int 1" "of_int n"] roundingD(2) [OF rnd, of 1] that by simp
  have "0 \<le> rnd (of_int n) / 60" if "1 \<le> n" for n
    using pos [OF that] by simp
  then show ?thesis
    using pos roundingD(5) [OF rnd] roundingD(6) [OF rnd] by (auto simp: NewRateLimiter_def limiter_ok_def Let_def)
qed

lemma Allow_ok:
  assumes rnd: "float_rounding rnd" and rl: "limiter_ok rnd rl" and clock: "bk_lastSeen (bucket_of rl (d_now d) key) \<le> d_now d"
  shows "limiter_ok rnd (snd (Allow rnd d key rl))"
proof -
  let ?t = "refill rnd rl (d_now d) (bucket_of rl (d_now d) key)"
  have t: "0 \<le> ?t \<and> ?t \<le> rl_burst rl \<and> rnd ?t = ?t"
    using refill_bounds [OF rnd rl _ clock] bucket_of_ok [OF rl] by blast
  have "0 \<le> rnd (?t - 1) \<and> rnd (?t - 1) \<le> rl_burst rl" if "1 \<le> ?t"
    using roundingD(5) [OF rnd, of "?t - 1"] roundingD(1) [OF rnd, of "?t - 1" ?t] that t by simp
  then show ?thesis
    using t roundingD(6) [OF rnd] unfolding Allow_cases Let_def by (auto intro!: limiter_ok_put [OF rl])
qed

lemma Reap_ok: "limiter_ok rnd rl \<Longrightarrow> limiter_ok rnd (Reap d idleFor rl)"
  by (auto simp: limiter_ok_def Reap_def Let_def)

section \<open>How many requests pass\<close>

text \<open>The requests of one client, one draw each: how many are allowed, and the limiter afterwards.\<close>

fun allow_run :: "(rat \<Rightarrow> rat) \<Rightarrow> gostring \<Rightarrow> Draw list \<Rightarrow> RateLimiter \<Rightarrow> nat \<times> RateLimiter" where
  "allow_run rnd key [] rl = (0, rl)"
| "allow_run rnd key (d # ds) rl =
     (case Allow rnd d key rl of
        ((allowed, _), rl') \<Rightarrow> (case allow_run rnd key ds rl' of (n, rl'') \<Rightarrow> (n + (if allowed then 1 else 0), rl'')))"

lemma allow_run_Cons:
  "fst (allow_run rnd key (d # ds) rl) =
     fst (allow_run rnd key ds (snd (Allow rnd d key rl))) + (if fst (fst (Allow rnd d key rl)) then 1 else 0)"
  by (simp split: prod.splits)

lemma refill_same_instant:
  assumes "float_rounding rnd" and "rnd (bk_tokens b) = bk_tokens b" and "bk_tokens b \<le> rl_burst rl"
  shows "refill rnd rl (bk_lastSeen b) b = bk_tokens b"
  using assms(2, 3) by (simp add: refill_def seconds_zero [OF assms(1)] roundingD(3) [OF assms(1)])

text \<open>At one instant, a bucket with a whole number of tokens lets exactly that many requests through.\<close>

lemma allow_run_instant:
  assumes rnd: "float_rounding rnd" and n: "int n \<le> 2 ^ 53"
  shows "bucket_of rl t key = \<lparr>bk_tokens = of_nat n, bk_lastSeen = t\<rparr> \<Longrightarrow> of_nat n \<le> rl_burst rl \<Longrightarrow>
    \<forall>d \<in> set ds. d_now d = t \<Longrightarrow> fst (allow_run rnd key ds rl) = min n (length ds)"
  using n
proof (induction ds arbitrary: n rl)
  case (Cons d ds)
  have d: "d_now d = t"
    using Cons.prems(3) by simp
  have exact: "rnd (of_nat m) = of_nat m" if "m \<le> n" for m
    using roundingD(2) [OF rnd, of "int m"] Cons.prems(4) that by simp
  have t: "refill rnd rl t (bucket_of rl t key) = of_nat n"
    using refill_same_instant [OF rnd, of "bucket_of rl t key" rl] exact [of n] Cons.prems(1, 2) by simp
  show ?case
  proof (cases n)
    case 0
    have "bucket_of (snd (Allow rnd d key rl)) t key = \<lparr>bk_tokens = of_nat 0, bk_lastSeen = t\<rparr>"
      unfolding Allow_bucket d t by (simp add: 0)
    moreover have "\<not> fst (fst (Allow rnd d key rl))"
      unfolding Allow_verdict d t by (simp add: 0)
    ultimately show ?thesis
      using Cons.IH [where n = 0 and rl = "snd (Allow rnd d key rl)"] Cons.prems(2, 3) unfolding allow_run_Cons by (simp add: 0)
  next
    case (Suc m)
    have "bucket_of (snd (Allow rnd d key rl)) t key = \<lparr>bk_tokens = of_nat m, bk_lastSeen = t\<rparr>"
      unfolding Allow_bucket d t using exact [of m] by (simp add: Suc)
    moreover have "fst (fst (Allow rnd d key rl))"
      unfolding Allow_verdict d t by (simp add: Suc)
    ultimately show ?thesis
      using Cons.IH [where n = m and rl = "snd (Allow rnd d key rl)"] Cons.prems(2-4) unfolding allow_run_Cons by (simp add: Suc)
  qed
qed simp

end
