(* ===== verification/Middleware.thy ===== *)
theory Middleware
  imports RateLimit Body
begin

text \<open>
  HTTP handlers and the middleware of \<open>internal/httpx/middleware.go\<close>.  A handler takes its draws
  (what its calls read from the environment), the request, the writer and the state of the
  process, and says whether it returned or panicked.
\<close>

section \<open>Handlers\<close>

text \<open>
  The state of the process: the store, the two limiters, the log.  \<open>Panicked\<close> is a panic
  travelling up the stack.
\<close>

record 's World =
  wd_store :: 's
  wd_limiter :: RateLimiter
  wd_authLimiter :: RateLimiter
  wd_log :: "LogEntry list"

datatype outcome = Completed | Panicked gostring

type_synonym ('s, 'u) http_handler =
  "(nat \<Rightarrow> Draw) \<Rightarrow> 'u Request \<Rightarrow> Writer \<Rightarrow> 's World \<Rightarrow> outcome \<times> Writer \<times> 's World"

text \<open>\<open>httpx.Handler\<close>: a handler that returns its error; or panics.\<close>

datatype verdict = Answered | Failed go_error | Crashed gostring

type_synonym ('s, 'u) api_handler =
  "(nat \<Rightarrow> Draw) \<Rightarrow> 'u Request \<Rightarrow> Writer \<Rightarrow> 's World \<Rightarrow> verdict \<times> Writer \<times> 's World"

definition ServeHTTP :: "('s, 'u) api_handler \<Rightarrow> ('s, 'u) http_handler" where
  "ServeHTTP h dr r w s =
     (case h dr r w s of
        (Answered, w', s') \<Rightarrow> (Completed, w', s')
      | (Failed err, w', s') \<Rightarrow>
          (case WriteError r err w' (wd_log s') of (w'', logs) \<Rightarrow> (Completed, w'', s'\<lparr>wd_log := logs\<rparr>))
      | (Crashed msg, w', s') \<Rightarrow> (Panicked msg, w', s'))"

definition log_entry :: "LogEntry \<Rightarrow> 's World \<Rightarrow> 's World" where
  "log_entry e s = s\<lparr>wd_log := wd_log s @ [e]\<rparr>"

section \<open>Middleware\<close>

text \<open>
  Each middleware takes its own draws from an even position and passes the odd ones on, so that
  no two calls share a draw.
\<close>

definition own_draw :: "(nat \<Rightarrow> Draw) \<Rightarrow> nat \<Rightarrow> Draw" where
  "own_draw dr k = dr (2 * k)"

definition next_draws :: "(nat \<Rightarrow> Draw) \<Rightarrow> nat \<Rightarrow> Draw" where
  "next_draws dr k = dr (2 * k + 1)"

fun Chain :: "('s, 'u) http_handler \<Rightarrow> (('s, 'u) http_handler \<Rightarrow> ('s, 'u) http_handler) list \<Rightarrow> ('s, 'u) http_handler" where
  "Chain h [] = h"
| "Chain h (mw # mws) = mw (Chain h mws)"

definition WithRequestID :: "('s, 'u) http_handler \<Rightarrow> ('s, 'u) http_handler" where
  "WithRequestID next_handler dr r w s =
     (let given = rq_Header r ''X-Request-Id'';
          ident = (if given = [] then hex_encode (rand_bytes (own_draw dr 0) 8) else given)
      in next_handler (next_draws dr) (r\<lparr>rq_requestID := ident\<rparr>) (Header_Set ''X-Request-Id'' ident w) s)"

definition WithCORS :: "('s, 'u) http_handler \<Rightarrow> ('s, 'u) http_handler" where
  "WithCORS next_handler dr r w s =
     (let w1 = Header_Set ''Access-Control-Expose-Headers'' ''X-Request-Id, Retry-After''
                 (Header_Set ''Access-Control-Allow-Origin'' ''*'' w)
      in if rq_Method r = MethodOptions \<and> rq_Header r ''Access-Control-Request-Method'' \<noteq> [] then
           (let reqHeaders = rq_Header r ''Access-Control-Request-Headers'';
                w2 = Header_Set ''Access-Control-Allow-Methods'' ''GET, POST, PUT, PATCH, DELETE, OPTIONS'' w1;
                w3 = Header_Set ''Access-Control-Allow-Headers''
                       (if reqHeaders \<noteq> [] then reqHeaders else ''Authorization, Content-Type, X-Request-Id'') w2;
                w4 = Header_Set ''Access-Control-Max-Age'' ''86400'' w3
            in (Completed, WriteHeader 204 w4, s))
         else next_handler dr r w1 s)"

text \<open>\<open>WithLogging\<close> puts a recorder around the writer and logs what it saw, unless the handler panics.\<close>

definition request_log :: "'u Request \<Rightarrow> int \<Rightarrow> nat \<Rightarrow> duration \<Rightarrow> LogEntry" where
  "request_log r status bytes elapsed =
     \<lparr>lg_Level = ''INFO'', lg_Msg = ''request'',
      lg_Attrs = [(''method'', rq_Method r), (''path'', url_path r), (''status'', itoa status),
        (''bytes'', itoa (int bytes)), (''duration_ms'', itoa (elapsed div millisecond)), (''request_id'', rq_requestID r)]\<rparr>"

definition WithLogging :: "('s, 'u) http_handler \<Rightarrow> ('s, 'u) http_handler" where
  "WithLogging next_handler dr r w s =
     (case next_handler (next_draws dr) r (w\<lparr>wr_rec := Some (0, 0)\<rparr>) s of
        (Panicked msg, w', s') \<Rightarrow> (Panicked msg, w'\<lparr>wr_rec := wr_rec w\<rparr>, s')
      | (Completed, w', s') \<Rightarrow>
          (let (status, bytes) = (case wr_rec w' of Some sb \<Rightarrow> sb | None \<Rightarrow> (0, 0));
               status = (if status = 0 then 200 else status);
               elapsed = d_now (own_draw dr 1) - d_now (own_draw dr 0)
           in (Completed, w'\<lparr>wr_rec := wr_rec w\<rparr>, log_entry (request_log r status bytes elapsed) s')))"

definition panic_log :: "'u Request \<Rightarrow> gostring \<Rightarrow> LogEntry" where
  "panic_log r msg =
     \<lparr>lg_Level = ''ERROR'', lg_Msg = ''panic recovered'',
      lg_Attrs = [(''panic'', msg), (''method'', rq_Method r), (''path'', url_path r), (''request_id'', rq_requestID r)]\<rparr>"

definition panic_error :: APIError where
  "panic_error =
     \<lparr>ae_Status = 500, ae_Code = CodeInternalError, ae_Message = ''Something went wrong on our end. Please try again.'',
      ae_Details = [], ae_cause = None\<rparr>"

definition WithRecovery :: "('s, 'u) http_handler \<Rightarrow> ('s, 'u) http_handler" where
  "WithRecovery next_handler dr r w s =
     (case next_handler dr r w s of
        (Panicked msg, w', s') \<Rightarrow>
          (Completed, writeRaw 500 (mustEnvelope panic_error) w', log_entry (panic_log r msg) s')
      | (Completed, w', s') \<Rightarrow> (Completed, w', s'))"

text \<open>
  \<open>RateLimiter.Middleware\<close>; the limiter is a field of the process, given by its selector and
  its update.
\<close>

definition limit_middleware ::
    "(rat \<Rightarrow> rat) \<Rightarrow> ('s World \<Rightarrow> RateLimiter) \<Rightarrow> (RateLimiter \<Rightarrow> 's World \<Rightarrow> 's World) \<Rightarrow> ('u Request \<Rightarrow> gostring)
      \<Rightarrow> ('s, 'u) http_handler \<Rightarrow> ('s, 'u) http_handler" where
  "limit_middleware rnd sel upd keyFor next_handler dr r w s =
     (case Allow rnd (own_draw dr 0) (keyFor r) (sel s) of
        ((allowed, retryAfter), rl) \<Rightarrow>
          if \<not> allowed then
            (case WriteError r (APIErr ErrRateLimited) (Header_Set ''Retry-After'' (retry_after rnd retryAfter) w)
                    (wd_log (upd rl s)) of
               (w', logs) \<Rightarrow> (Completed, w', (upd rl s)\<lparr>wd_log := logs\<rparr>))
          else next_handler (next_draws dr) r w (upd rl s))"

section \<open>The router (\<open>http.ServeMux\<close>)\<close>

text \<open>A pattern's segments; \<open>SRest\<close> is the trailing slash that matches every longer path.\<close>

datatype segment = SLiteral gostring | SWildcard gostring | SRest

type_synonym pattern = "segment list"

text \<open>The values of the wildcards when the pattern matches the path.\<close>

fun match_path :: "pattern \<Rightarrow> gostring list \<Rightarrow> (gostring \<times> gostring) list option" where
  "match_path [] [] = Some []"
| "match_path (SRest # _) _ = Some []"
| "match_path (SLiteral l # ps) (seg # segs) = (if l = seg then match_path ps segs else None)"
| "match_path (SWildcard n # ps) (seg # segs) =
     (if seg = ''/'' then None else map_option (\<lambda>vs. (n, seg) # vs) (match_path ps segs))"
| "match_path _ _ = None"

text \<open>
  The more specific of two patterns that match one path: at the first difference a literal wins
  over a wildcard, and a wildcard over the rest.
\<close>

fun more_specific :: "pattern \<Rightarrow> pattern \<Rightarrow> bool" where
  "more_specific (SLiteral _ # ps) (SLiteral _ # qs) = more_specific ps qs"
| "more_specific (SLiteral _ # ps) _ = True"
| "more_specific (SWildcard _ # ps) (SWildcard _ # qs) = more_specific ps qs"
| "more_specific (SWildcard _ # ps) (SRest # qs) = True"
| "more_specific _ _ = False"

text \<open>A pattern without a method matches every method, \<open>GET\<close> also serves \<open>HEAD\<close>.\<close>

definition match_method :: "gostring \<Rightarrow> gostring \<Rightarrow> bool" where
  "match_method m method \<longleftrightarrow> m = [] \<or> m = method \<or> (m = MethodGet \<and> method = MethodHead)"

fun best_match ::
    "(pattern \<times> (gostring \<times> gostring) list \<times> 'h) option \<Rightarrow> (gostring \<times> pattern \<times> 'h) list \<Rightarrow> gostring \<Rightarrow> gostring list
      \<Rightarrow> (pattern \<times> (gostring \<times> gostring) list \<times> 'h) option" where
  "best_match best [] method path = best"
| "best_match best ((m, p, h) # rs) method path =
     best_match
       (if match_method m method
        then (case match_path p path of
                None \<Rightarrow> best
              | Some vs \<Rightarrow>
                  (case best of
                     None \<Rightarrow> Some (p, vs, h)
                   | Some (p0, _) \<Rightarrow> if more_specific p p0 then Some (p, vs, h) else best))
        else best)
       rs method path"

definition path_value :: "(gostring \<times> gostring) list \<Rightarrow> gostring \<Rightarrow> gostring" where
  "path_value vs n = (case map_of vs n of Some v \<Rightarrow> v | None \<Rightarrow> [])"

text \<open>The mux: the best handler with the wildcards' values; without one, \<open>404 page not found\<close>.\<close>

definition not_found_page :: "('s, 'u) http_handler" where
  "not_found_page dr r w s =
     (Completed,
      Write (''404 page not found'' @ [CHR 0x0A])
        (WriteHeader 404 (Header_Set ''X-Content-Type-Options'' ''nosniff''
           (Header_Set ''Content-Type'' ''text/plain; charset=utf-8'' w))), s)"

definition serve_mux :: "(gostring \<times> pattern \<times> ('s, 'u) http_handler) list \<Rightarrow> ('s, 'u) http_handler" where
  "serve_mux routes dr r w s =
     (case best_match None routes (rq_Method r) (rq_Path r) of
        Some (_, vs, h) \<Rightarrow> h dr (r\<lparr>rq_PathValue := path_value vs\<rparr>) w s
      | None \<Rightarrow> not_found_page dr r w s)"

section \<open>Facts\<close>

text \<open>Whatever the handlers inside do, a panic never leaves \<open>WithRecovery\<close>.\<close>

lemma WithRecovery_completes: "fst (WithRecovery h dr r w s) = Completed"
  by (auto simp: WithRecovery_def split: outcome.splits prod.splits)

lemma WithRequestID_outcome:
  "fst (WithRequestID h dr r w s) =
     fst (h (next_draws dr)
       (r\<lparr>rq_requestID := (if rq_Header r ''X-Request-Id'' = [] then hex_encode (rand_bytes (own_draw dr 0) 8) else rq_Header r ''X-Request-Id'')\<rparr>)
       (Header_Set ''X-Request-Id'' (if rq_Header r ''X-Request-Id'' = [] then hex_encode (rand_bytes (own_draw dr 0) 8)
          else rq_Header r ''X-Request-Id'') w) s)"
  by (simp add: WithRequestID_def Let_def)

end
