(* ===== verification/HttpProps.thy ===== *)
theory HttpProps
  imports Middleware
begin

text \<open>What the HTTP layer guarantees about the budgets of the rate limiter.\<close>

section \<open>Budgets\<close>

lemma float_rounding_id: "float_rounding (\<lambda>x. x)"
  by (simp add: float_rounding_def)

text \<open>C31: a client that a new limiter has never seen gets exactly its burst: of any number of requests
  at one instant, the first ones up to the configured burst pass and all the others are rejected,
  whatever the rounding of floats does beyond small integers.\<close>

theorem rate_limit_burst:
  assumes "float_rounding rnd" and "0 < burst" and "burst \<le> 2 ^ 53" and "\<forall>d \<in> set ds. d_now d = t"
  shows "fst (allow_run rnd key ds (NewRateLimiter rnd perMinute burst)) = min (nat burst) (length ds)"
proof -
  let ?rl = "NewRateLimiter rnd perMinute burst"
  have b: "rl_burst ?rl = of_nat (nat burst)"
    using roundingD(2) [OF assms(1), of burst] assms(2, 3) by (simp add: NewRateLimiter_def Let_def)
  then have "bucket_of ?rl t key = \<lparr>bk_tokens = of_nat (nat burst), bk_lastSeen = t\<rparr>"
    by (simp add: bucket_of_def) (simp add: NewRateLimiter_def Let_def)
  then show ?thesis
    using allow_run_instant [OF assms(1) _ _ _ assms(4)] b assms(3) by simp
qed

theorem rate_limit_burst_witness:
  "fst (allow_run (\<lambda>x. x) ''10.0.0.1'' (replicate 12 \<lparr>d_now = 0, d_rand = (\<lambda>_. CHR ''x''), d_order = (\<lambda>_. 0), d_fault = None\<rparr>)
     (NewRateLimiter (\<lambda>x. x) 20 10)) = 10"
  using rate_limit_burst [OF float_rounding_id, of 10 "replicate 12 \<lparr>d_now = 0, d_rand = (\<lambda>_. CHR ''x''), d_order = (\<lambda>_. 0), d_fault = None\<rparr>" 0
      "''10.0.0.1''" 20] by simp

text \<open>Requests over time: with exact arithmetic the tokens spent and left never exceed the budget.\<close>

lemma seconds_exact: "0 \<le> d \<Longrightarrow> seconds (\<lambda>x. x) d = of_int d / of_int second"
proof -
  assume d: "0 \<le> d"
  have "of_int d = (of_int (d div second * second + (d - d div second * second)) :: rat)"
    by simp
  then show ?thesis
    using d unfolding seconds_def Let_def
    by (simp only: of_int_add of_int_mult if_False not_less) (simp add: field_simps)
qed

fun sorted_draws :: "time \<Rightarrow> Draw list \<Rightarrow> bool" where
  "sorted_draws t [] \<longleftrightarrow> True"
| "sorted_draws t (d # ds) \<longleftrightarrow> t \<le> d_now d \<and> sorted_draws (d_now d) ds"

lemma allow_run_potential:
  assumes "limiter_ok (\<lambda>x. x) rl" and "sorted_draws t ds" and "bk_lastSeen (bucket_of rl t key) \<le> t"
  shows "of_nat (fst (allow_run (\<lambda>x. x) key ds rl)) \<le>
    bk_tokens (bucket_of rl t key) + of_int (last (t # map d_now ds) - bk_lastSeen (bucket_of rl t key)) / of_int second * rl_refillPerSecond rl"
  using assms
proof (induction ds arbitrary: t rl)
  case Nil
  then show ?case
    using bucket_of_ok [OF Nil(1), of t key] by (auto simp: limiter_ok_def)
next
  case (Cons d ds)
  let ?rl' = "snd (Allow (\<lambda>x. x) d key rl)"
  let ?b = "bucket_of rl (d_now d) key"
  let ?t = "refill (\<lambda>x. x) rl (d_now d) ?b"
  let ?s = "of_int second :: rat"
  let ?last = "last (d_now d # map d_now ds)"
  let ?B = "bk_tokens (bucket_of rl t key)"
  let ?L = "bk_lastSeen (bucket_of rl t key)"
  have d: "t \<le> d_now d" "sorted_draws (d_now d) ds"
    using Cons.prems(2) by simp_all
  have rate: "0 \<le> rl_refillPerSecond rl"
    using Cons.prems(1) by (simp add: limiter_ok_def)
  have same: "bk_tokens ?b = ?B \<and> ?L \<le> bk_lastSeen ?b \<and> bk_lastSeen ?b \<le> d_now d"
    using Cons.prems(3) d(1) by (auto simp: bucket_of_def split: option.splits)
  have "?t \<le> bk_tokens ?b + of_int (d_now d - bk_lastSeen ?b) / ?s * rl_refillPerSecond rl"
    using same seconds_exact [of "d_now d - bk_lastSeen ?b"] unfolding refill_def by (metis diff_ge_0_iff_ge min.cobounded2)
  also have "\<dots> \<le> ?B + of_int (d_now d - ?L) / ?s * rl_refillPerSecond rl"
    using same rate by (intro add_mono mult_right_mono divide_right_mono) simp_all
  finally have t: "?t \<le> ?B + of_int (d_now d - ?L) / ?s * rl_refillPerSecond rl" .
  have ok: "limiter_ok (\<lambda>x. x) ?rl'"
    using Allow_ok [OF float_rounding_id Cons.prems(1)] same by blast
  have b': "bucket_of ?rl' (d_now d) key = \<lparr>bk_tokens = (if ?t < 1 then ?t else ?t - 1), bk_lastSeen = d_now d\<rparr>"
    unfolding Allow_bucket Let_def by simp
  have "of_nat (fst (allow_run (\<lambda>x. x) key ds ?rl')) \<le> (if ?t < 1 then ?t else ?t - 1) + of_int (?last - d_now d) / ?s * rl_refillPerSecond rl"
    using Cons.IH [OF ok d(2)] unfolding b' by simp
  then have "of_nat (fst (allow_run (\<lambda>x. x) key (d # ds) rl)) \<le> ?t + of_int (?last - d_now d) / ?s * rl_refillPerSecond rl"
    unfolding allow_run_Cons Allow_verdict by (simp split: if_splits)
  also have "\<dots> \<le> ?B + of_int (d_now d - ?L) / ?s * rl_refillPerSecond rl + of_int (?last - d_now d) / ?s * rl_refillPerSecond rl"
    using t by simp
  also have "\<dots> = ?B + of_int (?last - ?L) / ?s * rl_refillPerSecond rl"
    by (simp add: field_simps)
  finally show ?case
    by simp
qed



text \<open>A run of calls with any clients, as \<open>Allow\<close> and \<open>Reap\<close> leave the limiter.\<close>

inductive limiter_run :: "(rat \<Rightarrow> rat) \<Rightarrow> time \<Rightarrow> RateLimiter \<Rightarrow> time \<Rightarrow> RateLimiter \<Rightarrow> bool" for rnd t0 rl0 where
  start: "limiter_run rnd t0 rl0 t0 rl0"
| allow: "limiter_run rnd t0 rl0 t rl \<Longrightarrow> t \<le> d_now d \<Longrightarrow> limiter_run rnd t0 rl0 (d_now d) (snd (Allow rnd d key rl))"
| reap: "limiter_run rnd t0 rl0 t rl \<Longrightarrow> t \<le> d_now d \<Longrightarrow> limiter_run rnd t0 rl0 (d_now d) (Reap d idleFor rl)"

definition seen_by :: "time \<Rightarrow> RateLimiter \<Rightarrow> bool" where
  "seen_by t rl \<longleftrightarrow> (\<forall>b \<in> snd ` set (rl_buckets rl). bk_lastSeen b \<le> t)"

lemma seen_by_bucket: "seen_by t rl \<Longrightarrow> t \<le> now \<Longrightarrow> bk_lastSeen (bucket_of rl now key) \<le> now"
  by (force simp: seen_by_def bucket_of_def dest: map_of_SomeD split: option.splits)

lemma seen_by_Allow:
  assumes "seen_by t rl" and "t \<le> d_now d"
  shows "seen_by (d_now d) (snd (Allow rnd d key rl))"
proof -
  obtain x where x: "rl_buckets (snd (Allow rnd d key rl)) = AList.update key \<lparr>bk_tokens = x, bk_lastSeen = d_now d\<rparr> (rl_buckets rl)"
    unfolding Allow_cases Let_def by (cases "refill rnd rl (d_now d) (bucket_of rl (d_now d) key) < 1") auto
  have "bk_lastSeen b \<le> d_now d" if "b \<in> snd ` set (rl_buckets (snd (Allow rnd d key rl)))" for b
  proof -
    have "bk_lastSeen b = d_now d \<or> b \<in> snd ` set (rl_buckets rl)"
      using that snd_set_update [of key "\<lparr>bk_tokens = x, bk_lastSeen = d_now d\<rparr>" "rl_buckets rl"] unfolding x by auto
    then show ?thesis
      using assms by (auto simp: seen_by_def intro: order_trans)
  qed
  then show ?thesis
    by (simp add: seen_by_def)
qed

lemma seen_by_Reap: "seen_by t rl \<Longrightarrow> t \<le> d_now d \<Longrightarrow> seen_by (d_now d) (Reap d idleFor rl)"
  by (force simp: seen_by_def Reap_def Let_def)

lemma limiter_run_ok:
  "limiter_run rnd t0 rl0 t rl \<Longrightarrow> float_rounding rnd \<Longrightarrow> limiter_ok rnd rl0 \<Longrightarrow> seen_by t0 rl0 \<Longrightarrow> limiter_ok rnd rl \<and> seen_by t rl"
  by (induction rule: limiter_run.induct) (auto intro: Allow_ok Reap_ok seen_by_bucket seen_by_Allow seen_by_Reap)

text \<open>C33: whatever clients call and whenever idle buckets are reaped, every bucket of the limiter holds between no
  tokens and the full burst, and a rejected request is always told to wait at least one second.\<close>

theorem rate_limit_invariant:
  assumes "limiter_run rnd t0 (NewRateLimiter rnd perMinute burst) t rl" and "float_rounding rnd"
  shows "limiter_ok rnd rl \<and>
    (\<forall>d key wait rl'. Allow rnd d key rl = ((False, wait), rl') \<longrightarrow> second \<le> wait \<and> 1 \<le> \<lceil>seconds rnd wait\<rceil>)"
proof -
  have "seen_by t0 (NewRateLimiter rnd perMinute burst)"
    by (simp add: seen_by_def NewRateLimiter_def Let_def)
  then have ok: "limiter_ok rnd rl"
    using limiter_run_ok [OF assms NewRateLimiter_ok [OF assms(2)]] by blast
  have "1 \<le> seconds rnd wait" if "second \<le> wait" for wait
  proof -
    note r = roundingD [OF assms(2)]
    have "1 \<le> wait div second" "0 \<le> wait - wait div second * second"
      using that by (simp_all add: minus_div_mult_eq_mod zdiv_mono1 [of second wait second, simplified])
    then have "1 \<le> rnd (of_int (wait div second)) + rnd (rnd (of_int (wait - wait div second * second)) / of_int second)"
      using r(1) [of 1 "of_int (wait div second)"] r(4) r(5) [of "of_int (wait - wait div second * second)"]
        r(5) [of "rnd (of_int (wait - wait div second * second)) / of_int second"] by simp
    then have "rnd 1 \<le> seconds rnd wait"
      using that unfolding seconds_def Let_def by (intro r(1)) simp
    then show ?thesis
      using r(4) by simp
  qed
  then show ?thesis
    using ok by (auto simp: Allow_cases Let_def split: if_splits intro!: less_le_trans [OF zero_less_one])
qed

theorem rate_limit_invariant_witness:
  "limiter_ok (\<lambda>x. x) (snd (Allow (\<lambda>x. x) \<lparr>d_now = 5, d_rand = (\<lambda>_. CHR ''x''), d_order = (\<lambda>_. 0), d_fault = None\<rparr> ''10.0.0.1''
     (NewRateLimiter (\<lambda>x. x) 120 40)))"
proof -
  let ?d = "\<lparr>d_now = 5, d_rand = (\<lambda>_. CHR ''x''), d_order = (\<lambda>_. 0), d_fault = None\<rparr>"
  have "limiter_run (\<lambda>x. x) 0 (NewRateLimiter (\<lambda>x. x) 120 40) (d_now ?d) (snd (Allow (\<lambda>x. x) ?d ''10.0.0.1'' (NewRateLimiter (\<lambda>x. x) 120 40)))"
    by (intro limiter_run.allow [OF limiter_run.start]) simp
  from rate_limit_invariant [OF this float_rounding_id] show ?thesis
    by blast
qed

end
