(* ===== verification/Uploads.thy ===== *)
theory Uploads
  imports Config Encoding
begin

text \<open>
  Object storage, \<open>internal/uploads\<close>: what may be uploaded, presigned URLs, the inspection of an
  uploaded object and the removal of abandoned ones.  The S3 client and the image decoders are
  the parameter \<open>S3Lib\<close>.
\<close>

section \<open>Constraints (\<open>constraints.go\<close>)\<close>

definition PurposeAvatar :: gostring where "PurposeAvatar = ''avatar''"
definition PurposePost :: gostring where "PurposePost = ''post''"

record Constraints =
  cn_MaxBytes :: int
  cn_MinWidth :: int
  cn_MinHeight :: int

definition allowedContentTypes :: "gostring gomap" where
  "allowedContentTypes = [(''image/jpeg'', ''jpg''), (''image/png'', ''png''), (''image/webp'', ''webp'')]"

definition constraintsByPurpose :: "Constraints gomap" where
  "constraintsByPurpose =
     [(PurposeAvatar, \<lparr>cn_MaxBytes = 5 * 2 ^ 20, cn_MinWidth = 200, cn_MinHeight = 200\<rparr>),
      (PurposePost, \<lparr>cn_MaxBytes = 10 * 2 ^ 20, cn_MinWidth = 320, cn_MinHeight = 320\<rparr>)]"

text \<open>The error of \<open>ParsePurpose\<close> quotes both purposes.\<close>

definition purpose_error :: gostring where
  "purpose_error = ''must be either '' @ [CHR 0x22] @ PurposeAvatar @ [CHR 0x22] @ '' or '' @ [CHR 0x22] @ PurposePost @ [CHR 0x22]"

definition ParsePurpose :: "gostring \<Rightarrow> gostring + gostring" where
  "ParsePurpose raw =
     (let p = trim_space raw in if map_of constraintsByPurpose p = None then Inl purpose_error else Inr p)"

definition ConstraintsFor :: "gostring \<Rightarrow> Constraints" where
  "ConstraintsFor p =
     (case map_of constraintsByPurpose p of
        Some c \<Rightarrow> c
      | None \<Rightarrow> \<lparr>cn_MaxBytes = 0, cn_MinWidth = 0, cn_MinHeight = 0\<rparr>)"

definition normaliseContentType :: "(nat \<Rightarrow> nat) \<Rightarrow> gostring \<Rightarrow> gostring" where
  "normaliseContentType uni raw = to_lower uni (trim_space (fst (cut CHR '';'' raw)))"

definition ExtensionFor :: "(nat \<Rightarrow> nat) \<Rightarrow> gostring \<Rightarrow> gostring \<times> bool" where
  "ExtensionFor uni contentType =
     (case map_of allowedContentTypes (normaliseContentType uni contentType) of
        Some ext \<Rightarrow> (ext, True)
      | None \<Rightarrow> ([], False))"

definition AllowedContentTypes :: "gostring list" where
  "AllowedContentTypes = [''image/jpeg'', ''image/png'', ''image/webp'']"

section \<open>Object storage\<close>

text \<open>An error of the S3 client: the typed \<open>NoSuchKey\<close>, an API error code, its text.\<close>

record S3Error =
  se_NoSuchKey :: bool
  se_ErrorCode :: "gostring option"
  se_text :: gostring

text \<open>
  The calls the program makes: the object's bytes with its stored content type; the removal of a
  batch of keys; a presigned URL; and \<open>image.DecodeConfig\<close>, which names the format and the
  dimensions from the first bytes.
\<close>

record S3Lib =
  s3_GetObject :: "Draw \<Rightarrow> gostring \<Rightarrow> gostring \<Rightarrow> S3Error + gostring \<times> gostring option"
  s3_DeleteObjects :: "Draw \<Rightarrow> gostring \<Rightarrow> gostring list \<Rightarrow> S3Error option"
  s3_PresignPutObject :: "Draw \<Rightarrow> gostring \<Rightarrow> gostring \<Rightarrow> gostring \<Rightarrow> int \<Rightarrow> duration \<Rightarrow> S3Error + gostring"
  image_DecodeConfig :: "gostring \<Rightarrow> (gostring \<times> int \<times> int) option"

datatype upload_error =
    ErrObjectMissing | ErrNotAnImage | ErrTypeMismatch | ErrTooSmall gostring | UploadOther gostring

definition upload_error_text :: "upload_error \<Rightarrow> gostring" where
  "upload_error_text e =
     (case e of
        ErrObjectMissing \<Rightarrow> ''uploads: object has not been uploaded''
      | ErrNotAnImage \<Rightarrow> ''uploads: object is not a supported image''
      | ErrTypeMismatch \<Rightarrow> ''uploads: image type does not match its declared content type''
      | ErrTooSmall msg \<Rightarrow> ''uploads: image is smaller than the minimum dimensions'' @ msg
      | UploadOther msg \<Rightarrow> msg)"

record ImageInfo =
  ii_DeclaredType :: gostring
  ii_ActualType :: gostring
  ii_Width :: int
  ii_Height :: int

definition contentTypeForFormat :: "gostring gomap" where
  "contentTypeForFormat = [(''jpeg'', ''image/jpeg''), (''png'', ''image/png''), (''webp'', ''image/webp'')]"

definition isNotFound :: "S3Error \<Rightarrow> bool" where
  "isNotFound e \<longleftrightarrow> se_NoSuchKey e \<or> se_ErrorCode e = Some ''NoSuchKey'' \<or> se_ErrorCode e = Some ''NotFound''"

definition DecodeHeader :: "S3Lib \<Rightarrow> gostring \<Rightarrow> upload_error + ImageInfo" where
  "DecodeHeader s3 bytes =
     (case image_DecodeConfig s3 bytes of
        None \<Rightarrow> Inl ErrNotAnImage
      | Some (format, width, height) \<Rightarrow>
          (case map_of contentTypeForFormat format of
             None \<Rightarrow> Inl ErrNotAnImage
           | Some actual \<Rightarrow>
               Inr \<lparr>ii_DeclaredType = [], ii_ActualType = actual, ii_Width = width, ii_Height = height\<rparr>))"

definition dimensions :: "int \<Rightarrow> int \<Rightarrow> gostring" where
  "dimensions w h = itoa w @ ''x'' @ itoa h"

definition Check :: "(nat \<Rightarrow> nat) \<Rightarrow> gostring \<Rightarrow> ImageInfo \<Rightarrow> upload_error option" where
  "Check uni purpose info =
     (if ii_ActualType info \<noteq> normaliseContentType uni (ii_DeclaredType info) then Some ErrTypeMismatch
      else
        let limits = ConstraintsFor purpose
        in if ii_Width info < cn_MinWidth limits \<or> ii_Height info < cn_MinHeight limits then
             Some (ErrTooSmall ('': got '' @ dimensions (ii_Width info) (ii_Height info) @ '', need at least '' @
               dimensions (cn_MinWidth limits) (cn_MinHeight limits)))
           else None)"

section \<open>The presigner (\<open>presigner.go\<close>)\<close>

record Presigner =
  ps_bucket :: gostring
  ps_publicBaseURL :: gostring
  ps_ttl :: duration

text \<open>\<open>New\<close>, once the AWS configuration has loaded (or not).\<close>

definition New_presigner :: "gostring option \<Rightarrow> StorageConfig \<Rightarrow> gostring + Presigner" where
  "New_presigner load_error cfg =
     (case load_error of
        Some e \<Rightarrow> Inl (''loading AWS config: '' @ e)
      | None \<Rightarrow> Inr \<lparr>ps_bucket = sc_Bucket cfg, ps_publicBaseURL = sc_PublicBaseURL cfg, ps_ttl = sc_PresignTTL cfg\<rparr>)"

definition Inspect :: "(nat \<Rightarrow> nat) \<Rightarrow> S3Lib \<Rightarrow> Presigner \<Rightarrow> Draw \<Rightarrow> gostring \<Rightarrow> upload_error + ImageInfo" where
  "Inspect uni s3 p d key =
     (case s3_GetObject s3 d (ps_bucket p) key of
        Inl e \<Rightarrow> if isNotFound e then Inl ErrObjectMissing else Inl (UploadOther (''reading uploaded object: '' @ se_text e))
      | Inr (body, contentType) \<Rightarrow>
          (case DecodeHeader s3 body of
             Inl e \<Rightarrow> Inl e
           | Inr info \<Rightarrow>
               Inr (info\<lparr>ii_DeclaredType := normaliseContentType uni (case contentType of None \<Rightarrow> [] | Some ct \<Rightarrow> ct)\<rparr>)))"

record Presigned =
  pd_UploadURL :: gostring
  pd_Key :: gostring
  pd_ExpiresAt :: time

definition newKey :: "Draw \<Rightarrow> gostring \<Rightarrow> gostring \<Rightarrow> gostring" where
  "newKey d purpose ext = ''uploads/'' @ hex_encode (rand_bytes d 12) @ ''/'' @ purpose @ ''.'' @ ext"

text \<open>\<open>Presign\<close>: the key is draw 0, the clock draw 1, the signing draw 2.\<close>

definition Presign ::
    "(nat \<Rightarrow> nat) \<Rightarrow> S3Lib \<Rightarrow> Presigner \<Rightarrow> (nat \<Rightarrow> Draw) \<Rightarrow> gostring \<Rightarrow> gostring \<Rightarrow> int \<Rightarrow> gostring + Presigned" where
  "Presign uni s3 p dr purpose contentType contentLength =
     (let (ext, ok) = ExtensionFor uni contentType
      in if \<not> ok then
           Inl (''uploads: content type '' @ [CHR 0x22] @ contentType @ [CHR 0x22] @ '' is not allowed'')
         else
           let key = newKey (dr 0) purpose ext; expiresAt = d_now (dr 1) + ps_ttl p
           in case s3_PresignPutObject s3 (dr 2) (ps_bucket p) key (normaliseContentType uni contentType) contentLength (ps_ttl p) of
                Inl e \<Rightarrow> Inl (''presigning upload: '' @ se_text e)
              | Inr url \<Rightarrow> Inr \<lparr>pd_UploadURL = url, pd_Key = key, pd_ExpiresAt = expiresAt\<rparr>)"

definition PublicURL :: "Presigner \<Rightarrow> gostring \<Rightarrow> gostring" where
  "PublicURL p key = (if key = [] then [] else ps_publicBaseURL p @ ''/'' @ key)"

text \<open>\<open>Delete\<close>: the batches sent, in order, and the error that ended the loop.\<close>

definition delete_batch_size :: nat where "delete_batch_size = 1000"

function delete_batches :: "S3Lib \<Rightarrow> Presigner \<Rightarrow> (nat \<Rightarrow> Draw) \<Rightarrow> nat \<Rightarrow> gostring list \<Rightarrow> gostring option \<times> gostring list list" where
  "delete_batches s3 p dr k keys =
     (if keys = [] then (None, [])
      else
        let batch = take delete_batch_size keys
        in case s3_DeleteObjects s3 (dr k) (ps_bucket p) batch of
             Some e \<Rightarrow> (Some (''deleting abandoned objects: '' @ se_text e), [batch])
           | None \<Rightarrow>
               (case delete_batches s3 p dr (Suc k) (drop delete_batch_size keys) of (err, bs) \<Rightarrow> (err, batch # bs)))"
  by pat_completeness auto
termination
  by (relation "measure (\<lambda>(s3, p, dr, k, keys). length keys)") (auto simp: delete_batch_size_def)

declare delete_batches.simps [simp del]

definition Delete :: "S3Lib \<Rightarrow> Presigner \<Rightarrow> (nat \<Rightarrow> Draw) \<Rightarrow> gostring list \<Rightarrow> gostring option \<times> gostring list list" where
  "Delete s3 p dr keys = (if keys = [] then (None, []) else delete_batches s3 p dr 0 keys)"

section \<open>Facts\<close>

lemma delete_batches_sent:
  "delete_batches s3 p dr k keys = (err, bs) \<Longrightarrow>
     (\<forall>b \<in> set bs. b \<noteq> [] \<and> length b \<le> 1000) \<and> (\<exists>rest. keys = concat bs @ rest) \<and> (err = None \<longrightarrow> concat bs = keys)"
proof (induction s3 p dr k keys arbitrary: err bs rule: delete_batches.induct)
  case (1 s3 p dr k keys)
  show ?case
  proof (cases "keys = []")
    case True
    then show ?thesis
      using "1.prems" by (simp add: delete_batches.simps [of s3 p dr k])
  next
    case False
    let ?b = "take delete_batch_size keys"
    have b: "?b \<noteq> [] \<and> length ?b \<le> 1000"
      using False by (simp add: delete_batch_size_def)
    show ?thesis
    proof (cases "s3_DeleteObjects s3 (dr k) (ps_bucket p) ?b")
      case None
      obtain err' bs' where r: "delete_batches s3 p dr (Suc k) (drop delete_batch_size keys) = (err', bs')"
        by fastforce
      then have e: "err = err'" "bs = ?b # bs'"
        using "1.prems" False None by (simp_all add: delete_batches.simps [of s3 p dr k])
      obtain rest where rest: "drop delete_batch_size keys = concat bs' @ rest" and ih: "\<forall>b \<in> set bs'. b \<noteq> [] \<and> length b \<le> 1000"
        "err' = None \<longrightarrow> concat bs' = drop delete_batch_size keys"
        using "1.IH" [OF False refl None r] by blast
      have split: "keys = ?b @ drop delete_batch_size keys"
        by (rule append_take_drop_id [symmetric])
      have "keys = concat (?b # bs') @ rest"
        using split unfolding rest by simp
      moreover have "err' = None \<longrightarrow> concat (?b # bs') = keys"
        using ih(2) split by simp
      ultimately show ?thesis
        unfolding e using b ih(1) by (metis set_ConsD)
    next
      case (Some e)
      then have "err \<noteq> None \<and> bs = [?b]"
        using "1.prems" False by (auto simp: delete_batches.simps [of s3 p dr k])
      moreover have "keys = concat [?b] @ drop delete_batch_size keys"
        by simp
      ultimately show ?thesis
        using b by (metis (no_types, lifting) empty_iff insert_iff list.set)
    qed
  qed
qed

text \<open>What a check accepts.\<close>

lemma Check_ok_iff:
  "Check uni purpose info = None \<longleftrightarrow>
     ii_ActualType info = normaliseContentType uni (ii_DeclaredType info)
     \<and> cn_MinWidth (ConstraintsFor purpose) \<le> ii_Width info \<and> cn_MinHeight (ConstraintsFor purpose) \<le> ii_Height info"
  by (auto simp: Check_def Let_def)

lemma ParsePurpose_Inr: "ParsePurpose raw = Inr p \<Longrightarrow> p = PurposeAvatar \<or> p = PurposePost"
  by (auto simp: ParsePurpose_def Let_def constraintsByPurpose_def split: if_splits)

end
