(* ===== verification/Buildinfo.thy ===== *)
theory Buildinfo
  imports GoStrings Prelude
begin

text \<open>
  What a binary was built from, \<open>internal/buildinfo/buildinfo.go\<close>.  The version stamped by the
  linker, the build information of the toolchain and the runtime's version are parameters.
\<close>

record BuildLib =
  bi_version :: gostring
  bi_ReadBuildInfo :: "(gostring \<times> gostring) list option"
  bi_runtime_Version :: gostring

text \<open>The loop over the settings: the last value of each key counts.\<close>

fun vcs_settings :: "gostring \<times> bool \<Rightarrow> (gostring \<times> gostring) list \<Rightarrow> gostring \<times> bool" where
  "vcs_settings (revision, modified) [] = (revision, modified)"
| "vcs_settings (revision, modified) ((k, v) # ss) =
     vcs_settings
       (if k = ''vcs.revision'' then (v, modified)
        else if k = ''vcs.modified'' then (revision, v = ''true'')
        else (revision, modified)) ss"

definition Revision :: "BuildLib \<Rightarrow> gostring" where
  "Revision bl =
     (case bi_ReadBuildInfo bl of
        None \<Rightarrow> []
      | Some settings \<Rightarrow>
          (let (revision, modified) = vcs_settings ([], False) settings
           in if revision = [] then []
              else take 12 revision @ (if modified then ''-dirty'' else [])))"

definition Version :: "BuildLib \<Rightarrow> gostring" where
  "Version bl =
     (if bi_version bl \<noteq> [] then bi_version bl
      else if Revision bl \<noteq> [] then Revision bl
      else ''dev'')"

definition GoVersion :: "BuildLib \<Rightarrow> gostring" where
  "GoVersion bl =
     (let v = bi_runtime_Version bl in if take 2 v = ''go'' then drop 2 v else v)"

lemma Version_nonempty: "Version bl \<noteq> []"
  by (simp add: Version_def)

end
