(* ===== verification/Dto.thy ===== *)
theory Dto
  imports Middleware Uploads Buildinfo Sessions Timestamps StoreTypes
begin

text \<open>
  The server of \<open>internal/api/api.go\<close> with its libraries, and the response types of
  \<open>internal/api/dto.go\<close>, \<open>health.go\<close> with the JSON their tags prescribe.
\<close>

section \<open>The server\<close>

text \<open>The code the server calls that is not in the repository.\<close>

record Lib =
  lb_uni :: "nat \<Rightarrow> nat"
  lb_rnd :: "rat \<Rightarrow> rat"
  lb_bcrypt :: BcryptLib
  lb_jwt :: JwtLib
  lb_s3 :: S3Lib
  lb_build :: BuildLib
  lb_openAPI :: gostring

record 's Server =
  sr_cfg :: Config
  sr_store :: "'s Store"
  sr_sessions :: "'s Service"
  sr_issuer :: TokenIssuer
  sr_presigner :: Presigner
  sr_startedAt :: time

text \<open>\<open>New\<close>: the server, and the state its handlers share.\<close>

definition New_server ::
    "Lib \<Rightarrow> Draw \<Rightarrow> Config \<Rightarrow> 's Store \<Rightarrow> 's Service \<Rightarrow> TokenIssuer \<Rightarrow> Presigner \<Rightarrow> 's \<Rightarrow> 's Server \<times> 's World" where
  "New_server lib d cfg st sessions issuer presigner s =
     (\<lparr>sr_cfg = cfg, sr_store = st, sr_sessions = sessions, sr_issuer = issuer, sr_presigner = presigner,
       sr_startedAt = d_now d\<rparr>,
      \<lparr>wd_store = s,
       wd_limiter = NewRateLimiter (lb_rnd lib) (cf_RateLimitPerMin cfg) (cf_RateLimitBurst cfg),
       wd_authLimiter = NewRateLimiter (lb_rnd lib) (cf_AuthRateLimitPerMin cfg) (cf_AuthRateLimitBurst cfg),
       wd_log = []\<rparr>)"

definition Limiters :: "'s World \<Rightarrow> RateLimiter list" where
  "Limiters s = [wd_limiter s, wd_authLimiter s]"

section \<open>Responses\<close>

record userResponse =
  uo_ID :: gostring
  uo_Email :: gostring
  uo_Username :: gostring
  uo_DisplayName :: gostring
  uo_Bio :: gostring
  uo_AvatarURL :: "gostring option"
  uo_CreatedAt :: time

record publicUserResponse =
  pu_ID :: gostring
  pu_Username :: gostring
  pu_DisplayName :: gostring
  pu_Bio :: gostring
  pu_AvatarURL :: "gostring option"
  pu_CreatedAt :: time

record postResponse =
  po_ID :: gostring
  po_Author :: publicUserResponse
  po_ImageURL :: "gostring option"
  po_Caption :: gostring
  po_CreatedAt :: time

record 'a paginatedResponse =
  pa_Items :: "'a list"
  pa_NextCursor :: "gostring option"

record authResponse =
  au_AccessToken :: gostring
  au_RefreshToken :: gostring
  au_AccessTokenExpiresAt :: time
  au_User :: userResponse

record presignResponse =
  pn_UploadURL :: gostring
  pn_Key :: gostring
  pn_ExpiresAt :: time

record healthCheck =
  hc_Name :: gostring
  hc_Status :: gostring
  hc_LatencyMs :: int
  hc_Error :: gostring

record healthResponse =
  hr_Status :: gostring
  hr_Service :: gostring
  hr_Version :: gostring
  hr_Revision :: gostring
  hr_GoVersion :: gostring
  hr_Environment :: gostring
  hr_Time :: time
  hr_UptimeSeconds :: int
  hr_Checks :: "healthCheck list"

text \<open>The JSON of each, field by field in declaration order; a \<open>jsontime.Time\<close> writes its own text.\<close>

definition jtime :: "time \<Rightarrow> json" where
  "jtime t = JStr (butlast (tl (jsontime_Marshal t)))"

definition json_of_user :: "userResponse \<Rightarrow> json" where
  "json_of_user u = JObj
     [jmember ''id'' (jstr (uo_ID u)), jmember ''email'' (jstr (uo_Email u)), jmember ''username'' (jstr (uo_Username u)),
      jmember ''displayName'' (jstr (uo_DisplayName u)), jmember ''bio'' (jstr (uo_Bio u)),
      jmember ''avatarUrl'' (jopt (uo_AvatarURL u)), jmember ''createdAt'' (jtime (uo_CreatedAt u))]"

definition json_of_public_user :: "publicUserResponse \<Rightarrow> json" where
  "json_of_public_user u = JObj
     [jmember ''id'' (jstr (pu_ID u)), jmember ''username'' (jstr (pu_Username u)),
      jmember ''displayName'' (jstr (pu_DisplayName u)), jmember ''bio'' (jstr (pu_Bio u)),
      jmember ''avatarUrl'' (jopt (pu_AvatarURL u)), jmember ''createdAt'' (jtime (pu_CreatedAt u))]"

definition json_of_post :: "postResponse \<Rightarrow> json" where
  "json_of_post p = JObj
     [jmember ''id'' (jstr (po_ID p)), jmember ''author'' (json_of_public_user (po_Author p)),
      jmember ''imageUrl'' (jopt (po_ImageURL p)), jmember ''caption'' (jstr (po_Caption p)),
      jmember ''createdAt'' (jtime (po_CreatedAt p))]"

definition json_of_page :: "('a \<Rightarrow> json) \<Rightarrow> 'a paginatedResponse \<Rightarrow> json" where
  "json_of_page item p = JObj
     [jmember ''items'' (JArr (map item (pa_Items p))), jmember ''nextCursor'' (jopt (pa_NextCursor p))]"

definition json_of_auth :: "authResponse \<Rightarrow> json" where
  "json_of_auth a = JObj
     [jmember ''accessToken'' (jstr (au_AccessToken a)), jmember ''refreshToken'' (jstr (au_RefreshToken a)),
      jmember ''accessTokenExpiresAt'' (jtime (au_AccessTokenExpiresAt a)), jmember ''user'' (json_of_user (au_User a))]"

definition json_of_presign :: "presignResponse \<Rightarrow> json" where
  "json_of_presign p = JObj
     [jmember ''uploadUrl'' (jstr (pn_UploadURL p)), jmember ''key'' (jstr (pn_Key p)),
      jmember ''expiresAt'' (jtime (pn_ExpiresAt p))]"

definition json_of_check :: "healthCheck \<Rightarrow> json" where
  "json_of_check c = JObj
     ([jmember ''name'' (jstr (hc_Name c)), jmember ''status'' (jstr (hc_Status c)),
       jmember ''latencyMs'' (jnum (hc_LatencyMs c))] @
      (if hc_Error c = [] then [] else [jmember ''error'' (jstr (hc_Error c))]))"

definition json_of_health :: "healthResponse \<Rightarrow> json" where
  "json_of_health h = JObj
     ([jmember ''status'' (jstr (hr_Status h)), jmember ''service'' (jstr (hr_Service h)),
       jmember ''version'' (jstr (hr_Version h))] @
      (if hr_Revision h = [] then [] else [jmember ''revision'' (jstr (hr_Revision h))]) @
      [jmember ''goVersion'' (jstr (hr_GoVersion h)), jmember ''environment'' (jstr (hr_Environment h)),
       jmember ''time'' (jtime (hr_Time h)), jmember ''uptimeSeconds'' (jnum (hr_UptimeSeconds h))] @
      (if hr_Checks h = [] then [] else [jmember ''checks'' (JArr (map json_of_check (hr_Checks h)))]))"

section \<open>From rows to responses (\<open>dto.go\<close>)\<close>

definition avatarURL :: "Presigner \<Rightarrow> gostring option \<Rightarrow> gostring option" where
  "avatarURL p key = (case key of None \<Rightarrow> None | Some k \<Rightarrow> if k = [] then None else Some (PublicURL p k))"

definition imageURL :: "Presigner \<Rightarrow> gostring option \<Rightarrow> gostring option" where
  "imageURL p key = (case key of None \<Rightarrow> None | Some k \<Rightarrow> if k = [] then None else Some (PublicURL p k))"

definition toUser :: "Presigner \<Rightarrow> User \<Rightarrow> userResponse" where
  "toUser p u =
     \<lparr>uo_ID = u_ID u, uo_Email = u_Email u, uo_Username = u_Username u, uo_DisplayName = u_DisplayName u,
      uo_Bio = u_Bio u, uo_AvatarURL = avatarURL p (u_AvatarKey u), uo_CreatedAt = jsontime_New (u_CreatedAt u)\<rparr>"

definition toPublicUser :: "Presigner \<Rightarrow> User \<Rightarrow> publicUserResponse" where
  "toPublicUser p u =
     \<lparr>pu_ID = u_ID u, pu_Username = u_Username u, pu_DisplayName = u_DisplayName u,
      pu_Bio = u_Bio u, pu_AvatarURL = avatarURL p (u_AvatarKey u), pu_CreatedAt = jsontime_New (u_CreatedAt u)\<rparr>"

text \<open>\<open>None\<close>: the author is a nil pointer and the handler panics.\<close>

definition toPost :: "Presigner \<Rightarrow> Post \<Rightarrow> postResponse option" where
  "toPost p post =
     map_option
       (\<lambda>author. \<lparr>po_ID = p_ID post, po_Author = toPublicUser p author, po_ImageURL = imageURL p (p_ImageKey post),
                  po_Caption = p_Caption post, po_CreatedAt = jsontime_New (p_CreatedAt post)\<rparr>)
       (p_Author post)"

fun toPosts :: "Presigner \<Rightarrow> Post list \<Rightarrow> postResponse list option" where
  "toPosts p [] = Some []"
| "toPosts p (post # posts) =
     (case toPost p post of
        None \<Rightarrow> None
      | Some r \<Rightarrow> map_option (\<lambda>rs. r # rs) (toPosts p posts))"

definition toPostPage :: "Presigner \<Rightarrow> Post Page \<Rightarrow> postResponse paginatedResponse option" where
  "toPostPage p page =
     map_option
       (\<lambda>items. \<lparr>pa_Items = items, pa_NextCursor = (if pg_NextCursor page \<noteq> [] then Some (pg_NextCursor page) else None)\<rparr>)
       (toPosts p (pg_Items page))"

definition toAuthResponse :: "Presigner \<Rightarrow> Session \<Rightarrow> User \<Rightarrow> authResponse" where
  "toAuthResponse p session user =
     \<lparr>au_AccessToken = ss_AccessToken session, au_RefreshToken = ss_RefreshToken session,
      au_AccessTokenExpiresAt = jsontime_New (ss_AccessExpiresAt session), au_User = toUser p user\<rparr>"

section \<open>Facts\<close>

text \<open>What the public shapes show of a user does not depend on the email.\<close>

lemma toPublicUser_email [simp]: "toPublicUser p (u\<lparr>u_Email := e\<rparr>) = toPublicUser p u"
  by (simp add: toPublicUser_def)

lemma toPosts_Some:
  "(\<forall>post \<in> set posts. p_Author post \<noteq> None) \<Longrightarrow> \<exists>rs. toPosts p posts = Some rs \<and> length rs = length posts \<and> map po_ID rs = map p_ID posts"
  by (induction posts) (auto simp: toPost_def)

end
