(* ===== verification/Handlers.thy ===== *)
theory Handlers
  imports Dto
begin

text \<open>
  The request handlers of \<open>internal/api\<close>: authentication (\<open>middleware.go\<close>), accounts and sessions
  (\<open>auth_handlers.go\<close>), profiles (\<open>user_handlers.go\<close>), posts (\<open>post_handlers.go\<close>), uploads
  (\<open>upload_handlers.go\<close>), health (\<open>health.go\<close>) and documentation (\<open>docs.go\<close>).  Every handler
  takes the libraries and the server; its calls read numbered draws in program order.
\<close>

section \<open>Plumbing\<close>

definition shift_draws :: "nat \<Rightarrow> (nat \<Rightarrow> Draw) \<Rightarrow> nat \<Rightarrow> Draw" where
  "shift_draws n dr k = dr (n + k)"

text \<open>A call that changes the store, and one that only reads it.\<close>

definition on_store :: "('s \<Rightarrow> 'r \<times> 's) \<Rightarrow> 's World \<Rightarrow> 'r \<times> 's World" where
  "on_store f s = (case f (wd_store s) of (r, st) \<Rightarrow> (r, s\<lparr>wd_store := st\<rparr>))"

definition fail :: "APIError \<Rightarrow> Writer \<Rightarrow> 's World \<Rightarrow> verdict \<times> Writer \<times> 's World" where
  "fail e w s = (Failed (APIErr e), w, s)"

definition answer :: "int \<Rightarrow> json \<Rightarrow> Writer \<Rightarrow> 's World \<Rightarrow> verdict \<times> Writer \<times> 's World" where
  "answer status v w s = (Answered, WriteJSON status v w, s)"

text \<open>Reading through a nil pointer.\<close>

definition nil_dereference :: gostring where
  "nil_dereference = ''runtime error: invalid memory address or nil pointer dereference''"

definition answer_opt :: "int \<Rightarrow> json option \<Rightarrow> Writer \<Rightarrow> 's World \<Rightarrow> verdict \<times> Writer \<times> 's World" where
  "answer_opt status v w s = (case v of None \<Rightarrow> (Crashed nil_dereference, w, s) | Some j \<Rightarrow> answer status j w s)"

lemmas plumbing_defs [api_simps] = on_store_def fail_def answer_def answer_opt_def

text \<open>The texts of errors, which only reach the log.\<close>

definition store_error_text :: "store_error \<Rightarrow> gostring" where
  "store_error_text e =
     (case e of
        ErrNotFound \<Rightarrow> ''store: not found''
      | ErrForbidden \<Rightarrow> ''store: forbidden''
      | ConflictError f r \<Rightarrow> ''store: conflict on '' @ f @ '': '' @ r
      | ErrInvalidCursor \<Rightarrow> ''store: invalid cursor''
      | ErrOther msg \<Rightarrow> msg)"

definition auth_error_text :: "auth_error \<Rightarrow> gostring" where
  "auth_error_text e =
     (case e of
        ErrTokenExpired \<Rightarrow> ''auth: token expired''
      | ErrTokenInvalid \<Rightarrow> ''auth: token invalid''
      | AuthStore what e' \<Rightarrow> (if what = [] then store_error_text e' else what @ '': '' @ store_error_text e')
      | AuthOther msg \<Rightarrow> msg)"

definition internal :: "store_error \<Rightarrow> APIError" where
  "internal e = ErrInternal (store_error_text e)"

section \<open>Authentication (\<open>middleware.go\<close>)\<close>

text \<open>\<open>authenticate\<close>: the token is parsed with draw 0, the user read with draw 1.\<close>

definition authenticate :: "Lib \<Rightarrow> 's Server \<Rightarrow> (nat \<Rightarrow> Draw) \<Rightarrow> User Request \<Rightarrow> 's \<Rightarrow> APIError + User" where
  "authenticate lib srv dr r s =
     (let header = rq_Header r ''Authorization''
      in if header = [] then Inl APITokenInvalid
         else
           let (scheme, token, found) = cut CHR '' '' header
           in if \<not> found \<or> \<not> equal_fold scheme ''Bearer'' \<or> trim_space token = [] then Inl APITokenInvalid
              else (case ParseAccess (lb_jwt lib) (sr_issuer srv) (dr 0) (trim_space token) of
                  Inl ErrTokenExpired \<Rightarrow> Inl APITokenExpired
                | Inl _ \<Rightarrow> Inl APITokenInvalid
                | Inr userID \<Rightarrow>
                    (case us_ByID (st_Users (sr_store srv)) (dr 1) userID s of
                       Inl ErrNotFound \<Rightarrow> Inl APITokenInvalid
                     | Inl e \<Rightarrow> Inl (internal e)
                     | Inr user \<Rightarrow> Inr user)))"

definition protected :: "Lib \<Rightarrow> 's Server \<Rightarrow> ('s, User) api_handler \<Rightarrow> ('s, User) http_handler" where
  "protected lib srv h =
     ServeHTTP (\<lambda>dr r w s.
       case authenticate lib srv dr r (wd_store s) of
         Inl e \<Rightarrow> fail e w s
       | Inr user \<Rightarrow> h (shift_draws 2 dr) (r\<lparr>rq_currentUser := Some user\<rparr>) w s)"

text \<open>
  \<open>currentUser\<close> followed by a field access: behind \<open>protected\<close> the user is always there, without
  it the nil pointer is read.
\<close>

definition with_current_user ::
    "(User \<Rightarrow> ('s, User) api_handler) \<Rightarrow> ('s, User) api_handler" where
  "with_current_user h dr r w s =
     (case rq_currentUser r of None \<Rightarrow> (Crashed nil_dereference, w, s) | Some me \<Rightarrow> h me dr r w s)"

section \<open>Accounts and sessions (\<open>auth_handlers.go\<close>)\<close>

record registerRequest =
  rr_Email :: gostring
  rr_Username :: gostring
  rr_DisplayName :: gostring
  rr_Password :: gostring

definition register_fields :: "registerRequest field list" where
  "register_fields =
     [string_field ''email'' (\<lambda>v x. x\<lparr>rr_Email := v\<rparr>), string_field ''username'' (\<lambda>v x. x\<lparr>rr_Username := v\<rparr>),
      string_field ''displayName'' (\<lambda>v x. x\<lparr>rr_DisplayName := v\<rparr>), string_field ''password'' (\<lambda>v x. x\<lparr>rr_Password := v\<rparr>)]"

definition zero_register :: registerRequest where
  "zero_register = \<lparr>rr_Email = [], rr_Username = [], rr_DisplayName = [], rr_Password = []\<rparr>"

record loginRequest =
  lr_Email :: gostring
  lr_Password :: gostring

definition login_fields :: "loginRequest field list" where
  "login_fields = [string_field ''email'' (\<lambda>v x. x\<lparr>lr_Email := v\<rparr>), string_field ''password'' (\<lambda>v x. x\<lparr>lr_Password := v\<rparr>)]"

definition zero_login :: loginRequest where
  "zero_login = \<lparr>lr_Email = [], lr_Password = []\<rparr>"

text \<open>\<open>refreshTokenRequest\<close> has one field, so it is that string.\<close>

type_synonym refreshTokenRequest = gostring

definition refresh_fields :: "refreshTokenRequest field list" where
  "refresh_fields = [string_field ''refreshToken'' (\<lambda>v _. v)]"

definition check_highlighted :: gostring where
  "check_highlighted = ''Please check the highlighted fields.''"

definition conflictOrInternal :: "store_error \<Rightarrow> APIError" where
  "conflictOrInternal e =
     (case e of
        ConflictError f reason \<Rightarrow>
          if f = ''email'' then ErrConflict ''That email address is already registered.'' [(''email'', reason)]
          else if f = ''username'' then ErrConflict ''That username is already taken.'' [(''username'', reason)]
          else ErrConflict ''That record already exists.'' []
      | _ \<Rightarrow> internal e)"

text \<open>The four validators of \<open>handleRegister\<close>, in order: the normalised values and the complaints.\<close>

definition validate_register :: "(nat \<Rightarrow> nat) \<Rightarrow> registerRequest \<Rightarrow> (gostring \<times> gostring \<times> gostring) \<times> Errors" where
  "validate_register uni req =
     (let (email, e1) = Email uni [] ''email'' (rr_Email req);
          (username, e2) = Username e1 ''username'' (rr_Username req);
          (displayName, e3) = DisplayName e2 ''displayName'' (rr_DisplayName req);
          (_, e4) = Password e3 ''password'' (rr_Password req)
      in ((email, username, displayName), e4))"

text \<open>The hash is draw 0, the insertion draw 1, the session the draws from 2.\<close>

definition handleRegister :: "Lib \<Rightarrow> 's Server \<Rightarrow> ('s, User) api_handler" where
  "handleRegister lib srv dr r w s =
     (case DecodeJSON r register_fields zero_register of
        Inl e \<Rightarrow> fail e w s
      | Inr req \<Rightarrow>
          (case validate_register (lb_uni lib) req of ((email, username, displayName), errs) \<Rightarrow>
             if Errors_Any errs then fail (ErrValidation check_highlighted errs) w s
             else (case HashPassword (lb_bcrypt lib) (dr 0) (rr_Password req) of
                 Inl e \<Rightarrow> fail (ErrInternal (auth_error_text e)) w s
               | Inr passwordHash \<Rightarrow>
                   (case on_store (us_Create (st_Users (sr_store srv)) (dr 1)
                           \<lparr>nu_Email = email, nu_Username = username, nu_DisplayName = displayName,
                            nu_PasswordHash = passwordHash\<rparr>) s of
                      (Inl e, s1) \<Rightarrow> fail (conflictOrInternal e) w s1
                    | (Inr user, s1) \<Rightarrow>
                        (case on_store (Start (lb_jwt lib) (sr_sessions srv) (shift_draws 2 dr) (u_ID user)) s1 of
                           (Inl e, s2) \<Rightarrow> fail (ErrInternal (auth_error_text e)) w s2
                         | (Inr session, s2) \<Rightarrow>
                             answer 201 (json_of_auth (toAuthResponse (sr_presigner srv) session user)) w s2)))))"

text \<open>The lookup is draw 0, the user draw 1, the session the draws from 2.\<close>

definition handleLogin :: "Lib \<Rightarrow> 's Server \<Rightarrow> ('s, User) api_handler" where
  "handleLogin lib srv dr r w s =
     (case DecodeJSON r login_fields zero_login of
        Inl e \<Rightarrow> fail e w s
      | Inr req \<Rightarrow>
          let (email, _) = Email (lb_uni lib) [] ''email'' (lr_Email req)
          in (case us_CredentialsByEmail (st_Users (sr_store srv)) (dr 0) email (wd_store s) of
            Inl ErrNotFound \<Rightarrow>
              (let _ = BurnPasswordComparison (lb_bcrypt lib) (lr_Password req) in fail ErrInvalidCredentials w s)
          | Inl e \<Rightarrow> fail (internal e) w s
          | Inr credentials \<Rightarrow>
              if \<not> VerifyPassword (lb_bcrypt lib) (cr_PasswordHash credentials) (lr_Password req) then
                fail ErrInvalidCredentials w s
              else (case us_ByID (st_Users (sr_store srv)) (dr 1) (cr_UserID credentials) (wd_store s) of
                  Inl e \<Rightarrow> fail (internal e) w s
                | Inr user \<Rightarrow>
                    (case on_store (Start (lb_jwt lib) (sr_sessions srv) (shift_draws 2 dr) (u_ID user)) s of
                       (Inl e, s1) \<Rightarrow> fail (ErrInternal (auth_error_text e)) w s1
                     | (Inr session, s1) \<Rightarrow>
                         answer 200 (json_of_auth (toAuthResponse (sr_presigner srv) session user)) w s1))))"

text \<open>The rotation has the draws from 1, the user is draw 0.\<close>

definition handleRefresh :: "Lib \<Rightarrow> 's Server \<Rightarrow> ('s, User) api_handler" where
  "handleRefresh lib srv dr r w s =
     (case DecodeJSON r refresh_fields [] of
        Inl e \<Rightarrow> fail e w s
      | Inr refreshToken \<Rightarrow>
          if refreshToken = [] then
            fail (ErrValidation ''A refresh token is required.'' [(''refreshToken'', ''is required'')]) w s
          else (case on_store (Rotate (lb_jwt lib) (sr_sessions srv) (shift_draws 1 dr) refreshToken) s of
              (Inl ErrTokenExpired, s1) \<Rightarrow> fail APITokenInvalid w s1
            | (Inl ErrTokenInvalid, s1) \<Rightarrow> fail APITokenInvalid w s1
            | (Inl e, s1) \<Rightarrow> fail (ErrInternal (auth_error_text e)) w s1
            | (Inr session, s1) \<Rightarrow>
                (case us_ByID (st_Users (sr_store srv)) (dr 0) (ss_UserID session) (wd_store s1) of
                   Inl e \<Rightarrow> fail (internal e) w s1
                 | Inr user \<Rightarrow> answer 200 (json_of_auth (toAuthResponse (sr_presigner srv) session user)) w s1)))"

definition handleLogout :: "Lib \<Rightarrow> 's Server \<Rightarrow> ('s, User) api_handler" where
  "handleLogout lib srv dr r w s =
     (case DecodeJSON r refresh_fields [] of
        Inl e \<Rightarrow> fail e w s
      | Inr refreshToken \<Rightarrow>
          (case on_store (Revoke (sr_sessions srv) dr refreshToken) s of
             (Inl e, s1) \<Rightarrow> fail (ErrInternal (auth_error_text e)) w s1
           | (Inr _, s1) \<Rightarrow> (Answered, NoContent w, s1)))"

section \<open>Attaching an upload (\<open>user_handlers.go\<close>)\<close>

definition keyFieldFor :: "gostring \<Rightarrow> gostring" where
  "keyFieldFor purpose = (if purpose = PurposeAvatar then ''avatarKey'' else ''imageKey'')"

text \<open>\<open>None\<close>: the object is there and is the image it claims to be.\<close>

definition inspectUpload :: "Lib \<Rightarrow> 's Server \<Rightarrow> Draw \<Rightarrow> gostring \<Rightarrow> gostring \<Rightarrow> APIError option" where
  "inspectUpload lib srv d key purpose =
     (let f = keyFieldFor purpose;
          limits = ConstraintsFor purpose;
          (err, width, height) =
            (case Inspect (lb_uni lib) (lb_s3 lib) (sr_presigner srv) d key of
               Inl e \<Rightarrow> (Some e, 0, 0)
             | Inr info \<Rightarrow> (Check (lb_uni lib) purpose info, ii_Width info, ii_Height info))
      in case err of
           None \<Rightarrow> None
         | Some ErrObjectMissing \<Rightarrow>
             Some (ErrValidation ''That image has not finished uploading. Upload it, then try again.''
               [(f, ''no file has been uploaded for this key'')])
         | Some ErrNotAnImage \<Rightarrow>
             Some (ErrUnsupportedMediaType (''That file is not a valid image. Images must be one of: '' @
               join '', '' AllowedContentTypes @ ''.''))
         | Some ErrTypeMismatch \<Rightarrow>
             Some (ErrUnsupportedMediaType (''That file is not a valid image. Images must be one of: '' @
               join '', '' AllowedContentTypes @ ''.''))
         | Some (ErrTooSmall _) \<Rightarrow>
             Some (ErrValidation (''That image is too small. It must be at least '' @
               dimensions (cn_MinWidth limits) (cn_MinHeight limits) @ '' pixels for a '' @ purpose @ ''.'')
               [(f, ''image is '' @ dimensions width height)])
         | Some e \<Rightarrow> Some (ErrInternal (upload_error_text e)))"

text \<open>\<open>claimUpload\<close>: the inspection is draw 0, the clock draw 1, the claim draw 2.\<close>

definition claimUpload ::
    "Lib \<Rightarrow> 's Server \<Rightarrow> (nat \<Rightarrow> Draw) \<Rightarrow> User \<Rightarrow> gostring \<Rightarrow> gostring \<Rightarrow> 's World \<Rightarrow> APIError option \<times> 's World" where
  "claimUpload lib srv dr me key purpose s =
     (case inspectUpload lib srv (dr 0) key purpose of
        Some e \<Rightarrow> (Some e, s)
      | None \<Rightarrow>
          (case on_store (up_Claim (st_Uploads (sr_store srv)) (dr 2) key (u_ID me) purpose (d_now (dr 1))) s of
             (Inr _, s1) \<Rightarrow> (None, s1)
           | (Inl ErrNotFound, s1) \<Rightarrow>
               (Some (ErrValidation ''That upload could not be found. It may have expired.''
                  [(keyFieldFor purpose, ''is not a valid upload key'')]), s1)
           | (Inl ErrForbidden, s1) \<Rightarrow> (Some (APIForbidden ''That upload cannot be used here.''), s1)
           | (Inl e, s1) \<Rightarrow> (Some (internal e), s1)))"

section \<open>Profiles (\<open>user_handlers.go\<close>)\<close>

record updateMeRequest =
  um_DisplayName :: "gostring Optional"
  um_Bio :: "gostring Optional"
  um_AvatarKey :: "gostring Optional"

definition update_me_fields :: "updateMeRequest field list" where
  "update_me_fields =
     [optional_string_field ''displayName'' um_DisplayName (\<lambda>v x. x\<lparr>um_DisplayName := v\<rparr>),
      optional_string_field ''bio'' um_Bio (\<lambda>v x. x\<lparr>um_Bio := v\<rparr>),
      optional_string_field ''avatarKey'' um_AvatarKey (\<lambda>v x. x\<lparr>um_AvatarKey := v\<rparr>)]"

definition zero_update_me :: updateMeRequest where
  "zero_update_me = \<lparr>um_DisplayName = opt_absent [], um_Bio = opt_absent [], um_AvatarKey = opt_absent []\<rparr>"

definition handleGetMe :: "'s Server \<Rightarrow> ('s, User) api_handler" where
  "handleGetMe srv = with_current_user (\<lambda>me dr r w s. answer 200 (json_of_user (toUser (sr_presigner srv) me)) w s)"

text \<open>The three fields of the request in order: the update they ask for and the complaints.\<close>

definition update_of :: "updateMeRequest \<Rightarrow> UserUpdate \<times> Errors" where
  "update_of req =
     (let dn = um_DisplayName req; bio = um_Bio req; avatar = um_AvatarKey req;
          (name, e1) =
            (if \<not> opt_Present dn then (None, [])
             else if opt_Null dn then (None, Errors_Add ''displayName'' ''is required'' [])
             else (case DisplayName [] ''displayName'' (opt_Value dn) of (name, e) \<Rightarrow> (Some name, e)));
          (newBio, e2) =
            (if \<not> opt_Present bio then (None, e1)
             else if opt_Null bio then (Some [], e1)
             else (case Bio e1 ''bio'' (opt_Value bio) of (b, e) \<Rightarrow> (Some b, e)));
          (clear, key, e3) =
            (if \<not> opt_Present avatar then (False, None, e2)
             else if opt_Null avatar then (True, None, e2)
             else if opt_Value avatar = [] then
               (False, None, Errors_Add ''avatarKey'' ''must not be empty; send null to remove the avatar'' e2)
             else (False, Some (opt_Value avatar), e2))
      in (\<lparr>uu_DisplayName = name, uu_Bio = newBio, uu_AvatarKey = key, uu_ClearAvatar = clear\<rparr>, e3))"

text \<open>The claim has the draws from 1, the update is draw 0.\<close>

definition handleUpdateMe :: "Lib \<Rightarrow> 's Server \<Rightarrow> ('s, User) api_handler" where
  "handleUpdateMe lib srv = with_current_user (\<lambda>me dr r w s.
     case DecodeJSON r update_me_fields zero_update_me of
       Inl e \<Rightarrow> fail e w s
     | Inr req \<Rightarrow>
         (case update_of req of (upd, errs) \<Rightarrow>
            if Errors_Any errs then fail (ErrValidation check_highlighted errs) w s
            else (case (case uu_AvatarKey upd of
                          None \<Rightarrow> (None, s)
                        | Some key \<Rightarrow> claimUpload lib srv (shift_draws 1 dr) me key PurposeAvatar s) of
                (Some e, s1) \<Rightarrow> fail e w s1
              | (None, s1) \<Rightarrow>
                  (case on_store (us_Update (st_Users (sr_store srv)) (dr 0) (u_ID me) upd) s1 of
                     (Inl e, s2) \<Rightarrow> fail (conflictOrInternal e) w s2
                   | (Inr user, s2) \<Rightarrow> answer 200 (json_of_user (toUser (sr_presigner srv) user)) w s2))))"

definition userByUsername :: "'s Server \<Rightarrow> Draw \<Rightarrow> User Request \<Rightarrow> 's World \<Rightarrow> APIError + User" where
  "userByUsername srv d r s =
     (let (username, errs) = Username [] ''username'' (rq_PathValue r ''username'')
      in if Errors_Any errs then Inl (APINotFound ''We could not find that account.'')
         else (case us_ByUsername (st_Users (sr_store srv)) d username (wd_store s) of
             Inl ErrNotFound \<Rightarrow> Inl (APINotFound ''We could not find that account.'')
           | Inl e \<Rightarrow> Inl (internal e)
           | Inr user \<Rightarrow> Inr user))"

definition handleGetUser :: "'s Server \<Rightarrow> ('s, User) api_handler" where
  "handleGetUser srv dr r w s =
     (case userByUsername srv (dr 0) r s of
        Inl e \<Rightarrow> fail e w s
      | Inr user \<Rightarrow> answer 200 (json_of_public_user (toPublicUser (sr_presigner srv) user)) w s)"

section \<open>Posts (\<open>post_handlers.go\<close>)\<close>

definition pageRequest :: "User Request \<Rightarrow> APIError + PageRequest" where
  "pageRequest r =
     (let cursor = rq_Query r ''cursor''; raw = rq_Query r ''limit''
      in if raw = [] then Inr (Normalise \<lparr>pr_Cursor = cursor, pr_Limit = 0\<rparr>)
         else (case atoi raw of
             None \<Rightarrow> Inl (ErrValidation ''That limit is not valid.''
                       [(''limit'', ''must be a whole number between 1 and '' @ itoa MaxPageLimit)])
           | Some limit \<Rightarrow>
               if limit < 1 then
                 Inl (ErrValidation ''That limit is not valid.''
                   [(''limit'', ''must be a whole number between 1 and '' @ itoa MaxPageLimit)])
               else Inr (Normalise \<lparr>pr_Cursor = cursor, pr_Limit = limit\<rparr>)))"

definition pageError :: "store_error \<Rightarrow> APIError" where
  "pageError e =
     (case e of
        ErrInvalidCursor \<Rightarrow>
          ErrValidation ''That page cursor is not valid.'' [(''cursor'', ''must be a cursor returned by a previous request'')]
      | _ \<Rightarrow> internal e)"

definition answer_page :: "'s Server \<Rightarrow> (store_error + Post Page) \<Rightarrow> Writer \<Rightarrow> 's World \<Rightarrow> verdict \<times> Writer \<times> 's World" where
  "answer_page srv res w s =
     (case res of
        Inl e \<Rightarrow> fail (pageError e) w s
      | Inr page \<Rightarrow> answer_opt 200 (map_option (json_of_page json_of_post) (toPostPage (sr_presigner srv) page)) w s)"

definition handleUserPosts :: "'s Server \<Rightarrow> ('s, User) api_handler" where
  "handleUserPosts srv dr r w s =
     (case userByUsername srv (dr 0) r s of
        Inl e \<Rightarrow> fail e w s
      | Inr user \<Rightarrow>
          (case pageRequest r of
             Inl e \<Rightarrow> fail e w s
           | Inr req \<Rightarrow> answer_page srv (ps_ByAuthor (st_Posts (sr_store srv)) (dr 1) (u_ID user) req (wd_store s)) w s))"

definition handleFeed :: "'s Server \<Rightarrow> ('s, User) api_handler" where
  "handleFeed srv dr r w s =
     (case pageRequest r of
        Inl e \<Rightarrow> fail e w s
      | Inr req \<Rightarrow> answer_page srv (ps_Feed (st_Posts (sr_store srv)) (dr 0) req (wd_store s)) w s)"

record createPostRequest =
  cq_ImageKey :: "gostring option"
  cq_Caption :: gostring

definition create_post_fields :: "createPostRequest field list" where
  "create_post_fields =
     [string_ptr_field ''imageKey'' (\<lambda>v x. x\<lparr>cq_ImageKey := v\<rparr>), string_field ''caption'' (\<lambda>v x. x\<lparr>cq_Caption := v\<rparr>)]"

definition zero_create_post :: createPostRequest where
  "zero_create_post = \<lparr>cq_ImageKey = None, cq_Caption = []\<rparr>"

text \<open>A blank key counts as none.\<close>

definition image_key_of :: "createPostRequest \<Rightarrow> gostring option" where
  "image_key_of req =
     (case cq_ImageKey req of
        None \<Rightarrow> None
      | Some raw \<Rightarrow> (let key = trim_space raw in if key \<noteq> [] then Some key else None))"

text \<open>The claim has the draws from 1, the insertion is draw 0.\<close>

definition handleCreatePost :: "Lib \<Rightarrow> 's Server \<Rightarrow> ('s, User) api_handler" where
  "handleCreatePost lib srv = with_current_user (\<lambda>me dr r w s.
     case DecodeJSON r create_post_fields zero_create_post of
       Inl e \<Rightarrow> fail e w s
     | Inr req \<Rightarrow>
         (case Caption [] ''caption'' (cq_Caption req) of (caption, errs) \<Rightarrow>
            if Errors_Any errs then fail (ErrValidation check_highlighted errs) w s
            else (case (case image_key_of req of
                          None \<Rightarrow> (None, s)
                        | Some key \<Rightarrow> claimUpload lib srv (shift_draws 1 dr) me key PurposePost s) of
                (Some e, s1) \<Rightarrow> fail e w s1
              | (None, s1) \<Rightarrow>
                  (case on_store (ps_Create (st_Posts (sr_store srv)) (dr 0)
                          \<lparr>np_AuthorID = u_ID me, np_ImageKey = image_key_of req, np_Caption = caption\<rparr>) s1 of
                     (Inl e, s2) \<Rightarrow> fail (internal e) w s2
                   | (Inr post, s2) \<Rightarrow>
                       answer_opt 201 (map_option json_of_post (toPost (sr_presigner srv) post)) w s2))))"

definition handleGetPost :: "'s Server \<Rightarrow> ('s, User) api_handler" where
  "handleGetPost srv dr r w s =
     (case ps_ByID (st_Posts (sr_store srv)) (dr 0) (rq_PathValue r ''id'') (wd_store s) of
        Inl ErrNotFound \<Rightarrow> fail (APINotFound ''We could not find that post.'') w s
      | Inl e \<Rightarrow> fail (internal e) w s
      | Inr post \<Rightarrow> answer_opt 200 (map_option json_of_post (toPost (sr_presigner srv) post)) w s)"

definition handleDeletePost :: "'s Server \<Rightarrow> ('s, User) api_handler" where
  "handleDeletePost srv = with_current_user (\<lambda>me dr r w s.
     case on_store (ps_Delete (st_Posts (sr_store srv)) (dr 0) (rq_PathValue r ''id'') (u_ID me)) s of
       (Inr _, s1) \<Rightarrow> (Answered, NoContent w, s1)
     | (Inl ErrNotFound, s1) \<Rightarrow> fail (APINotFound ''We could not find that post.'') w s1
     | (Inl ErrForbidden, s1) \<Rightarrow> fail (APIForbidden ''You can only delete your own posts.'') w s1
     | (Inl e, s1) \<Rightarrow> fail (internal e) w s1)"

section \<open>Presigning (\<open>upload_handlers.go\<close>)\<close>

record presignRequest =
  pq_ContentType :: gostring
  pq_ContentLength :: int
  pq_Purpose :: gostring

definition presign_fields :: "presignRequest field list" where
  "presign_fields =
     [string_field ''contentType'' (\<lambda>v x. x\<lparr>pq_ContentType := v\<rparr>),
      int64_field ''contentLength'' (\<lambda>v x. x\<lparr>pq_ContentLength := v\<rparr>),
      string_field ''purpose'' (\<lambda>v x. x\<lparr>pq_Purpose := v\<rparr>)]"

definition zero_presign :: presignRequest where
  "zero_presign = \<lparr>pq_ContentType = [], pq_ContentLength = 0, pq_Purpose = []\<rparr>"

text \<open>The presigner has the draws from 1, the reservation is draw 0.\<close>

definition handlePresign :: "Lib \<Rightarrow> 's Server \<Rightarrow> ('s, User) api_handler" where
  "handlePresign lib srv = with_current_user (\<lambda>me dr r w s.
     case DecodeJSON r presign_fields zero_presign of
       Inl e \<Rightarrow> fail e w s
     | Inr req \<Rightarrow>
         (case ParsePurpose (pq_Purpose req) of
            Inl msg \<Rightarrow> fail (ErrValidation ''That upload purpose is not valid.'' [(''purpose'', msg)]) w s
          | Inr purpose \<Rightarrow>
              if \<not> snd (ExtensionFor (lb_uni lib) (pq_ContentType req)) then
                fail (ErrUnsupportedMediaType (''Images must be one of: '' @ join '', '' AllowedContentTypes @ ''.'')) w s
              else
                let limits = ConstraintsFor purpose
                in if pq_ContentLength req \<le> 0 then
                     fail (ErrValidation ''A content length is required.'' [(''contentLength'', ''must be greater than zero'')]) w s
                   else if pq_ContentLength req > cn_MaxBytes limits then
                     fail (ErrFileTooLarge (''That image is too large. The limit for a '' @ purpose @ '' is '' @
                       itoa (cn_MaxBytes limits div 2 ^ 20) @ '' MB.'')) w s
                   else (case Presign (lb_uni lib) (lb_s3 lib) (sr_presigner srv) (shift_draws 1 dr) purpose
                           (pq_ContentType req) (pq_ContentLength req) of
                       Inl msg \<Rightarrow> fail (ErrInternal msg) w s
                     | Inr presigned \<Rightarrow>
                         (case on_store (up_Reserve (st_Uploads (sr_store srv)) (dr 0)
                                 \<lparr>ul_Key = pd_Key presigned, ul_UserID = u_ID me, ul_Purpose = purpose,
                                  ul_ContentType = pq_ContentType req, ul_ContentLength = pq_ContentLength req,
                                  ul_CreatedAt = 0, ul_AttachedAt = None\<rparr>) s of
                            (Inl e, s1) \<Rightarrow> fail (internal e) w s1
                          | (Inr _, s1) \<Rightarrow>
                              answer 200 (json_of_presign
                                \<lparr>pn_UploadURL = pd_UploadURL presigned, pn_Key = pd_Key presigned,
                                 pn_ExpiresAt = jsontime_New (pd_ExpiresAt presigned)\<rparr>) w s1))))"

section \<open>Health (\<open>health.go\<close>)\<close>

definition StatusOK :: gostring where "StatusOK = ''ok''"
definition StatusDegraded :: gostring where "StatusDegraded = ''degraded''"
definition checkTimeout :: duration where "checkTimeout = 2 * second"
definition serviceName :: gostring where "serviceName = ''domieface-server''"

definition newHealthResponse :: "Lib \<Rightarrow> 's Server \<Rightarrow> Draw \<Rightarrow> Draw \<Rightarrow> healthResponse" where
  "newHealthResponse lib srv d d' =
     \<lparr>hr_Status = StatusOK, hr_Service = serviceName, hr_Version = Version (lb_build lib),
      hr_Revision = Revision (lb_build lib), hr_GoVersion = GoVersion (lb_build lib),
      hr_Environment = cf_Environment (sr_cfg srv), hr_Time = jsontime_Now d,
      hr_UptimeSeconds = truncate_rat (seconds (lb_rnd lib) (d_now d' - sr_startedAt srv)), hr_Checks = []\<rparr>"

definition handleHealth :: "Lib \<Rightarrow> 's Server \<Rightarrow> ('s, User) api_handler" where
  "handleHealth lib srv dr r w s = answer 200 (json_of_health (newHealthResponse lib srv (dr 0) (dr 1))) w s"

text \<open>\<open>checkDatabase\<close>: two clock readings around the ping; a ping that outlives the timeout is one that fails.\<close>

definition checkDatabase :: "'s Server \<Rightarrow> (nat \<Rightarrow> Draw) \<Rightarrow> 's \<Rightarrow> healthCheck" where
  "checkDatabase srv dr s =
     (let check = \<lparr>hc_Name = ''database'', hc_Status = StatusOK,
                   hc_LatencyMs = (d_now (dr 2) - d_now (dr 0)) div millisecond, hc_Error = []\<rparr>
      in case st_Ping (sr_store srv) (dr 1) s of
           Inl _ \<Rightarrow> check\<lparr>hc_Status := StatusDegraded, hc_Error := ''unreachable''\<rparr>
         | Inr _ \<Rightarrow> check)"

definition handleReady :: "Lib \<Rightarrow> 's Server \<Rightarrow> ('s, User) api_handler" where
  "handleReady lib srv dr r w s =
     (let response = (newHealthResponse lib srv (dr 0) (dr 1))\<lparr>hr_Checks := [checkDatabase srv (shift_draws 2 dr) (wd_store s)]\<rparr>
      in if list_ex (\<lambda>check. hc_Status check \<noteq> StatusOK) (hr_Checks response) then
           answer 503 (json_of_health (response\<lparr>hr_Status := StatusDegraded\<rparr>)) w s
         else answer 200 (json_of_health response) w s)"

section \<open>Documentation (\<open>docs.go\<close>)\<close>

definition DocsPath :: gostring where "DocsPath = ''/docs''"
definition OpenAPIPath :: gostring where "OpenAPIPath = ''/openapi.yaml''"

definition swaggerUIVersion :: gostring where "swaggerUIVersion = ''5.17.14''"

text \<open>
  The Swagger page, line by line.  A double quote is written as a backtick, the one character a raw
  string of Go cannot contain; the title has a dash in UTF-8.
\<close>

definition docs_lines :: "gostring list" where
  "docs_lines =
     [''<!doctype html>'',
      ''<html lang=`en`>'',
      ''<head>'',
      ''  <meta charset=`utf-8`>'',
      ''  <meta name=`viewport` content=`width=device-width, initial-scale=1`>'',
      ''  <title>Social API '' @ [CHR 0xE2, CHR 0x80, CHR 0x94] @ '' reference</title>'',
      ''  <link rel=`stylesheet` href=`https://unpkg.com/swagger-ui-dist@'' @ swaggerUIVersion @ ''/swagger-ui.css`>'',
      ''  <style>'',
      ''    body { margin: 0; background: #fafafa; }'',
      ''    .swagger-ui .topbar { display: none; }'',
      ''  </style>'',
      ''</head>'',
      ''<body>'',
      ''  <div id=`swagger-ui`></div>'',
      ''  <script src=`https://unpkg.com/swagger-ui-dist@'' @ swaggerUIVersion @ ''/swagger-ui-bundle.js` crossorigin></script>'',
      ''  <script>'',
      ''    window.onload = function () {'',
      ''      window.ui = SwaggerUIBundle({'',
      ''        url: `/openapi.yaml`,'',
      ''        dom_id: `#swagger-ui`,'',
      ''        deepLinking: true,'',
      ''        displayRequestDuration: true,'',
      ''        // Sort by the order in the spec rather than alphabetically, so the'',
      ''        // reading order is register -> login -> refresh rather than scrambled.'',
      ''        operationsSorter: null,'',
      ''        tagsSorter: null,'',
      ''        persistAuthorization: true,'',
      ''        tryItOutEnabled: true'',
      ''      });'',
      ''    };'',
      ''  </script>'',
      ''</body>'',
      ''</html>'']"

definition docsPage :: gostring where
  "docsPage = map (\<lambda>c. if c = CHR ''`'' then dquote else c) (concat (map (\<lambda>l. l @ [CHR 0x0A]) docs_lines))"

definition handleOpenAPISpec :: "Lib \<Rightarrow> ('s, User) api_handler" where
  "handleOpenAPISpec lib dr r w s =
     (Answered,
      Write (lb_openAPI lib)
        (Header_Set ''Cache-Control'' ''no-cache''
          (Header_Set ''X-Content-Type-Options'' ''nosniff''
            (Header_Set ''Content-Type'' ''application/yaml; charset=utf-8'' w))), s)"

definition handleDocs :: "('s, User) api_handler" where
  "handleDocs dr r w s =
     (Answered,
      Write docsPage
        (Header_Set ''X-Content-Type-Options'' ''nosniff''
          (Header_Set ''Content-Type'' ''text/html; charset=utf-8'' w)), s)"

section \<open>The routing table (\<open>api.go\<close>)\<close>

definition clientKey :: "'s Server \<Rightarrow> User Request \<Rightarrow> gostring" where
  "clientKey srv r = ClientIP r (cf_TrustProxyHeader (sr_cfg srv))"

record 's Route =
  ro_Method :: gostring
  ro_Pattern :: pattern
  ro_Public :: bool
  ro_handler :: "('s, User) http_handler"

definition route :: "gostring \<Rightarrow> pattern \<Rightarrow> bool \<Rightarrow> ('s, User) http_handler \<Rightarrow> 's Route" where
  "route m p public h = \<lparr>ro_Method = m, ro_Pattern = p, ro_Public = public, ro_handler = h\<rparr>"

definition path_v1 :: "segment list \<Rightarrow> pattern" where
  "path_v1 p = SLiteral ''v1'' # p"

definition Routes :: "Lib \<Rightarrow> 's Server \<Rightarrow> 's Route list" where
  "Routes lib srv =
     (let credentials = limit_middleware (lb_rnd lib) wd_authLimiter (\<lambda>rl. wd_authLimiter_update (\<lambda>_. rl)) (clientKey srv);
          guard = protected lib srv
      in [route MethodGet [SLiteral ''healthz''] True (ServeHTTP (handleHealth lib srv)),
          route MethodGet [SLiteral ''readyz''] True (ServeHTTP (handleReady lib srv)),
          route MethodPost (path_v1 [SLiteral ''auth'', SLiteral ''register'']) True (credentials (ServeHTTP (handleRegister lib srv))),
          route MethodPost (path_v1 [SLiteral ''auth'', SLiteral ''login'']) True (credentials (ServeHTTP (handleLogin lib srv))),
          route MethodPost (path_v1 [SLiteral ''auth'', SLiteral ''refresh'']) True (credentials (ServeHTTP (handleRefresh lib srv))),
          route MethodPost (path_v1 [SLiteral ''auth'', SLiteral ''logout'']) False (guard (handleLogout lib srv)),
          route MethodGet (path_v1 [SLiteral ''users'', SLiteral ''me'']) False (guard (handleGetMe srv)),
          route MethodPatch (path_v1 [SLiteral ''users'', SLiteral ''me'']) False (guard (handleUpdateMe lib srv)),
          route MethodGet (path_v1 [SLiteral ''users'', SWildcard ''username'']) False (guard (handleGetUser srv)),
          route MethodGet (path_v1 [SLiteral ''users'', SWildcard ''username'', SLiteral ''posts'']) False (guard (handleUserPosts srv)),
          route MethodPost (path_v1 [SLiteral ''uploads'', SLiteral ''presign'']) False (guard (handlePresign lib srv)),
          route MethodGet (path_v1 [SLiteral ''posts'']) False (guard (handleFeed srv)),
          route MethodPost (path_v1 [SLiteral ''posts'']) False (guard (handleCreatePost lib srv)),
          route MethodGet (path_v1 [SLiteral ''posts'', SWildcard ''id'']) False (guard (handleGetPost srv)),
          route MethodDelete (path_v1 [SLiteral ''posts'', SWildcard ''id'']) False (guard (handleDeletePost srv))] @
         (if cf_DocsEnabled (sr_cfg srv) then
            [route MethodGet [SLiteral ''docs''] True (ServeHTTP handleDocs),
             route MethodGet [SLiteral ''openapi.yaml''] True (ServeHTTP (handleOpenAPISpec lib))]
          else []))"

text \<open>The handler of everything else.\<close>

definition handleUnmatched :: "('s, User) api_handler" where
  "handleUnmatched dr r w s = fail (APINotFound ''That endpoint does not exist.'') w s"

definition mux_table :: "'s Route list \<Rightarrow> (gostring \<times> pattern \<times> ('s, User) http_handler) list" where
  "mux_table rs = map (\<lambda>ro. (ro_Method ro, ro_Pattern ro, ro_handler ro)) rs @ [([], [SRest], ServeHTTP handleUnmatched)]"

definition Handler :: "Lib \<Rightarrow> 's Server \<Rightarrow> ('s, User) http_handler" where
  "Handler lib srv =
     Chain (serve_mux (mux_table (Routes lib srv)))
       [WithRequestID, WithRecovery, WithLogging, WithCORS,
        limit_middleware (lb_rnd lib) wd_limiter (\<lambda>rl. wd_limiter_update (\<lambda>_. rl)) (clientKey srv)]"

end
