(* ===== verification/Janitor.thy ===== *)
theory Janitor
  imports Handlers
begin

text \<open>
  Housekeeping: the janitor of \<open>internal/janitor/janitor.go\<close> and the keep-alive of
  \<open>internal/keepalive/keepalive.go\<close>.  A loop over a ticker takes the list of its events; what a run
  leaves behind is the store, the object keys whose deletion was requested, and the log.
\<close>

section \<open>Tickers\<close>

datatype tick_event = Ticked "nat \<Rightarrow> Draw" | Cancelled

text \<open>\<open>time.NewTicker\<close> panics for an interval that is not positive.\<close>

definition NewTicker :: "duration \<Rightarrow> outcome" where
  "NewTicker d = (if d \<le> 0 then Panicked ''non-positive interval for NewTicker'' else Completed)"

section \<open>The janitor\<close>

definition batchSize :: int where "batchSize = 500"

record 's Janitor =
  ja_store :: "'s Store"
  ja_presigner :: Presigner
  ja_gcAfter :: duration
  ja_interval :: duration

definition New_janitor :: "'s Store \<Rightarrow> Presigner \<Rightarrow> duration \<Rightarrow> duration \<Rightarrow> 's Janitor" where
  "New_janitor st presigner gcAfter interval =
     \<lparr>ja_store = st, ja_presigner = presigner, ja_gcAfter = gcAfter, ja_interval = interval\<rparr>"

record 's Housekeeping =
  hk_store :: 's
  hk_deleted :: "gostring list list"
  hk_log :: "LogEntry list"

definition hk_say :: "gostring \<Rightarrow> gostring \<Rightarrow> (gostring \<times> gostring) list \<Rightarrow> 's Housekeeping \<Rightarrow> 's Housekeeping" where
  "hk_say level msg attrs h = h\<lparr>hk_log := hk_log h @ [\<lparr>lg_Level = level, lg_Msg = msg, lg_Attrs = attrs\<rparr>]\<rparr>"

text \<open>The clock is draw 0, the store call draw 1, the removal of the objects has the draws from 2.\<close>

definition collectAbandonedUploads :: "S3Lib \<Rightarrow> 's Janitor \<Rightarrow> (nat \<Rightarrow> Draw) \<Rightarrow> 's Housekeeping \<Rightarrow> 's Housekeeping" where
  "collectAbandonedUploads s3 j dr h =
     (let cutoff = d_now (dr 0) - ja_gcAfter j
      in case up_ReleaseAbandoned (st_Uploads (ja_store j)) (dr 1) cutoff batchSize (hk_store h) of
           (Inl e, s) \<Rightarrow>
             hk_say ''ERROR'' ''releasing abandoned uploads failed'' [(''error'', store_error_text e)] (h\<lparr>hk_store := s\<rparr>)
         | (Inr keys, s) \<Rightarrow>
             if keys = [] then h\<lparr>hk_store := s\<rparr>
             else (case Delete s3 (ja_presigner j) (shift_draws 2 dr) keys of
                 (Some e, sent) \<Rightarrow>
                   hk_say ''ERROR'' ''deleting abandoned objects failed'' [(''error'', e), (''keys'', itoa (int (length keys)))]
                     (h\<lparr>hk_store := s, hk_deleted := hk_deleted h @ sent\<rparr>)
               | (None, sent) \<Rightarrow>
                   hk_say ''INFO'' ''abandoned uploads collected'' [(''keys'', itoa (int (length keys)))]
                     (h\<lparr>hk_store := s, hk_deleted := hk_deleted h @ sent\<rparr>)))"

definition deleteExpiredTokens :: "'s Janitor \<Rightarrow> (nat \<Rightarrow> Draw) \<Rightarrow> 's Housekeeping \<Rightarrow> 's Housekeeping" where
  "deleteExpiredTokens j dr h =
     (let cutoff = d_now (dr 0) - 7 * 24 * hour
      in case ts_DeleteExpired (st_Tokens (ja_store j)) (dr 1) cutoff (hk_store h) of
           (Inl e, s) \<Rightarrow>
             hk_say ''ERROR'' ''deleting expired refresh tokens failed'' [(''error'', store_error_text e)] (h\<lparr>hk_store := s\<rparr>)
         | (Inr deleted, s) \<Rightarrow>
             if deleted > 0 then
               hk_say ''INFO'' ''expired refresh tokens deleted'' [(''count'', itoa deleted)] (h\<lparr>hk_store := s\<rparr>)
             else h\<lparr>hk_store := s\<rparr>)"

text \<open>\<open>sweep\<close>: even draws for the uploads, odd ones for the tokens; its timeout is a failing store call.\<close>

definition sweep :: "S3Lib \<Rightarrow> 's Janitor \<Rightarrow> (nat \<Rightarrow> Draw) \<Rightarrow> 's Housekeeping \<Rightarrow> 's Housekeeping" where
  "sweep s3 j dr h = deleteExpiredTokens j (next_draws dr) (collectAbandonedUploads s3 j (own_draw dr) h)"

fun sweep_loop :: "S3Lib \<Rightarrow> 's Janitor \<Rightarrow> tick_event list \<Rightarrow> 's Housekeeping \<Rightarrow> 's Housekeeping" where
  "sweep_loop s3 j [] h = h"
| "sweep_loop s3 j (Cancelled # evs) h = h"
| "sweep_loop s3 j (Ticked dr # evs) h = sweep_loop s3 j evs (sweep s3 j dr h)"

definition Run_janitor ::
    "S3Lib \<Rightarrow> 's Janitor \<Rightarrow> (nat \<Rightarrow> Draw) \<Rightarrow> tick_event list \<Rightarrow> 's Housekeeping \<Rightarrow> outcome \<times> 's Housekeeping" where
  "Run_janitor s3 j dr evs h =
     (case NewTicker (ja_interval j) of
        Panicked msg \<Rightarrow> (Panicked msg, h)
      | Completed \<Rightarrow> (Completed, sweep_loop s3 j evs (sweep s3 j dr h)))"

section \<open>The keep-alive\<close>

record Pinger =
  pi_url :: gostring
  pi_interval :: duration
  pi_timeout :: duration

definition New_pinger :: "SelfPingConfig \<Rightarrow> Pinger" where
  "New_pinger cfg = \<lparr>pi_url = sp_URL cfg, pi_interval = sp_Interval cfg, pi_timeout = sp_Timeout cfg\<rparr>"

text \<open>
  \<open>ping\<close> with the HTTP client's answer: building the request fails, the exchange fails, or a status
  comes back (redirects are not followed).
\<close>

datatype ping_exchange = BadRequest gostring | ExchangeError gostring | PingStatus int gostring

definition ping :: "ping_exchange \<Rightarrow> gostring option" where
  "ping x =
     (case x of
        BadRequest e \<Rightarrow> Some (''building request: '' @ e)
      | ExchangeError e \<Rightarrow> Some e
      | PingStatus code status \<Rightarrow> if code < 200 \<or> code \<ge> 300 then Some (''unexpected status '' @ status) else None)"

text \<open>The interval printed by the first line of the log is left out.\<close>

datatype ping_event = PingTick ping_exchange | PingCancelled

fun ping_loop :: "Pinger \<Rightarrow> ping_event list \<Rightarrow> LogEntry list" where
  "ping_loop p [] = []"
| "ping_loop p (PingCancelled # evs) = [\<lparr>lg_Level = ''INFO'', lg_Msg = ''self-ping stopped'', lg_Attrs = []\<rparr>]"
| "ping_loop p (PingTick x # evs) =
     (case ping x of
        None \<Rightarrow>
          \<lparr>lg_Level = ''DEBUG'', lg_Msg = ''self-ping ok'',
           lg_Attrs = [(''url'', pi_url p), (''status'', (case x of PingStatus code _ \<Rightarrow> itoa code | _ \<Rightarrow> []))]\<rparr>
      | Some e \<Rightarrow>
          \<lparr>lg_Level = ''WARN'', lg_Msg = ''self-ping failed'', lg_Attrs = [(''url'', pi_url p), (''error'', e)]\<rparr>)
     # ping_loop p evs"

definition Run_pinger :: "Pinger \<Rightarrow> ping_event list \<Rightarrow> outcome \<times> LogEntry list" where
  "Run_pinger p evs =
     (case NewTicker (pi_interval p) of
        Panicked msg \<Rightarrow> (Panicked msg, [])
      | Completed \<Rightarrow>
          (Completed, \<lparr>lg_Level = ''INFO'', lg_Msg = ''self-ping started'', lg_Attrs = [(''url'', pi_url p)]\<rparr> # ping_loop p evs))"

end
