(* ===== verification/Startup.thy ===== *)
theory Startup
  imports Janitor
begin

text \<open>
  Starting the process: the connection and the migrations of \<open>internal/store/postgres/postgres.go\<close> and the wiring of
  \<open>main.go\<close>; what runs after it is in \<open>Lifecycle\<close>.
\<close>

section \<open>The connection\<close>

text \<open>What the pool is asked for; parsing the URL, opening the pool and the first ping are the driver's.\<close>

record PoolConfig =
  pl_URL :: gostring
  pl_MaxConns :: int
  pl_MaxConnLifetime :: duration
  pl_MaxConnIdleTime :: duration

record PgxLib =
  px_ParseConfig :: "gostring \<Rightarrow> gostring option"
  px_NewWithConfig :: "PoolConfig \<Rightarrow> gostring option"
  px_Ping :: "PoolConfig \<Rightarrow> gostring option"

definition pool_config :: "gostring \<Rightarrow> PoolConfig" where
  "pool_config url = \<lparr>pl_URL = url, pl_MaxConns = 10, pl_MaxConnLifetime = hour, pl_MaxConnIdleTime = 5 * minute\<rparr>"

text \<open>\<open>Connect\<close>: the store over the pool, whose tables are \<open>s\<close>.\<close>

definition Connect :: "PgxLib \<Rightarrow> 's Store \<Rightarrow> 's \<Rightarrow> gostring \<Rightarrow> gostring + 's Store \<times> 's" where
  "Connect px st s databaseURL =
     (case px_ParseConfig px databaseURL of
        Some e \<Rightarrow> Inl (''parsing DATABASE_URL: '' @ e)
      | None \<Rightarrow>
          (case px_NewWithConfig px (pool_config databaseURL) of
             Some e \<Rightarrow> Inl (''connecting to postgres: '' @ e)
           | None \<Rightarrow>
               (case px_Ping px (pool_config databaseURL) of
                  Some e \<Rightarrow> Inl (''pinging postgres: '' @ e)
                | None \<Rightarrow> Inr (st, s))))"

section \<open>Migrations\<close>

text \<open>
  The database as the migrations see it: the versions recorded in \<open>schema_migrations\<close> and
  everything else.  What a migration's SQL does is the parameter \<open>exec\<close> (\<open>Inl\<close>: the server refuses
  it); the failure of a bookkeeping statement or of the commit is the fault of its draw.
\<close>

record 'd MigrationDB =
  md_versions :: "gostring list"
  md_data :: 'd

type_synonym 'd exec = "gostring \<Rightarrow> 'd \<Rightarrow> gostring + 'd"

text \<open>\<open>pgx.BeginFunc\<close>: the body and the bookkeeping row in one transaction, or nothing.\<close>

definition apply_migration :: "'d exec \<Rightarrow> Draw \<Rightarrow> gostring \<Rightarrow> gostring \<Rightarrow> 'd MigrationDB \<Rightarrow> (gostring + unit) \<times> 'd MigrationDB" where
  "apply_migration exec d name body db =
     (case exec body (md_data db) of
        Inl e \<Rightarrow> (Inl (''applying migration '' @ name @ '': '' @ e), db)
      | Inr data \<Rightarrow>
          (case d_fault d of
             Some e \<Rightarrow> (Inl e, db)
           | None \<Rightarrow> (Inr (), \<lparr>md_versions = md_versions db @ [name], md_data = data\<rparr>)))"

text \<open>The loop over the embedded files in the order of their names; each file has its own draws.\<close>

fun migrate_files ::
    "'d exec \<Rightarrow> (nat \<Rightarrow> Draw) \<Rightarrow> (gostring \<times> gostring) list \<Rightarrow> 'd MigrationDB \<Rightarrow> (gostring + unit) \<times> 'd MigrationDB" where
  "migrate_files exec dr [] db = (Inr (), db)"
| "migrate_files exec dr ((name, body) # files) db =
     (case d_fault (dr 0) of
        Some e \<Rightarrow> (Inl (''checking migration '' @ name @ '': '' @ e), db)
      | None \<Rightarrow>
          if name \<in> set (md_versions db) then migrate_files exec (shift_draws 2 dr) files db
          else (case apply_migration exec (dr 1) name body db of
              (Inl e, db') \<Rightarrow> (Inl e, db')
            | (Inr _, db') \<Rightarrow> migrate_files exec (shift_draws 2 dr) files db'))"

definition Migrate ::
    "'d exec \<Rightarrow> (nat \<Rightarrow> Draw) \<Rightarrow> gostring gomap \<Rightarrow> 'd MigrationDB \<Rightarrow> (gostring + unit) \<times> 'd MigrationDB" where
  "Migrate exec dr files db =
     (case d_fault (dr 0) of
        Some e \<Rightarrow> (Inl (''creating schema_migrations: '' @ e), db)
      | None \<Rightarrow> migrate_files exec (shift_draws 1 dr) (sort_slice (\<lambda>a b. fst a < fst b) files) db)"

section \<open>\<open>main.go\<close>\<close>

text \<open>\<open>setupLogging\<close>: the level and the format of the log.\<close>

datatype log_level = LevelDebug | LevelInfo
datatype log_format = JSONHandler | TextHandler

definition setupLogging :: "Config \<Rightarrow> log_level \<times> log_format" where
  "setupLogging cfg =
     (if IsProduction cfg then LevelInfo else LevelDebug, if IsProduction cfg then JSONHandler else TextHandler)"

record HttpServer =
  hs_Addr :: gostring
  hs_ReadHeaderTimeout :: duration
  hs_ReadTimeout :: duration
  hs_WriteTimeout :: duration
  hs_IdleTimeout :: duration
  hs_MaxHeaderBytes :: int

definition http_server :: "Config \<Rightarrow> HttpServer" where
  "http_server cfg =
     \<lparr>hs_Addr = cf_Addr cfg, hs_ReadHeaderTimeout = 10 * second, hs_ReadTimeout = 30 * second,
      hs_WriteTimeout = 30 * second, hs_IdleTimeout = 120 * second, hs_MaxHeaderBytes = 2 ^ 16\<rparr>"

text \<open>
  The startup of \<open>run\<close> up to the background work: the store connects (or not), the migrations
  have run (or not), the presigner is built; then the services are wired.
\<close>

definition start_server ::
    "Lib \<Rightarrow> (gostring + 's Store \<times> 's) \<Rightarrow> gostring option \<Rightarrow> gostring option \<Rightarrow> Draw \<Rightarrow> Config
      \<Rightarrow> gostring + 's Server \<times> 's World \<times> 's Janitor \<times> Pinger option" where
  "start_server lib conn migrate_error aws_error d cfg =
     (case conn of
        Inl e \<Rightarrow> Inl e
      | Inr (st, s) \<Rightarrow>
          (case migrate_error of
             Some e \<Rightarrow> Inl e
           | None \<Rightarrow>
               (case New_presigner aws_error (cf_Storage cfg) of
                  Inl e \<Rightarrow> Inl e
                | Inr presigner \<Rightarrow>
                    (let issuer = NewTokenIssuer (cf_JWTSecret cfg) (cf_AccessTokenTTL cfg);
                         sessions = NewService (st_Tokens st) issuer (cf_RefreshTokenTTL cfg);
                         (server, world) = New_server lib d cfg st sessions issuer presigner s
                     in Inr (server, world, New_janitor st presigner (cf_UploadGCAfter cfg) hour,
                          if sp_Enabled (cf_SelfPing cfg) then Some (New_pinger (cf_SelfPing cfg)) else None)))))"

text \<open>The first line of the server's goroutine.\<close>

definition listening_log :: "Lib \<Rightarrow> Config \<Rightarrow> LogEntry" where
  "listening_log lib cfg =
     \<lparr>lg_Level = ''INFO'', lg_Msg = ''listening'',
      lg_Attrs = [(''addr'', cf_Addr cfg), (''version'', Version (lb_build lib)), (''environment'', cf_Environment cfg),
          (''bucket'', sc_Bucket (cf_Storage cfg))] @
        (if cf_DocsEnabled cfg then [(''docs'', DocsPath), (''openapi'', OpenAPIPath)] else [])\<rparr>"

text \<open>\<open>main\<close>: the exit code, from the errors of \<open>Load\<close> and \<open>run\<close>.\<close>

definition main_exit :: "config_error + Config \<Rightarrow> (Config \<Rightarrow> gostring option) \<Rightarrow> int" where
  "main_exit loaded run =
     (case loaded of
        Inl _ \<Rightarrow> 1
      | Inr cfg \<Rightarrow> (case run cfg of Some _ \<Rightarrow> 1 | None \<Rightarrow> 0))"

end
