(* ===== verification/OpsProps.thy ===== *)
theory OpsProps
  imports Startup StoreProps
begin

text \<open>What the operator relies on: the configuration, the migrations and the housekeeping.\<close>

section \<open>Configuration\<close>

definition required_keys :: "gostring list" where
  "required_keys =
     [''DATABASE_URL'', ''S3_BUCKET'', ''S3_ACCESS_KEY_ID'', ''S3_SECRET_ACCESS_KEY'', ''S3_PUBLIC_BASE_URL'', ''JWT_SECRET'']"

lemma required_keys_split:
  "required_keys =
     [''DATABASE_URL'', ''S3_BUCKET'', ''S3_ACCESS_KEY_ID'', ''S3_SECRET_ACCESS_KEY'', ''S3_PUBLIC_BASE_URL''] @ [''JWT_SECRET'']"
  by (simp add: required_keys_def)

lemma env_Nil_iff [simp]: "env getenv key fallback = [] \<longleftrightarrow> getenv key = [] \<and> fallback = []"
  by (simp add: env_def)

lemma required_production [simp]:
  "required getenv False key dflt help = (getenv key, if getenv key = [] then [\<lparr>mv_key = key, mv_help = help\<rparr>] else [])"
  by (simp add: required_def)

lemma base_config_env: "cf_Environment (fst (base_config getenv)) = env getenv ''ENVIRONMENT'' EnvironmentProduction"
  by (simp add: base_config_def Let_def split: prod.split)

text \<open>The fields and the omissions outside development.\<close>

lemma base_config_production:
  assumes "env getenv ''ENVIRONMENT'' EnvironmentProduction \<noteq> EnvironmentDevelopment"
  shows "map mv_key (snd (base_config getenv)) =
      filter (\<lambda>k. getenv k = []) [''DATABASE_URL'', ''S3_BUCKET'', ''S3_ACCESS_KEY_ID'', ''S3_SECRET_ACCESS_KEY'', ''S3_PUBLIC_BASE_URL'']"
    and "cf_DatabaseURL (fst (base_config getenv)) = getenv ''DATABASE_URL''"
    and "cf_Storage (fst (base_config getenv)) =
      \<lparr>sc_Endpoint = getenv ''S3_ENDPOINT'', sc_Region = env getenv ''S3_REGION'' ''us-east-1'', sc_Bucket = getenv ''S3_BUCKET'',
       sc_AccessKey = getenv ''S3_ACCESS_KEY_ID'', sc_SecretKey = getenv ''S3_SECRET_ACCESS_KEY'',
       sc_UsePathStyle = envBool getenv ''S3_USE_PATH_STYLE'' False, sc_PublicBaseURL = getenv ''S3_PUBLIC_BASE_URL'',
       sc_PresignTTL = 15 * minute\<rparr>"
proof -
  have dev: "(env getenv ''ENVIRONMENT'' EnvironmentProduction = EnvironmentDevelopment) = False"
    using assms by simp
  show "map mv_key (snd (base_config getenv)) =
      filter (\<lambda>k. getenv k = []) [''DATABASE_URL'', ''S3_BUCKET'', ''S3_ACCESS_KEY_ID'', ''S3_SECRET_ACCESS_KEY'', ''S3_PUBLIC_BASE_URL'']"
    unfolding base_config_def Let_def dev required_production by simp
  show "cf_DatabaseURL (fst (base_config getenv)) = getenv ''DATABASE_URL''"
    unfolding base_config_def Let_def dev required_production by simp
  show "cf_Storage (fst (base_config getenv)) =
      \<lparr>sc_Endpoint = getenv ''S3_ENDPOINT'', sc_Region = env getenv ''S3_REGION'' ''us-east-1'', sc_Bucket = getenv ''S3_BUCKET'',
       sc_AccessKey = getenv ''S3_ACCESS_KEY_ID'', sc_SecretKey = getenv ''S3_SECRET_ACCESS_KEY'',
       sc_UsePathStyle = envBool getenv ''S3_USE_PATH_STYLE'' False, sc_PublicBaseURL = getenv ''S3_PUBLIC_BASE_URL'',
       sc_PresignTTL = 15 * minute\<rparr>"
    unfolding base_config_def Let_def dev required_production by (simp add: devOnly_def env_def)
qed

lemma jwt_secret_production:
  "jwt_secret getenv False = Inr (secret, ms) \<Longrightarrow>
     secret = getenv ''JWT_SECRET'' \<and> map mv_key ms = filter (\<lambda>k. getenv k = []) [''JWT_SECRET''] \<and> (ms = [] \<longrightarrow> 32 \<le> length secret)"
  by (auto simp: jwt_secret_def Let_def split: if_splits)

text \<open>C34: a configuration that loads outside development comes entirely from the environment: the database,
  the bucket, both storage keys and the public base URL are set, the signing secret is the operator's
  and has at least 32 bytes, and the storage endpoint is what was set and never the local default.\<close>

theorem config_production_safe:
  assumes "Load rnd getenv = Inr cfg" and "cf_Environment cfg \<noteq> EnvironmentDevelopment"
  shows "(\<forall>k \<in> set required_keys. getenv k \<noteq> []) \<and> cf_JWTSecret cfg = getenv ''JWT_SECRET'' \<and> 32 \<le> length (cf_JWTSecret cfg)
    \<and> cf_DatabaseURL cfg = getenv ''DATABASE_URL'' \<and> sc_Endpoint (cf_Storage cfg) = getenv ''S3_ENDPOINT''
    \<and> sc_Bucket (cf_Storage cfg) = getenv ''S3_BUCKET'' \<and> sc_AccessKey (cf_Storage cfg) = getenv ''S3_ACCESS_KEY_ID''
    \<and> sc_SecretKey (cf_Storage cfg) = getenv ''S3_SECRET_ACCESS_KEY''
    \<and> sc_PublicBaseURL (cf_Storage cfg) = trim_right CHR ''/'' (getenv ''S3_PUBLIC_BASE_URL'')"
proof -
  obtain c ms where base: "base_config getenv = (c, ms)" by fastforce
  let ?dev = "cf_Environment c = EnvironmentDevelopment"
  obtain secret m cfg' where
    j: "jwt_secret getenv ?dev = Inr (secret, m)" "ms @ m = []"
    and t: "timed_settings rnd getenv (c\<lparr>cf_JWTSecret := secret\<rparr>) = Inr cfg'"
    and cfg: "cf_Environment cfg = cf_Environment cfg'" "cf_JWTSecret cfg = cf_JWTSecret cfg'"
      "cf_DatabaseURL cfg = cf_DatabaseURL cfg'"
      "cf_Storage cfg = (cf_Storage cfg')\<lparr>sc_PublicBaseURL := trim_right CHR ''/'' (sc_PublicBaseURL (cf_Storage cfg'))\<rparr>"
    using assms(1) unfolding Load_def base Let_def prod.case by (auto split: sum.splits if_splits)
  note keep = timed_settings_keep [OF t]
  have dev: "\<not> ?dev" using assms(2) keep unfolding cfg by simp
  then have p: "env getenv ''ENVIRONMENT'' EnvironmentProduction \<noteq> EnvironmentDevelopment"
    using base_config_env [of getenv] base by simp
  note b = base_config_production [OF p, unfolded base fst_conv snd_conv]
  have sec: "secret = getenv ''JWT_SECRET''" "32 \<le> length secret" "getenv ''JWT_SECRET'' \<noteq> []"
    using jwt_secret_production [of getenv secret m] j dev by (auto split: if_splits)
  have st: "(cf_Storage cfg')\<lparr>sc_PresignTTL := 0\<rparr> = (cf_Storage c)\<lparr>sc_PresignTTL := 0\<rparr>"
    using keep by simp
  have fields: "sc_Endpoint (cf_Storage cfg') = sc_Endpoint (cf_Storage c)" "sc_Bucket (cf_Storage cfg') = sc_Bucket (cf_Storage c)"
    "sc_AccessKey (cf_Storage cfg') = sc_AccessKey (cf_Storage c)" "sc_SecretKey (cf_Storage cfg') = sc_SecretKey (cf_Storage c)"
    "sc_PublicBaseURL (cf_Storage cfg') = sc_PublicBaseURL (cf_Storage c)"
    using arg_cong [OF st, of sc_Endpoint] arg_cong [OF st, of sc_Bucket] arg_cong [OF st, of sc_AccessKey]
      arg_cong [OF st, of sc_SecretKey] arg_cong [OF st, of sc_PublicBaseURL] by simp_all
  have "\<forall>k \<in> set required_keys. getenv k \<noteq> []"
    using b(1) j(2) sec(3) by (simp add: required_keys_def split: if_splits)
  then show ?thesis
    unfolding cfg using keep sec b(2) fields by (simp add: b(3))
qed

definition op_env :: "gostring \<Rightarrow> gostring" where
  "op_env k = (if k \<in> set required_keys then ''0123456789abcdef0123456789abcdef'' else [])"

lemma op_env_loads: "\<exists>cfg. Load (\<lambda>x. x) op_env = Inr cfg \<and> cf_Environment cfg = EnvironmentProduction"
proof -
  have "map_sum id cf_Environment (Load (\<lambda>x. x) op_env) = Inr EnvironmentProduction"
    by code_simp
  then show ?thesis
    by (cases "Load (\<lambda>x. x) op_env") auto
qed

theorem config_production_safe_witness:
  "\<exists>cfg. Load (\<lambda>x. x) op_env = Inr cfg \<and> 32 \<le> length (cf_JWTSecret cfg)
     \<and> cf_DatabaseURL cfg = ''0123456789abcdef0123456789abcdef''"
proof -
  obtain cfg where cfg: "Load (\<lambda>x. x) op_env = Inr cfg" "cf_Environment cfg = EnvironmentProduction"
    using op_env_loads by blast
  then have "cf_Environment cfg \<noteq> EnvironmentDevelopment"
    by (simp add: EnvironmentProduction_def EnvironmentDevelopment_def)
  then show ?thesis
    using config_production_safe [OF cfg(1)] cfg(1) by (simp add: op_env_def required_keys_def)
qed

text \<open>C35: outside development a boot that lacks settings fails with all of them at once: exactly the required
  variables that are unset, in their order, whatever the others contain, unless the secret that is set is
  too short, which is reported alone.\<close>

theorem config_reports_missing:
  assumes "env getenv ''ENVIRONMENT'' EnvironmentProduction \<noteq> EnvironmentDevelopment" and "\<exists>k \<in> set required_keys. getenv k = []"
  shows "case Load rnd getenv of
      Inl (MissingVars e ms) \<Rightarrow> e = env getenv ''ENVIRONMENT'' EnvironmentProduction
        \<and> map mv_key ms = filter (\<lambda>k. getenv k = []) required_keys
    | Inl (SecretTooShort n) \<Rightarrow> n = length (getenv ''JWT_SECRET'') \<and> 0 < n \<and> n < 32
    | _ \<Rightarrow> False"
proof -
  obtain c ms where base: "base_config getenv = (c, ms)" by fastforce
  have dev: "(cf_Environment c = EnvironmentDevelopment) = False"
    using base_config_env [of getenv] base assms(1) by simp
  note b = base_config_production(1) [OF assms(1), unfolded base snd_conv]
  show ?thesis
  proof (cases "jwt_secret getenv False")
    case (Inl e)
    then have "Load rnd getenv = Inl e"
      unfolding Load_def base Let_def prod.case dev by simp
    moreover have "e = SecretTooShort (length (getenv ''JWT_SECRET'')) \<and> 0 < length (getenv ''JWT_SECRET'') \<and> length (getenv ''JWT_SECRET'') < 32"
      using Inl by (auto simp: jwt_secret_def Let_def split: if_splits)
    ultimately show ?thesis
      by simp
  next
    case (Inr sm)
    obtain secret m where sm: "sm = (secret, m)" by fastforce
    have m: "map mv_key m = filter (\<lambda>k. getenv k = []) [''JWT_SECRET'']"
      using jwt_secret_production [of getenv secret m] Inr sm by simp
    then have keys: "map mv_key (ms @ m) = filter (\<lambda>k. getenv k = []) required_keys"
      by (simp only: map_append b m required_keys_split filter_append)
    have "ms @ m \<noteq> []"
    proof
      assume "ms @ m = []"
      then have "filter (\<lambda>k. getenv k = []) required_keys = []"
        unfolding keys [symmetric] by simp
      then show False
        using assms(2) unfolding filter_empty_conv by blast
    qed
    then have load: "Load rnd getenv = Inl (MissingVars (cf_Environment c) (ms @ m))"
      unfolding Load_def base Let_def prod.case dev Inr sm by (simp only: sum.case prod.case if_True simp_thms)
    have e: "cf_Environment c = env getenv ''ENVIRONMENT'' EnvironmentProduction"
      using base_config_env [of getenv] base by simp
    show ?thesis
      unfolding load e by (simp only: sum.case config_error.case keys simp_thms)
  qed
qed

theorem config_reports_missing_witness:
  "\<exists>ms. Load (\<lambda>x. x) (\<lambda>_. []) = Inl (MissingVars EnvironmentProduction ms) \<and> map mv_key ms = required_keys"
proof -
  have "env (\<lambda>_. []) ''ENVIRONMENT'' EnvironmentProduction = EnvironmentProduction" "EnvironmentProduction \<noteq> EnvironmentDevelopment"
    by (simp_all add: env_def EnvironmentProduction_def EnvironmentDevelopment_def)
  moreover have "\<exists>k \<in> set required_keys. ([] :: gostring) = []" "filter (\<lambda>k. ([] :: gostring) = []) required_keys = required_keys"
    by (auto simp: required_keys_split intro!: bexI [of _ "''JWT_SECRET''"])
  ultimately show ?thesis
    using config_reports_missing [of "\<lambda>_. []" "\<lambda>x. x"] by (simp split: sum.splits config_error.splits)
qed

section \<open>Migrations\<close>

text \<open>The bodies of some files run one after the other; \<open>None\<close> when one is refused.\<close>

fun run_bodies :: "'d exec \<Rightarrow> (gostring \<times> gostring) list \<Rightarrow> 'd \<Rightarrow> 'd option" where
  "run_bodies exec [] data = Some data"
| "run_bodies exec ((_, body) # files) data =
     (case exec body data of Inl _ \<Rightarrow> None | Inr data' \<Rightarrow> run_bodies exec files data')"

definition pending :: "'d MigrationDB \<Rightarrow> (gostring \<times> gostring) list \<Rightarrow> (gostring \<times> gostring) list" where
  "pending db files = filter (\<lambda>f. fst f \<notin> set (md_versions db)) files"

definition migrated :: "'d exec \<Rightarrow> (gostring \<times> gostring) list \<Rightarrow> nat \<Rightarrow> 'd MigrationDB \<Rightarrow> 'd MigrationDB \<Rightarrow> bool" where
  "migrated exec pend k db db' \<longleftrightarrow>
     k \<le> length pend \<and> md_versions db' = md_versions db @ map fst (take k pend)
     \<and> run_bodies exec (take k pend) (md_data db) = Some (md_data db')"

lemma migrated_0 [simp]: "migrated exec pend 0 db db"
  by (simp add: migrated_def)

text \<open>One file applied, or none.\<close>

lemma apply_migration_cases:
  obtains (stopped) e where "apply_migration exec d name body db = (Inl e, db)"
    | (applied) data where "exec body (md_data db) = Inr data"
        "apply_migration exec d name body db = (Inr (), \<lparr>md_versions = md_versions db @ [name], md_data = data\<rparr>)"
  by (cases "apply_migration exec d name body db") (auto simp: apply_migration_def split: sum.splits option.splits)

lemma pending_applied:
  assumes "name \<notin> fst ` set files" "name \<notin> set (md_versions db)"
  shows "pending \<lparr>md_versions = md_versions db @ [name], md_data = data\<rparr> files = pending db files"
    and "pending db ((name, body) # files) = (name, body) # pending db files"
  using assms unfolding pending_def by (auto intro!: filter_cong)

lemma migrate_files_run:
  assumes "distinct (map fst files)" and "migrate_files exec dr files db = (res, db')"
  shows "\<exists>k. migrated exec (pending db files) k db db' \<and> (res = Inr () \<longrightarrow> k = length (pending db files))"
  using assms
proof (induction files arbitrary: dr db)
  case Nil
  then show ?case by (auto simp: pending_def)
next
  case (Cons f files)
  obtain name body where f: "f = (name, body)" by fastforce
  have fresh: "distinct (map fst files)" "name \<notin> fst ` set files" using Cons.prems(1) f by simp_all
  consider (fault) e where "d_fault (dr 0) = Some e" | (old) "d_fault (dr 0) = None" "name \<in> set (md_versions db)"
    | (new) "d_fault (dr 0) = None" "name \<notin> set (md_versions db)" by fastforce
  then show ?case
  proof cases
    case fault
    then show ?thesis using Cons.prems(2) f by (auto intro: exI [of _ 0])
  next
    case old
    then show ?thesis using Cons.IH [OF fresh(1), of "shift_draws 2 dr" db] Cons.prems(2) f by (simp add: pending_def)
  next
    case new
    show ?thesis
    proof (cases rule: apply_migration_cases [of exec "dr 1" name body db])
      case (stopped e)
      then have "db' = db" "res = Inl e" using Cons.prems(2) new f by auto
      then show ?thesis by (auto intro: exI [of _ 0])
    next
      case (applied data)
      let ?db1 = "\<lparr>md_versions = md_versions db @ [name], md_data = data\<rparr>"
      note pend = pending_applied [OF fresh(2) new(2)]
      have "migrate_files exec (shift_draws 2 dr) files ?db1 = (res, db')" using Cons.prems(2) new f applied(2) by simp
      from Cons.IH [OF fresh(1) this] obtain k where "migrated exec (pending db files) k ?db1 db'" "res = Inr () \<longrightarrow> k = length (pending db files)"
        unfolding pend(1) by blast
      then show ?thesis
        unfolding f pend(2) using applied(1) by (intro exI [of _ "Suc k"]) (auto simp: migrated_def)
    qed
  qed
qed

lemma migrate_files_again:
  "(\<forall>k. d_fault (dr k) = None) \<Longrightarrow> fst ` set files \<subseteq> set (md_versions db) \<Longrightarrow> migrate_files exec dr files db = (Inr (), db)"
  by (induction files arbitrary: dr) (auto simp: shift_draws_def)

lemma pending_done: "migrated exec (pending db files) (length (pending db files)) db db' \<Longrightarrow> fst ` set files \<subseteq> set (md_versions db')"
  by (auto simp: migrated_def pending_def)

lemma names_total:
  fixes files :: "(gostring \<times> 'b) list"
  assumes "distinct (map fst files)"
  shows "strict_total (\<lambda>a b. fst a < fst b) (set files)"
proof -
  have "fst x < fst y \<or> fst y < fst x" if "x \<in> set files" "y \<in> set files" "x \<noteq> y" for x y
    using inj_onD [of fst "set files" x y] that assms linorder_less_linear [of "fst x" "fst y"] by (auto simp: distinct_map)
  then show ?thesis
    unfolding strict_total_def by (meson less_irrefl less_trans)
qed

text \<open>C24: however a run of the migrations ends, the database has exactly a first part of the pending files
  applied, in the order of their names, each together with its bookkeeping row; it succeeds only with all of them
  applied, and a later run without faults then changes nothing.\<close>

theorem migrations_atomic_in_order:
  assumes "distinct (map fst files)" and "Migrate exec dr files db = (res, db')"
  shows "(\<exists>k. migrated exec (pending db (sort_slice (\<lambda>a b. fst a < fst b) files)) k db db'
      \<and> sorted_wrt (<) (map fst (take k (pending db (sort_slice (\<lambda>a b. fst a < fst b) files))))
      \<and> (res = Inr () \<longrightarrow> k = length (pending db (sort_slice (\<lambda>a b. fst a < fst b) files))))
    \<and> (res = Inr () \<longrightarrow> (\<forall>dr'. (\<forall>k. d_fault (dr' k) = None) \<longrightarrow> Migrate exec dr' files db' = (Inr (), db')))"
proof -
  let ?files = "sort_slice (\<lambda>a b. fst a < fst b) files"
  have "distinct files" using assms(1) by (simp add: distinct_map)
  then have sorted: "sorted_wrt (\<lambda>a b. fst a < fst b) ?files"
    by (rule sorted_sort_slice [OF names_total [OF assms(1)]])
  then have dist: "distinct (map fst ?files)"
    unfolding distinct_map using assms(1) \<open>distinct files\<close>
    by (metis distinct_map mset_sort_slice mset_eq_imp_distinct_iff set_sort_slice)
  have sw: "sorted_wrt (<) (map fst (take k (pending db ?files)))" for k
    unfolding sorted_wrt_map pending_def by (rule sorted_wrt_take) (rule sorted_wrt_filter [OF sorted])
  obtain k where k: "migrated exec (pending db ?files) k db db'" "res = Inr () \<longrightarrow> k = length (pending db ?files)"
  proof (cases "d_fault (dr 0)")
    case None
    then show ?thesis using that migrate_files_run [OF dist, of exec "shift_draws 1 dr" db res db'] assms(2) by (auto simp: Migrate_def)
  next
    case (Some e)
    then show ?thesis using that [of 0] assms(2) by (auto simp: Migrate_def)
  qed
  have "Migrate exec dr' files db' = (Inr (), db')" if "res = Inr ()" "\<forall>k. d_fault (dr' k) = None" for dr'
    using migrate_files_again [of "shift_draws 1 dr'" ?files db' exec] pending_done [of exec db ?files db'] k that
    by (simp add: Migrate_def shift_draws_def)
  then show ?thesis
    using k sw by blast
qed

theorem migrations_atomic_in_order_witness:
  "let exec = (\<lambda>body (log :: gostring list). if body = ''bad'' then Inl ''syntax'' else Inr (log @ [body]));
       dr = (\<lambda>_. sp_draw); db = \<lparr>md_versions = [''0001''], md_data = [''a'']\<rparr>;
       files = [(''0003'', ''bad''), (''0002'', ''b''), (''0001'', ''a'')]
   in \<exists>k db'. Migrate exec dr files db = (Inl ''applying migration 0003: syntax'', db')
        \<and> migrated exec (pending db (sort_slice (\<lambda>a b. fst a < fst b) files)) k db db' \<and> md_versions db' = [''0001'', ''0002'']"
proof -
  let ?exec = "\<lambda>body (log :: gostring list). if body = ''bad'' then Inl ''syntax'' else Inr (log @ [body])"
  let ?db = "\<lparr>md_versions = [''0001''], md_data = [''a'']\<rparr>" and ?db' = "\<lparr>md_versions = [''0001'', ''0002''], md_data = [''a'', ''b'']\<rparr>"
  let ?files = "[(''0003'', ''bad''), (''0002'', ''b''), (''0001'', ''a'')]"
  have "Migrate ?exec (\<lambda>_. sp_draw) ?files ?db = (Inl ''applying migration 0003: syntax'', ?db')"
    by (simp add: Migrate_def shift_draws_def sp_draw_def apply_migration_def)
  then show ?thesis
    using migrations_atomic_in_order [of ?files ?exec "\<lambda>_. sp_draw" ?db] unfolding Let_def by fastforce
qed

section \<open>Housekeeping\<close>

lemma release_pg:
  assumes "pg_inv pl db" and "pg_upload_ReleaseAbandoned pl d before batchSize db = (Inr keys, db')"
  shows "distinct keys \<and> length keys \<le> 500 \<and> db' = db\<lparr>t_uploads := filter (\<lambda>u. ul_Key u \<notin> set keys) (t_uploads db)\<rparr>
    \<and> (\<forall>u \<in> set (t_uploads db). ul_Key u \<in> set keys \<longrightarrow> abandoned (pg_timestamptz pl before) u)"
proof -
  let ?cut = "pg_timestamptz pl before"
  let ?oldest = "oldest_abandoned d ?cut (nat batchSize) db"
  have b: "0 \<le> batchSize" by (simp add: batchSize_def)
  have k: "keys = map ul_Key (filter (\<lambda>u. ul_Key u \<in> set ?oldest) (t_uploads db))"
    and db': "db' = db\<lparr>t_uploads := filter (\<lambda>u. ul_Key u \<notin> set ?oldest) (t_uploads db)\<rparr>"
    using assms(2) b
    by (auto simp: pg_upload_ReleaseAbandoned_def statement_def release_uploads_def Let_def split: option.splits)
  note rel = released_keys [OF assms(1) b k]
  have "abandoned ?cut u" if u: "u \<in> set (t_uploads db)" "ul_Key u \<in> set keys" for u
  proof -
    obtain v where v: "pg_upls db (ul_Key u) = Some v" "abandoned ?cut v"
      using rel(3) u(2) by blast
    then have "v = u"
      using keyed_Some_iff [OF pg_uploads_keys [OF assms(1)], of "ul_Key u" u] u(1) by simp
    then show ?thesis using v(2) by simp
  qed
  then show ?thesis
    using rel(1,2,4) db' by (simp add: batchSize_def)
qed

text \<open>What collecting and expiring do, whatever fails on the way.\<close>

definition collected :: "PgLib \<Rightarrow> time \<Rightarrow> PgDB \<Rightarrow> PgDB \<Rightarrow> gostring list list \<Rightarrow> bool" where
  "collected pl bound db db' batches \<longleftrightarrow>
     (\<exists>keys rest. distinct keys \<and> length keys \<le> 500 \<and> keys = concat batches @ rest \<and> (\<forall>b \<in> set batches. length b \<le> 1000)
        \<and> db' = db\<lparr>t_uploads := filter (\<lambda>u. ul_Key u \<notin> set keys) (t_uploads db)\<rparr>
        \<and> (\<forall>u \<in> set (t_uploads db). ul_Key u \<in> set keys \<longrightarrow> ul_AttachedAt u = None \<and> ul_CreatedAt u < pg_timestamptz pl bound))"

lemma collect_pg:
  assumes inv: "pg_inv pl (hk_store h)"
    and run: "collectAbandonedUploads s3 (New_janitor (pg_Store pl lp) p gc iv) dr h = h'"
  shows "\<exists>batches. hk_deleted h' = hk_deleted h @ batches \<and> collected pl (d_now (dr 0) - gc) (hk_store h) (hk_store h') batches"
proof -
  obtain res db' where rel: "pg_upload_ReleaseAbandoned pl (dr 1) (d_now (dr 0) - gc) batchSize (hk_store h) = (res, db')"
    by fastforce
  have empty: "collected pl (d_now (dr 0) - gc) db db []" for db
    by (auto simp: collected_def intro: exI [of _ "[]"])
  show ?thesis
  proof (cases res)
    case (Inl e)
    then have "db' = hk_store h"
      using rel by (auto simp: pg_upload_ReleaseAbandoned_def statement_def release_uploads_def Let_def split: option.splits if_splits)
    then have "hk_deleted h' = hk_deleted h @ []" "hk_store h' = hk_store h"
      using run rel Inl by (auto simp: collectAbandonedUploads_def New_janitor_def pg_Uploads_def hk_say_def)
    then show ?thesis using empty by metis
  next
    case (Inr keys)
    note k = release_pg [OF inv rel [unfolded Inr]]
    obtain err sent where sent: "Delete s3 p (shift_draws 2 dr) keys = (err, sent)" by fastforce
    have s: "(\<forall>b \<in> set sent. length b \<le> 1000) \<and> (\<exists>rest. keys = concat sent @ rest)"
      using sent delete_batches_sent [of s3 p "shift_draws 2 dr" 0 keys err sent] by (auto simp: Delete_def split: if_splits)
    have "hk_store h' = db'" "hk_deleted h' = hk_deleted h @ sent"
      using run rel Inr sent
      by (auto simp: collectAbandonedUploads_def New_janitor_def pg_Uploads_def hk_say_def Delete_def split: option.splits)
    then show ?thesis
      using k s unfolding collected_def abandoned_def by blast
  qed
qed

lemma expire_pg:
  assumes "deleteExpiredTokens (New_janitor (pg_Store pl lp) p gc iv) dr h = h'"
  shows "hk_deleted h' = hk_deleted h \<and>
    (hk_store h' = hk_store h \<or>
     hk_store h' = (hk_store h)\<lparr>t_tokens := filter (\<lambda>t. \<not> rt_ExpiresAt t < pg_timestamptz pl (d_now (dr 0) - 7 * 24 * hour)) (t_tokens (hk_store h))\<rparr>)"
  using assms
  by (auto simp: deleteExpiredTokens_def New_janitor_def pg_Tokens_def pg_token_DeleteExpired_def statement_def Let_def hk_say_def
      split: option.splits if_splits)

text \<open>C25: a sweep of the janitor over the Postgres store, whatever of it fails, removes at most 500 uploads, each never
  attached and older than the grace period, asks storage to delete only keys it has removed (in batches storage
  accepts, in order), removes only tokens a week past their expiry, and touches nothing else.\<close>

theorem sweep_safe:
  assumes "pg_inv pl (hk_store h)"
  shows "\<exists>db batches. collected pl (d_now (own_draw dr 0) - gc) (hk_store h) db batches
    \<and> hk_deleted (sweep s3 (New_janitor (pg_Store pl lp) p gc iv) dr h) = hk_deleted h @ batches
    \<and> (hk_store (sweep s3 (New_janitor (pg_Store pl lp) p gc iv) dr h) = db \<or>
       hk_store (sweep s3 (New_janitor (pg_Store pl lp) p gc iv) dr h) =
         db\<lparr>t_tokens := filter (\<lambda>t. \<not> rt_ExpiresAt t < pg_timestamptz pl (d_now (next_draws dr 0) - 7 * 24 * hour)) (t_tokens db)\<rparr>)"
proof -
  let ?j = "New_janitor (pg_Store pl lp) p gc iv"
  let ?h1 = "collectAbandonedUploads s3 ?j (own_draw dr) h"
  obtain batches where "hk_deleted ?h1 = hk_deleted h @ batches"
    and "collected pl (d_now (own_draw dr 0) - gc) (hk_store h) (hk_store ?h1) batches"
    using collect_pg [OF assms refl] by blast
  then show ?thesis
    using expire_pg [OF refl, of pl lp p gc iv "next_draws dr" ?h1] unfolding sweep_def
    by (intro exI [of _ "hk_store ?h1"] exI [of _ batches]) simp
qed

definition op_s3 :: S3Lib where
  "op_s3 = \<lparr>s3_GetObject = (\<lambda>_ _ _. Inr ([], Some ''image/png'')), s3_DeleteObjects = (\<lambda>_ _ _. None),
     s3_PresignPutObject = (\<lambda>_ _ _ _ _ _. Inr ''url''), image_DecodeConfig = (\<lambda>_. Some (''png'', 400, 400))\<rparr>"

definition op_presigner :: Presigner where
  "op_presigner = \<lparr>ps_bucket = ''b'', ps_publicBaseURL = ''http://img'', ps_ttl = 15 * minute\<rparr>"

theorem sweep_safe_witness:
  "\<exists>db batches. collected sp_pl (hour - minute) sp_db db batches
    \<and> hk_deleted (sweep op_s3 (New_janitor (pg_Store sp_pl (\<lambda>_. None)) op_presigner minute hour) (\<lambda>_. sp_draw)
        \<lparr>hk_store = sp_db, hk_deleted = [], hk_log = []\<rparr>) = batches"
  using sweep_safe [of sp_pl "\<lparr>hk_store = sp_db, hk_deleted = [], hk_log = []\<rparr>" "\<lambda>_. sp_draw" minute op_s3 "\<lambda>_. None" op_presigner hour] sp_pg_inv
  by (auto simp: own_draw_def sp_draw_def)

end
