(* ===== verification/Contract.thy ===== *)
theory Contract
  imports Handlers
begin

text \<open>
  The contract every handler keeps with the layers around it: it answers once, or fails with one
  of the statuses of the API without having written anything.  From it follow that every request
  is answered, and that the log tells what was sent.
\<close>

section \<open>The contract\<close>

text \<open>A response was sent through the writer: its status, its bytes, and the recorder's view of both.\<close>

definition sends :: "int \<Rightarrow> Writer \<Rightarrow> Writer \<Rightarrow> bool" where
  "sends code w w' \<longleftrightarrow>
     wr_Status w' = code \<and> (\<exists>b. wr_Body w' = wr_Body w @ b \<and> wr_rec w' = map_option (\<lambda>(st, n). (code, n + length b)) (wr_rec w))"

definition success_statuses :: "int set" where "success_statuses = {200, 201, 204, 503}"
definition error_statuses :: "int set" where "error_statuses = {400, 401, 403, 404, 409, 413, 415, 429, 500}"

definition api_ok :: "verdict \<times> Writer \<times> 's World \<Rightarrow> Writer \<Rightarrow> bool" where
  "api_ok res w \<longleftrightarrow>
     (case res of
        (Answered, w', _) \<Rightarrow> \<exists>code \<in> success_statuses. sends code w w'
      | (Failed (APIErr e), w', _) \<Rightarrow> w' = w \<and> ae_Status e \<in> error_statuses
      | (Failed (PlainErr _), _, _) \<Rightarrow> False
      | (Crashed _, w', _) \<Rightarrow> w' = w)"

text \<open>A writer nothing was sent through, whose recorder has seen no status.\<close>

definition fresh_writer :: "Writer \<Rightarrow> bool" where
  "fresh_writer w \<longleftrightarrow> wr_Status w = 0 \<and> (case wr_rec w of None \<Rightarrow> True | Some (st, _) \<Rightarrow> st = 0)"

text \<open>The contract of the outer handlers: a response goes out, or a panic travels on with the writer unused.\<close>

definition http_ok :: "outcome \<times> Writer \<times> 's World \<Rightarrow> Writer \<Rightarrow> bool" where
  "http_ok res w \<longleftrightarrow>
     (case res of
        (Completed, w', _) \<Rightarrow> \<exists>code \<in> success_statuses \<union> error_statuses. sends code w w'
      | (Panicked _, w', _) \<Rightarrow> fresh_writer w' \<and> wr_Body w' = wr_Body w \<and> wr_rec w' = wr_rec w)"

lemma writer_rec [simp]:
  "wr_rec (Header_Set k v w) = wr_rec w"
  "wr_rec (WriteHeader c w) = map_option (\<lambda>(_, n). (c, n)) (wr_rec w)"
  by (simp_all add: Header_Set_def WriteHeader_def send_header_def)

lemma Write_rec:
  "wr_rec (Write b w) = map_option (\<lambda>(st, n). (if st = 0 then 200 else st, n + length b)) (wr_rec w)"
  by (cases "wr_rec w") (auto simp: Write_def send_header_def Let_def split: prod.splits)

lemma sends_writeRaw:
  "fresh_writer w \<Longrightarrow> code \<noteq> 0 \<Longrightarrow> sends code w (writeRaw code b w)"
  by (cases "wr_rec w") (auto simp: sends_def writeRaw_def Write_rec fresh_writer_def)

lemma sends_WriteJSON: "fresh_writer w \<Longrightarrow> code \<noteq> 0 \<Longrightarrow> sends code w (WriteJSON code v w)"
  unfolding WriteJSON_def by (rule sends_writeRaw)

lemma sends_NoContent: "fresh_writer w \<Longrightarrow> sends 204 w (NoContent w)"
  by (cases "wr_rec w") (auto simp: sends_def NoContent_def fresh_writer_def)

lemma fresh_Header_Set [simp]: "fresh_writer (Header_Set k v w) \<longleftrightarrow> fresh_writer w"
  by (simp add: fresh_writer_def)

lemma sends_Header_Set: "sends code (Header_Set k v w) w' \<Longrightarrow> sends code w w'"
  by (simp add: sends_def)

section \<open>The building blocks keep it\<close>

lemma api_fail [intro]: "ae_Status e \<in> error_statuses \<Longrightarrow> api_ok (fail e w s) w"
  by (simp add: api_ok_def fail_def)

lemma api_answer [intro]: "fresh_writer w \<Longrightarrow> code \<in> success_statuses \<Longrightarrow> api_ok (answer code v w s) w"
  by (auto simp: api_ok_def answer_def success_statuses_def intro: sends_WriteJSON)

lemma api_crash [intro]: "api_ok (Crashed msg, w, s) w"
  by (simp add: api_ok_def)

lemma api_answer_opt [intro]: "fresh_writer w \<Longrightarrow> code \<in> success_statuses \<Longrightarrow> api_ok (answer_opt code v w s) w"
  unfolding answer_opt_def by (cases v) (simp_all only: option.case api_crash api_answer)

lemma api_NoContent [intro]: "fresh_writer w \<Longrightarrow> api_ok (Answered, NoContent w, s) w"
  by (auto simp: api_ok_def success_statuses_def dest: sends_NoContent)

lemma error_statuses_simps [simp]:
  "ae_Status (ErrValidation m d) \<in> error_statuses" "ae_Status ErrInvalidCredentials \<in> error_statuses"
  "ae_Status APITokenExpired \<in> error_statuses" "ae_Status APITokenInvalid \<in> error_statuses"
  "ae_Status (APIForbidden m) \<in> error_statuses" "ae_Status (APINotFound m) \<in> error_statuses"
  "ae_Status (ErrConflict m d) \<in> error_statuses" "ae_Status (ErrFileTooLarge m) \<in> error_statuses"
  "ae_Status (ErrUnsupportedMediaType m) \<in> error_statuses" "ae_Status ErrRateLimited \<in> error_statuses"
  "ae_Status (ErrInternal c) \<in> error_statuses" "ae_Status (internal e) \<in> error_statuses"
  by (simp_all add: api_error_defs internal_def error_statuses_def)

lemma DecodeJSON_status: "DecodeJSON r fs zero = Inl e \<Longrightarrow> ae_Status e \<in> error_statuses"
  using DecodeJSON_error [of r fs zero e] by (auto simp: error_statuses_def)

lemma conflictOrInternal_status [simp]: "ae_Status (conflictOrInternal e) \<in> error_statuses"
  by (simp add: conflictOrInternal_def split: store_error.split)

lemma pageError_status [simp]: "ae_Status (pageError e) \<in> error_statuses"
  by (simp add: pageError_def split: store_error.split)

lemma authenticate_status: "authenticate lib srv dr r s = Inl e \<Longrightarrow> ae_Status e \<in> error_statuses"
  by (auto simp: authenticate_def Let_def split: if_splits prod.splits sum.splits auth_error.splits store_error.splits)

lemma userByUsername_status: "userByUsername srv d r s = Inl e \<Longrightarrow> ae_Status e \<in> error_statuses"
  by (auto simp: userByUsername_def Let_def split: if_splits prod.splits sum.splits store_error.splits)

lemma pageRequest_status: "pageRequest r = Inl e \<Longrightarrow> ae_Status e \<in> error_statuses"
  by (auto simp: pageRequest_def Let_def split: if_splits option.splits)

lemma inspectUpload_status: "inspectUpload lib srv d key purpose = Some e \<Longrightarrow> ae_Status e \<in> error_statuses"
  by (auto simp: inspectUpload_def Let_def split: prod.splits option.splits upload_error.splits)

lemma claimUpload_status: "claimUpload lib srv dr me key purpose s = (Some e, s') \<Longrightarrow> ae_Status e \<in> error_statuses"
  by (auto simp: claimUpload_def on_store_def dest: inspectUpload_status
      split: prod.splits option.splits sum.splits store_error.splits)

lemmas status_rules = DecodeJSON_status authenticate_status userByUsername_status pageRequest_status
  inspectUpload_status claimUpload_status

section \<open>Every handler keeps it\<close>

lemma ok_handleRegister: "fresh_writer w \<Longrightarrow> api_ok (handleRegister lib srv dr r w s) w"
  by (auto simp: handleRegister_def success_statuses_def dest: status_rules split: sum.splits prod.splits if_splits)

lemma ok_handleLogin: "fresh_writer w \<Longrightarrow> api_ok (handleLogin lib srv dr r w s) w"
  by (auto simp: handleLogin_def Let_def success_statuses_def dest: status_rules
      split: sum.splits prod.splits if_splits store_error.splits)

lemma ok_handleRefresh: "fresh_writer w \<Longrightarrow> api_ok (handleRefresh lib srv dr r w s) w"
  by (auto simp: handleRefresh_def success_statuses_def dest: status_rules
      split: sum.splits prod.splits if_splits auth_error.splits)

lemma ok_handleLogout: "fresh_writer w \<Longrightarrow> api_ok (handleLogout lib srv dr r w s) w"
  by (auto simp: handleLogout_def dest: status_rules split: sum.splits prod.splits)

lemma ok_handleGetMe: "fresh_writer w \<Longrightarrow> api_ok (handleGetMe srv dr r w s) w"
  by (auto simp: handleGetMe_def with_current_user_def success_statuses_def split: option.splits)

lemma ok_handleUpdateMe: "fresh_writer w \<Longrightarrow> api_ok (handleUpdateMe lib srv dr r w s) w"
  by (auto simp: handleUpdateMe_def with_current_user_def success_statuses_def dest: status_rules
      split: option.splits sum.splits prod.splits if_splits)

lemma ok_handleGetUser: "fresh_writer w \<Longrightarrow> api_ok (handleGetUser srv dr r w s) w"
  by (auto simp: handleGetUser_def success_statuses_def dest: status_rules split: sum.splits)

lemma ok_answer_page: "fresh_writer w \<Longrightarrow> api_ok (answer_page srv res w s) w"
  by (auto simp: answer_page_def success_statuses_def split: sum.splits)

lemma ok_handleUserPosts: "fresh_writer w \<Longrightarrow> api_ok (handleUserPosts srv dr r w s) w"
  by (auto simp: handleUserPosts_def dest: status_rules intro: ok_answer_page split: sum.splits)

lemma ok_handleFeed: "fresh_writer w \<Longrightarrow> api_ok (handleFeed srv dr r w s) w"
  by (auto simp: handleFeed_def dest: status_rules intro: ok_answer_page split: sum.splits)

lemma ok_handleCreatePost: "fresh_writer w \<Longrightarrow> api_ok (handleCreatePost lib srv dr r w s) w"
  by (auto simp: handleCreatePost_def with_current_user_def success_statuses_def dest: status_rules
      split: option.splits sum.splits prod.splits if_splits)

lemma ok_handleGetPost: "fresh_writer w \<Longrightarrow> api_ok (handleGetPost srv dr r w s) w"
  by (auto simp: handleGetPost_def success_statuses_def split: sum.splits store_error.splits)

lemma ok_handleDeletePost: "fresh_writer w \<Longrightarrow> api_ok (handleDeletePost srv dr r w s) w"
  by (auto simp: handleDeletePost_def with_current_user_def split: option.splits sum.splits prod.splits store_error.splits)

lemma ok_handlePresign: "fresh_writer w \<Longrightarrow> api_ok (handlePresign lib srv dr r w s) w"
  by (auto simp: handlePresign_def Let_def with_current_user_def success_statuses_def dest: status_rules
      split: option.splits sum.splits prod.splits if_splits)

lemma ok_handleHealth: "fresh_writer w \<Longrightarrow> api_ok (handleHealth lib srv dr r w s) w"
  by (auto simp: handleHealth_def success_statuses_def)

lemma ok_handleReady: "fresh_writer w \<Longrightarrow> api_ok (handleReady lib srv dr r w s) w"
  by (auto simp: handleReady_def Let_def success_statuses_def)

lemma ok_handleUnmatched: "api_ok (handleUnmatched dr r w s) w"
  by (auto simp: handleUnmatched_def)

lemma sends_Write: "fresh_writer w \<Longrightarrow> sends 200 w (Write b w)"
  by (cases "wr_rec w") (auto simp: sends_def Write_rec fresh_writer_def)

lemma api_Answered: "code \<in> success_statuses \<Longrightarrow> sends code w w' \<Longrightarrow> api_ok (Answered, w', s) w"
  by (auto simp: api_ok_def)

lemma ok_handleDocs: "fresh_writer w \<Longrightarrow> api_ok (handleDocs dr r w s) w"
  unfolding handleDocs_def
  by (rule api_Answered [of 200], simp add: success_statuses_def) (rule sends_Header_Set, rule sends_Header_Set, rule sends_Write, simp)

lemma ok_handleOpenAPISpec: "fresh_writer w \<Longrightarrow> api_ok (handleOpenAPISpec lib dr r w s) w"
  unfolding handleOpenAPISpec_def
  by (rule api_Answered [of 200], simp add: success_statuses_def)
    (rule sends_Header_Set, rule sends_Header_Set, rule sends_Header_Set, rule sends_Write, simp)

lemmas handlers_ok = ok_handleRegister ok_handleLogin ok_handleRefresh ok_handleLogout ok_handleGetMe ok_handleUpdateMe
  ok_handleGetUser ok_handleUserPosts ok_handleFeed ok_handleCreatePost ok_handleGetPost ok_handleDeletePost
  ok_handlePresign ok_handleHealth ok_handleReady ok_handleUnmatched ok_handleDocs ok_handleOpenAPISpec

section \<open>The layers around the handlers\<close>

text \<open>What one handler, or every handler of a table, does.\<close>

definition keeps_http :: "('s, 'u) http_handler \<Rightarrow> bool" where
  "keeps_http h \<longleftrightarrow> (\<forall>dr r w s. fresh_writer w \<longrightarrow> http_ok (h dr r w s) w)"

lemma keeps_httpD: "keeps_http h \<Longrightarrow> fresh_writer w \<Longrightarrow> http_ok (h dr r w s) w"
  by (simp add: keeps_http_def)

lemma http_ok_sends: "code \<in> success_statuses \<union> error_statuses \<Longrightarrow> sends code w w' \<Longrightarrow> http_ok (Completed, w', s) w"
  by (auto simp: http_ok_def)

lemma nonzero_status: "code \<in> success_statuses \<union> error_statuses \<Longrightarrow> code \<noteq> 0"
  by (auto simp: success_statuses_def error_statuses_def)

lemma ServeHTTP_ok:
  assumes "api_ok (h dr r w s) w" "fresh_writer w"
  shows "http_ok (ServeHTTP h dr r w s) w"
proof -
  obtain v w' s' where h: "h dr r w s = (v, w', s')" by (cases "h dr r w s") auto
  show ?thesis
  proof (cases v)
    case Answered
    then show ?thesis using assms h by (auto simp: api_ok_def ServeHTTP_def intro: http_ok_sends)
  next
    case (Failed err)
    then obtain e where e: "err = APIErr e" "w' = w" "ae_Status e \<in> error_statuses"
      using assms h by (cases err) (auto simp: api_ok_def)
    have "sends (ae_Status e) w (writeRaw (ae_Status e) (mustEnvelope e) w)"
      using e nonzero_status assms by (intro sends_writeRaw) auto
    then show ?thesis using Failed h e
      by (auto simp: ServeHTTP_def WriteError_def AsAPIError_def intro: http_ok_sends)
  next
    case (Crashed msg)
    then show ?thesis using assms h by (simp add: api_ok_def ServeHTTP_def http_ok_def)
  qed
qed

lemma keeps_ServeHTTP: "(\<And>dr r w s. fresh_writer w \<Longrightarrow> api_ok (h dr r w s) w) \<Longrightarrow> keeps_http (ServeHTTP h)"
  by (simp add: keeps_http_def ServeHTTP_ok)

lemma keeps_protected: "(\<And>dr r w s. fresh_writer w \<Longrightarrow> api_ok (h dr r w s) w) \<Longrightarrow> keeps_http (protected lib srv h)"
  unfolding protected_def by (rule keeps_ServeHTTP) (auto dest: authenticate_status split: sum.split)

lemma sends_limited:
  "fresh_writer w \<Longrightarrow> sends 429 w (fst (WriteError r (APIErr ErrRateLimited) (Header_Set k v w) logs))"
  by (auto simp: WriteError_def AsAPIError_def ErrRateLimited_def Let_def intro!: sends_Header_Set [OF sends_writeRaw])

lemma keeps_limit: "keeps_http h \<Longrightarrow> keeps_http (limit_middleware rnd sel upd key h)"
  unfolding keeps_http_def limit_middleware_def
  by (auto simp: split_beta error_statuses_def intro!: http_ok_sends [of 429] sends_limited)

lemma keeps_Routes: "ro \<in> set (Routes lib srv) \<Longrightarrow> keeps_http (ro_handler ro)"
  by (auto simp: Routes_def Let_def route_def intro!: keeps_limit keeps_protected keeps_ServeHTTP handlers_ok split: if_splits)

lemma best_match_in:
  "best_match best rs m p = Some (q, vs, h) \<Longrightarrow> best = Some (q, vs, h) \<or> (\<exists>m. (m, q, h) \<in> set rs)"
  by (induction best rs m p rule: best_match.induct) (auto split: if_splits option.splits)

lemma sends_not_found: "fresh_writer w \<Longrightarrow> http_ok (not_found_page dr r w s) w"
  unfolding not_found_page_def
  by (cases "wr_rec w") (auto simp: http_ok_def sends_def Write_rec fresh_writer_def error_statuses_def)

lemma keeps_mux:
  assumes "\<And>m p h. (m, p, h) \<in> set rs \<Longrightarrow> keeps_http h"
  shows "keeps_http (serve_mux rs)"
  unfolding keeps_http_def serve_mux_def
  using assms by (auto dest!: best_match_in intro: keeps_httpD sends_not_found split: option.split)

lemma keeps_table: "keeps_http (serve_mux (mux_table (Routes lib srv)))"
  by (rule keeps_mux) (auto simp: mux_table_def intro: keeps_Routes keeps_ServeHTTP ok_handleUnmatched)

lemma http_ok_Header_Set: "http_ok res (Header_Set k v w) \<Longrightarrow> http_ok res w"
  by (auto simp: http_ok_def sends_def split: prod.splits outcome.splits)

lemma ok_preflight: "fresh_writer w \<Longrightarrow> http_ok (Completed, WriteHeader 204 w, s) w"
  using sends_NoContent [of w] by (auto simp: NoContent_def success_statuses_def intro: http_ok_sends)

lemma keeps_headers: "keeps_http h \<Longrightarrow> fresh_writer w \<Longrightarrow> http_ok (h dr r (Header_Set k v (Header_Set k' v' w)) s) w"
  by (rule http_ok_Header_Set [of _ k' v'], rule http_ok_Header_Set [of _ k v], rule keeps_httpD) auto

lemma keeps_CORS: "keeps_http h \<Longrightarrow> keeps_http (WithCORS h)"
  unfolding keeps_http_def [of "WithCORS h"] WithCORS_def Let_def
  apply (intro allI impI)
  subgoal for dr r w s
    apply (cases "rq_Method r = MethodOptions \<and> rq_Header r ''Access-Control-Request-Method'' \<noteq> []")
     apply (simp only: if_True simp_thms)
     apply (rule http_ok_Header_Set, rule http_ok_Header_Set, rule http_ok_Header_Set, rule http_ok_Header_Set,
        rule http_ok_Header_Set, rule ok_preflight, simp)
    apply (simp only: if_False)
    apply (erule (1) keeps_headers)
    done
  done

section \<open>The whole chain\<close>

text \<open>With logging: the line of the log carries the status and the length of what was sent.\<close>

lemma Logging_ok:
  assumes "keeps_http h" "fresh_writer w" "wr_rec w = None" "WithLogging h dr r w s = (oc, w', s')"
  shows "http_ok (oc, w', s') w"
    and "oc = Completed \<Longrightarrow> \<exists>b elapsed. wr_Body w' = wr_Body w @ b \<and>
      wd_log s' = wd_log (snd (snd (h (next_draws dr) r (w\<lparr>wr_rec := Some (0, 0)\<rparr>) s))) @ [request_log r (wr_Status w') (length b) elapsed]"
proof -
  obtain oc1 w1 s1 where h: "h (next_draws dr) r (w\<lparr>wr_rec := Some (0, 0)\<rparr>) s = (oc1, w1, s1)"
    by (cases "h (next_draws dr) r (w\<lparr>wr_rec := Some (0, 0)\<rparr>) s") auto
  have "fresh_writer (w\<lparr>wr_rec := Some (0, 0)\<rparr>)" using assms(2) by (simp add: fresh_writer_def)
  from keeps_httpD [OF assms(1) this] have ok: "http_ok (oc1, w1, s1) (w\<lparr>wr_rec := Some (0, 0)\<rparr>)"
    unfolding h [symmetric] .
  show "http_ok (oc, w', s') w"
  proof (cases oc1)
    case Completed
    then show ?thesis using assms(3,4) ok h
      by (auto simp: WithLogging_def http_ok_def sends_def split: prod.splits)
  next
    case (Panicked msg)
    then show ?thesis using assms(3,4) ok h
      by (auto simp: WithLogging_def http_ok_def fresh_writer_def)
  qed
  assume "oc = Completed"
  then have "oc1 = Completed" using assms(4) h by (cases oc1) (auto simp: WithLogging_def)
  then obtain code where "code \<in> success_statuses \<union> error_statuses" "sends code (w\<lparr>wr_rec := Some (0, 0)\<rparr>) w1"
    using ok by (auto simp: http_ok_def)
  then obtain b where b: "wr_Status w1 = code" "wr_Body w1 = wr_Body w @ b" "wr_rec w1 = Some (code, length b)" "code \<noteq> 0"
    using nonzero_status by (auto simp: sends_def)
  show "\<exists>b elapsed. wr_Body w' = wr_Body w @ b \<and>
      wd_log s' = wd_log (snd (snd (h (next_draws dr) r (w\<lparr>wr_rec := Some (0, 0)\<rparr>) s))) @ [request_log r (wr_Status w') (length b) elapsed]"
    using assms(4) b \<open>oc1 = Completed\<close> unfolding WithLogging_def h
    by (intro exI [of _ b]) (auto simp: log_entry_def)
qed

end
