(* ===== verification/ApiProps.thy ===== *)
theory ApiProps
  imports Contract SessionProps StoreProps
begin

text \<open>
  What the HTTP API guarantees as a whole: requests through the complete chain of middleware and
  routes, and the handlers over the stores.
\<close>

section \<open>Every request is answered and logged as sent\<close>

definition request_ident :: "(nat \<Rightarrow> Draw) \<Rightarrow> 'u Request \<Rightarrow> gostring" where
  "request_ident dr r =
     (if rq_Header r ''X-Request-Id'' = [] then hex_encode (rand_bytes (own_draw dr 0) 8) else rq_Header r ''X-Request-Id'')"

lemma keeps_inner: "keeps_http (WithCORS (limit_middleware rnd sel upd key (serve_mux (mux_table (Routes lib srv)))))"
  by (intro keeps_CORS keeps_limit keeps_table)

lemma Recovery_ok:
  assumes "keeps_http h" "wr_Status w = 0" "wr_rec w = None" "wr_Body w = []"
  shows "\<exists>w' s'. WithRecovery (WithLogging h) dr r w s = (Completed, w', s') \<and> wr_Status w' \<in> success_statuses \<union> error_statuses \<and>
    ((\<exists>elapsed. last (wd_log s') = request_log r (wr_Status w') (length (wr_Body w')) elapsed) \<or>
     (wr_Status w' = 500 \<and> wr_Body w' = mustEnvelope panic_error \<and> (\<exists>msg. last (wd_log s') = panic_log r msg)))"
proof -
  have fresh: "fresh_writer w" using assms by (simp add: fresh_writer_def)
  obtain oc w1 s1 where l: "WithLogging h dr r w s = (oc, w1, s1)" by (cases "WithLogging h dr r w s") auto
  show ?thesis
  proof (cases oc)
    case Completed
    with Logging_ok [OF assms(1) fresh assms(3) l] obtain b elapsed where
      "wr_Body w1 = b" "last (wd_log s1) = request_log r (wr_Status w1) (length b) elapsed" "http_ok (oc, w1, s1) w"
      using assms(4) by auto
    then show ?thesis using l Completed by (auto simp: WithRecovery_def http_ok_def sends_def)
  next
    case (Panicked msg)
    with Logging_ok(1) [OF assms(1) fresh assms(3) l] have "wr_Status w1 = 0" "wr_Body w1 = []"
      using assms(4) by (auto simp: http_ok_def fresh_writer_def)
    then show ?thesis using l Panicked by (auto simp: WithRecovery_def log_entry_def error_statuses_def)
  qed
qed


end
