(* ===== verification/HandlerLaws.thy ===== *)
theory HandlerLaws
  imports Handlers PostgresLaws SessionLaws
begin

text \<open>
  What the handlers' building blocks do over the Postgres store: validated input satisfies the
  schema, a session starts for a stored user, an upload is claimed.
\<close>

section \<open>Small bodies\<close>

text \<open>A body below the size limit that is one JSON object and has no content type.\<close>

lemma DecodeJSON_small:
  assumes "rq_Header r ''Content-Type'' = []" and "length (rq_Body r) < 10000" and "read_value (rq_Body r) False = FValue raw []"
    and "unmarshal_struct fs zero raw = Decoded x"
  shows "DecodeJSON r fs zero = Inr x"
proof -
  have "read_value [] False = FEOF"
    by (simp add: read_value_def is_ws_def)
  then show ?thesis
    using assms by (simp add: DecodeJSON_def maxBodyBytes_def Let_def)
qed

section \<open>The validators and the schema agree\<close>

lemma byte_at_append: "byte_at s i \<noteq> 0 \<Longrightarrow> i < length s \<and> byte_at (s @ t) i = byte_at s i"
  by (simp add: byte_at_def nth_append split: if_splits)

lemma decode_rune_append:
  assumes "decode_rune s = (r, n)" and "s \<noteq> []" and "\<not> (r = rune_error \<and> n = 1)"
  shows "n \<le> length s \<and> decode_rune (s @ t) = (r, n)"
proof -
  have b0: "byte_at (s @ t) 0 = byte_at s 0" "0 < length s"
    using assms(2) by (simp_all add: byte_at_def nth_append)
  have b: "i < length s \<and> byte_at (s @ t) i = byte_at s i" if "in_range lo hi (byte_at s i)" "0 < lo" for lo hi i
    using byte_at_append [of s i t] that by (auto simp: in_range_def)
  consider "byte_at s 0 < 0x80" "(r, n) = (byte_at s 0, 1)"
    | "\<not> byte_at s 0 < 0x80" "in_range 0xC2 0xDF (byte_at s 0)" "in_range 0x80 0xBF (byte_at s 1)"
      "(r, n) = ((byte_at s 0 - 0xC0) * 64 + (byte_at s 1 - 0x80), 2)"
    | "\<not> byte_at s 0 < 0x80" "\<not> in_range 0xC2 0xDF (byte_at s 0)" "in_range 0xE0 0xEF (byte_at s 0)"
      "in_range (if byte_at s 0 = 0xE0 then 0xA0 else 0x80) (if byte_at s 0 = 0xED then 0x9F else 0xBF) (byte_at s 1)"
      "in_range 0x80 0xBF (byte_at s 2)" "(r, n) = ((byte_at s 0 - 0xE0) * 4096 + (byte_at s 1 - 0x80) * 64 + (byte_at s 2 - 0x80), 3)"
    | "\<not> byte_at s 0 < 0x80" "\<not> in_range 0xC2 0xDF (byte_at s 0)" "\<not> in_range 0xE0 0xEF (byte_at s 0)" "in_range 0xF0 0xF4 (byte_at s 0)"
      "in_range (if byte_at s 0 = 0xF0 then 0x90 else 0x80) (if byte_at s 0 = 0xF4 then 0x8F else 0xBF) (byte_at s 1)"
      "in_range 0x80 0xBF (byte_at s 2)" "in_range 0x80 0xBF (byte_at s 3)"
      "(r, n) = ((byte_at s 0 - 0xF0) * 262144 + (byte_at s 1 - 0x80) * 4096 + (byte_at s 2 - 0x80) * 64 + (byte_at s 3 - 0x80), 4)"
    using assms(1,3) by (auto simp: decode_rune_def Let_def in_range_def split: if_splits)
  then show ?thesis
  proof cases
    case 1
    then show ?thesis using b0 by (simp add: decode_rune_def Suc_le_eq)
  next
    case 2
    then show ?thesis using b0(1) b [OF 2(3)] by (simp add: decode_rune_def)
  next
    case 3
    have "0 < (if byte_at s 0 = 0xE0 then 0xA0 else 0x80 :: nat)" by simp
    from b [OF 3(4) this] b [OF 3(5)] 3 b0(1) show ?thesis by (simp add: decode_rune_def del: split_paired_All)
  next
    case 4
    have "0 < (if byte_at s 0 = 0xF0 then 0x90 else 0x80 :: nat)" by simp
    from b [OF 4(5) this] b [OF 4(6)] b [OF 4(7)] 4 b0(1) show ?thesis by (simp add: decode_rune_def)
  qed
qed

lemma runes_append: "list_all valid_rune (runes s) \<Longrightarrow> runes (s @ t) = runes s @ runes t"
proof (induction s rule: runes.induct)
  case (2 b bs)
  obtain r n where rn: "decode_rune (b # bs) = (r, n)" by fastforce
  have n: "1 \<le> n" using decode_rune_width [of "b # bs"] rn by simp
  have "valid_rune (r, take n (b # bs))" "list_all valid_rune (runes (drop (n - 1) bs))"
    using "2.prems" rn by simp_all
  moreover have "\<not> (r = rune_error \<and> n = 1)"
    using calculation(1) by (auto simp: valid_rune_def)
  ultimately have d: "n \<le> Suc (length bs)" "decode_rune (b # bs @ t) = (r, n)"
    and ih: "runes (drop (n - 1) bs @ t) = runes (drop (n - 1) bs) @ runes t"
    using decode_rune_append [OF rn, of t] "2.IH" [OF rn [symmetric] refl] by auto
  have "take n (b # bs @ t) = take n (b # bs)" "drop (n - 1) (bs @ t) = drop (n - 1) bs @ t"
    using d(1) n by (simp_all add: take_Cons')
  then show ?case
    using rn d(2) ih by simp
qed simp

lemma cut_split: "cut sep s = (a, b, True) \<Longrightarrow> s = a @ sep # b"
  by (induction s arbitrary: a) (auto split: if_splits prod.splits)

lemma address_length:
  assumes "is_bare_address s"
  shows "3 \<le> rune_count s"
proof -
  obtain l d found where c: "cut CHR ''@'' s = (l, d, found)" by (cases "cut CHR ''@'' s") auto
  then have s: "s = l @ CHR ''@'' # d" and l: "dot_atom l" and d: "d \<noteq> []"
    using assms cut_split [of "CHR ''@''" s l d] by (auto simp: is_bare_address_def dot_atom_def domain_literal_def)
  have "list_all valid_rune (runes l)" "l \<noteq> []"
    using l by (auto simp: dot_atom_def list_all_iff)
  then have "runes s = runes l @ runes (CHR ''@'' # d)"
    unfolding s by (intro runes_append)
  also have "runes (CHR ''@'' # d) = (64, ''@'') # runes d"
    by (subst runes_ascii_Cons) simp_all
  finally show ?thesis
    using rune_count_pos [OF \<open>l \<noteq> []\<close>] rune_count_pos [OF d] by (simp add: rune_count_def)
qed

lemma validate_registerD:
  assumes "validate_register uni req = ((email, username, displayName), [])"
  shows "email = to_lower uni (trim_space (rr_Email req))" "username = trim_space (rr_Username req)"
    "displayName = trim_space (rr_DisplayName req)"
    and "is_bare_address email" "length email \<le> 254" "usernamePattern username" "3 \<le> length username" "length username \<le> 30"
    "1 \<le> rune_count displayName" "rune_count displayName \<le> 50" "8 \<le> length (rr_Password req)" "length (rr_Password req) \<le> 128"
proof -
  obtain e1 e2 e3 p where v: "Email uni [] ''email'' (rr_Email req) = (email, e1)"
    "Username e1 ''username'' (rr_Username req) = (username, e2)" "DisplayName e2 ''displayName'' (rr_DisplayName req) = (displayName, e3)"
    "Password e3 ''password'' (rr_Password req) = (p, [])"
    using assms by (auto simp: validate_register_def Let_def split: prod.splits)
  have n: "e3 = []" "8 \<le> length (rr_Password req)" "length (rr_Password req) \<le> 128"
    using Password_ok_iff [of e3 "''password''" "rr_Password req"] v(4) by simp_all
  then have d: "e2 = []" "1 \<le> rune_count displayName" "rune_count displayName \<le> 50"
    using DisplayName_ok_iff [of e2 "''displayName''" "rr_DisplayName req"] v(3) by simp_all
  then have u: "e1 = []" "3 \<le> length username" "length username \<le> 30" "usernamePattern username"
    using Username_ok_iff [of e1 "''username''" "rr_Username req"] v(2) by simp_all
  then have e: "length email \<le> 254" "is_bare_address email"
    using Email_ok_iff [of uni "[]" "''email''" "rr_Email req"] v(1) by simp_all
  show "email = to_lower uni (trim_space (rr_Email req))" "username = trim_space (rr_Username req)"
    "displayName = trim_space (rr_DisplayName req)"
    using v by (simp_all add: validator_defs Let_def)
  show "is_bare_address email" "length email \<le> 254" "usernamePattern username" "3 \<le> length username" "length username \<le> 30"
    "1 \<le> rune_count displayName" "rune_count displayName \<le> 50" "8 \<le> length (rr_Password req)" "length (rr_Password req) \<le> 128"
    using n d u e by simp_all
qed

lemma username_pattern_char:
  "in_range 97 122 (of_char c) \<or> in_range 48 57 (of_char c) \<or> c = CHR ''_'' \<Longrightarrow> username_char c"
  by (auto simp: username_char_def in_range_def less_eq_char_def)

lemma validated_admits:
  assumes v: "validate_register uni req = ((email, username, displayName), [])" and "pg_lower pl email = email"
  shows "pg_admits pl \<lparr>nu_Email = email, nu_Username = username, nu_DisplayName = displayName, nu_PasswordHash = h\<rparr>"
proof -
  note d = validate_registerD [OF v]
  have "list_all username_char username"
    using d(6) unfolding usernamePattern_def list_all_iff by (blast intro: username_pattern_char)
  moreover have "rune_count email \<le> 254"
    using rune_count_le_length [of email] d(5) by simp
  ultimately show ?thesis
    using d address_length [OF d(4)] assms(2) by (simp add: pg_admits_def)
qed

section \<open>The fields of an update\<close>

lemma update_of_accepted:
  assumes "update_of req = (upd, [])"
  shows "uu_DisplayName upd =
      (if opt_Present (um_DisplayName req) then Some (trim_space (opt_Value (um_DisplayName req))) else None)"
    and "uu_Bio upd =
      (if \<not> opt_Present (um_Bio req) then None else if opt_Null (um_Bio req) then Some []
       else Some (trim_space (opt_Value (um_Bio req))))"
    and "uu_ClearAvatar upd = (opt_Present (um_AvatarKey req) \<and> opt_Null (um_AvatarKey req))"
    and "uu_AvatarKey upd =
      (if opt_Present (um_AvatarKey req) \<and> \<not> opt_Null (um_AvatarKey req) then Some (opt_Value (um_AvatarKey req)) else None)"
    and "pg_admits_update upd"
proof -
  let ?dn = "um_DisplayName req" and ?bio = "um_Bio req" and ?av = "um_AvatarKey req"
  obtain name e1 where n: "(if \<not> opt_Present ?dn then (None, [])
             else if opt_Null ?dn then (None, Errors_Add ''displayName'' ''is required'' [])
             else (case DisplayName [] ''displayName'' (opt_Value ?dn) of (name, e) \<Rightarrow> (Some name, e))) = (name, e1)"
    by fastforce
  obtain b e2 where b: "(if \<not> opt_Present ?bio then (None, e1)
             else if opt_Null ?bio then (Some [], e1)
             else (case Bio e1 ''bio'' (opt_Value ?bio) of (b, e) \<Rightarrow> (Some b, e))) = (b, e2)"
    by fastforce
  obtain clear key e3 where k: "(if \<not> opt_Present ?av then (False, None, e2)
             else if opt_Null ?av then (True, None, e2)
             else if opt_Value ?av = [] then
               (False, None, Errors_Add ''avatarKey'' ''must not be empty; send null to remove the avatar'' e2)
             else (False, Some (opt_Value ?av), e2)) = (clear, key, e3)"
    by metis
  have upd: "upd = \<lparr>uu_DisplayName = name, uu_Bio = b, uu_AvatarKey = key, uu_ClearAvatar = clear\<rparr>" "e3 = []"
    using assms unfolding update_of_def Let_def n prod.case b k by simp_all
  have e2: "e2 = []" using k upd(2) by (auto split: if_splits)
  have e1: "e1 = []" using b e2 Bio_ok_iff [of e1 "''bio''" "opt_Value ?bio"] by (auto split: if_splits prod.splits)
  have name: "name = (if opt_Present ?dn then Some (trim_space (opt_Value ?dn)) else None)"
    "case name of None \<Rightarrow> True | Some n \<Rightarrow> 1 \<le> rune_count n \<and> rune_count n \<le> 50"
    using n e1 DisplayName_ok_iff [of "[]" "''displayName''" "opt_Value ?dn"]
    by (auto simp: DisplayName_def Let_def split: if_splits prod.splits)
  have bio: "b = (if \<not> opt_Present ?bio then None else if opt_Null ?bio then Some [] else Some (trim_space (opt_Value ?bio)))"
    "case b of None \<Rightarrow> True | Some n \<Rightarrow> rune_count n \<le> 160"
    using b e1 e2 Bio_ok_iff [of "[]" "''bio''" "opt_Value ?bio"]
    by (auto simp: Bio_def Let_def split: if_splits prod.splits)
  show "uu_DisplayName upd =
      (if opt_Present (um_DisplayName req) then Some (trim_space (opt_Value (um_DisplayName req))) else None)"
    "uu_Bio upd = (if \<not> opt_Present ?bio then None else if opt_Null ?bio then Some [] else Some (trim_space (opt_Value ?bio)))"
    "uu_ClearAvatar upd = (opt_Present ?av \<and> opt_Null ?av)"
    "uu_AvatarKey upd = (if opt_Present ?av \<and> \<not> opt_Null ?av then Some (opt_Value ?av) else None)"
    "pg_admits_update upd"
    using name bio k upd by (auto simp: pg_admits_update_def split: if_splits)
qed

section \<open>Sessions and uploads\<close>

text \<open>Starting a session for a user the database has.\<close>

lemma start_pg:
  assumes "pg_inv pl db" "\<forall>k. pg_ok pl (dr k)" "sv_tokens sv = pg_Tokens pl" "pg_users db userID \<noteq> None"
    and "fresh_draws (pg_toks db) dr" "IssueAccess jw (sv_issuer sv) (dr 0) userID = Inr (a, x)"
  obtains db' c where
    "Start jw sv dr userID db =
       (Inr \<lparr>ss_UserID = userID, ss_AccessToken = a, ss_RefreshToken = fst (NewRefreshToken (dr 1)), ss_AccessExpiresAt = x\<rparr>, db')"
    "pg_inv pl db'" "db'\<lparr>t_tokens := []\<rparr> = db\<lparr>t_tokens := []\<rparr>"
    "pg_toks db' = (pg_toks db)(NewID (dr 3) := Some (stored_token (pg_timestamptz pl) sv dr userID (NewID (dr 5)) c))"
proof -
  have "user_exists (db\<lparr>t_tokens := []\<rparr>) userID"
    using assms(4) by (auto simp: user_exists_def pg_users_def keyed_def find_None_all)
  from pg_tok.issue_ok [OF assms(1,2,3) this assms(5,6), of "NewID (dr 5)"] that show thesis
    unfolding Start_def by blast
qed

text \<open>
  A claim through the handler: either an error and nothing changed, or the key was the caller's,
  of the purpose and unattached, its object passed the inspection, and now it is attached.
\<close>

lemma claim_pg:
  assumes inv: "pg_inv pl (wd_store s)" and ok: "\<forall>k. pg_ok pl (dr k)" and srv: "st_Uploads (sr_store srv) = pg_Uploads pl"
    and run: "claimUpload lib srv dr me key purpose s = (err, s')"
  shows "case err of
      Some e \<Rightarrow> s' = s
    | None \<Rightarrow> inspectUpload lib srv (dr 0) key purpose = None \<and>
        (\<exists>u db. pg_upls (wd_store s) key = Some u \<and> ul_UserID u = u_ID me \<and> ul_Purpose u = purpose \<and> ul_AttachedAt u = None
          \<and> s' = s\<lparr>wd_store := db\<rparr> \<and> pg_inv pl db \<and> db\<lparr>t_uploads := []\<rparr> = (wd_store s)\<lparr>t_uploads := []\<rparr>
          \<and> pg_upls db = (pg_upls (wd_store s))(key := Some (u\<lparr>ul_AttachedAt := Some (pg_timestamptz pl (d_now (dr 1)))\<rparr>)))"
proof (cases "inspectUpload lib srv (dr 0) key purpose")
  case (Some e)
  then have "err = Some e" "s' = s" using run by (simp_all add: claimUpload_def)
  then show ?thesis by simp
next
  case None
  let ?db = "wd_store s" and ?claim = "up_Claim (pg_Uploads pl) (dr 2) key (u_ID me) purpose (d_now (dr 1))"
  have run': "claimUpload lib srv dr me key purpose s =
     (case ?claim ?db of
        (Inr _, db) \<Rightarrow> (None, s\<lparr>wd_store := db\<rparr>)
      | (Inl ErrNotFound, db) \<Rightarrow>
          (Some (ErrValidation ''That upload could not be found. It may have expired.''
             [(keyFieldFor purpose, ''is not a valid upload key'')]), s\<lparr>wd_store := db\<rparr>)
      | (Inl ErrForbidden, db) \<Rightarrow> (Some (APIForbidden ''That upload cannot be used here.''), s\<lparr>wd_store := db\<rparr>)
      | (Inl e, db) \<Rightarrow> (Some (internal e), s\<lparr>wd_store := db\<rparr>))"
    by (auto simp: claimUpload_def None srv on_store_def split: prod.splits sum.splits store_error.splits)
  consider (missing) "pg_upls ?db key = None"
    | (other) u where "pg_upls ?db key = Some u" "\<not> (ul_UserID u = u_ID me \<and> ul_Purpose u = purpose \<and> ul_AttachedAt u = None)"
    | (mine) u where "pg_upls ?db key = Some u" "ul_UserID u = u_ID me" "ul_Purpose u = purpose" "ul_AttachedAt u = None"
    by (cases "pg_upls ?db key") auto
  then show ?thesis
  proof cases
    case missing
    have "?claim ?db = (Inl ErrNotFound, ?db)"
      using pg_upl.Claim_missing [OF inv _ missing] ok by blast
    then show ?thesis using run unfolding run' by auto
  next
    case other
    have "?claim ?db = (Inl ErrForbidden, ?db)"
      using pg_upl.Claim_forbidden [OF inv _ other(1)] other(2) ok by blast
    then show ?thesis using run unfolding run' by auto
  next
    case mine
    obtain db where db: "?claim ?db = (Inr (), db)" "pg_inv pl db" "db\<lparr>t_uploads := []\<rparr> = ?db\<lparr>t_uploads := []\<rparr>"
      "pg_upls db = (pg_upls ?db)(key := Some (u\<lparr>ul_AttachedAt := Some (pg_timestamptz pl (d_now (dr 1)))\<rparr>))"
      using pg_upl.Claim_ok [OF inv _ mine] ok by blast
    then show ?thesis using run None mine unfolding run' by auto
  qed
qed

text \<open>An upload the user may attach for the purpose.\<close>

definition unused_upload :: "PgDB \<Rightarrow> gostring \<Rightarrow> gostring \<Rightarrow> gostring \<Rightarrow> bool" where
  "unused_upload db key userID purpose \<longleftrightarrow>
     (\<exists>up. pg_upls db key = Some up \<and> ul_UserID up = userID \<and> ul_Purpose up = purpose \<and> ul_AttachedAt up = None)"

text \<open>The optional claim both handlers make before they write.\<close>

definition claim_first ::
    "Lib \<Rightarrow> 's Server \<Rightarrow> (nat \<Rightarrow> Draw) \<Rightarrow> User \<Rightarrow> gostring option \<Rightarrow> gostring \<Rightarrow> 's World \<Rightarrow> APIError option \<times> 's World" where
  "claim_first lib srv dr me key purpose s =
     (case key of None \<Rightarrow> (None, s) | Some key \<Rightarrow> claimUpload lib srv dr me key purpose s)"

lemma claim_first_pg:
  assumes inv: "pg_inv pl (wd_store s)" and ok: "\<forall>k. pg_ok pl (dr k)" and srv: "sr_store srv = pg_Store pl lp"
    and run: "claim_first lib srv dr me key purpose s = (err, s')"
  obtains (rejected) e where "err = Some e" "s' = s" "key \<noteq> None"
    | (claimed) db where "err = None" "s' = s\<lparr>wd_store := db\<rparr>" "pg_inv pl db" "db\<lparr>t_uploads := []\<rparr> = (wd_store s)\<lparr>t_uploads := []\<rparr>"
        "\<And>k. key = Some k \<Longrightarrow> unused_upload (wd_store s) k (u_ID me) purpose \<and> \<not> unused_upload db k (u_ID me) purpose"
        "key = None \<Longrightarrow> db = wd_store s"
proof (cases key)
  case None
  then have "err = None" "s' = s\<lparr>wd_store := wd_store s\<rparr>"
    using run by (simp_all add: claim_first_def)
  then show thesis using claimed [of "wd_store s"] inv None by simp
next
  case (Some k)
  have "claimUpload lib srv dr me k purpose s = (err, s')" "st_Uploads (sr_store srv) = pg_Uploads pl"
    using run Some srv by (simp_all add: claim_first_def)
  note c = claim_pg [OF inv ok this(2,1)]
  show thesis
  proof (cases err)
    case None
    then obtain u db where "pg_upls (wd_store s) k = Some u" "ul_UserID u = u_ID me" "ul_Purpose u = purpose" "ul_AttachedAt u = None"
      "s' = s\<lparr>wd_store := db\<rparr>" "pg_inv pl db" "db\<lparr>t_uploads := []\<rparr> = (wd_store s)\<lparr>t_uploads := []\<rparr>"
      "pg_upls db = (pg_upls (wd_store s))(k := Some (u\<lparr>ul_AttachedAt := Some (pg_timestamptz pl (d_now (dr 1)))\<rparr>))"
      using c by auto
    then show thesis using claimed [of db] None Some by (simp add: unused_upload_def)
  next
    case (Some e)
    then show thesis using rejected c \<open>key = Some k\<close> by simp
  qed
qed

lemma frame_tables:
  "db\<lparr>t_uploads := []\<rparr> = db0\<lparr>t_uploads := []\<rparr> \<Longrightarrow>
     t_users db = t_users db0 \<and> t_posts db = t_posts db0 \<and> t_tokens db = t_tokens db0 \<and> pg_users db = pg_users db0"
  by (drule arg_cong [of _ _ "\<lambda>d. (t_users d, t_posts d, t_tokens d)"]) (simp add: pg_users_def fun_eq_iff)

end
