(* ===== verification/ApiInputs.thy ===== *)
theory ApiInputs
  imports HandlerLaws SessionProps StoreProps OpsProps
begin

text \<open>
  A concrete server over a small database, for the applications of the theorems on handlers.
\<close>

section \<open>Concrete inputs\<close>

text \<open>Libraries for the examples: a transparent hash, a signer that always signs.\<close>

definition ax_bcrypt :: BcryptLib where
  "ax_bcrypt = \<lparr>bc_GenerateFromPassword = (\<lambda>p _ _. Inr p), bc_CompareHashAndPassword = (\<lambda>h p. h = p)\<rparr>"

definition ax_lib :: Lib where
  "ax_lib = \<lparr>lb_uni = (\<lambda>r. r), lb_rnd = (\<lambda>x. x), lb_bcrypt = ax_bcrypt, lb_jwt = ex_jwt, lb_s3 = op_s3,
     lb_build = \<lparr>bi_version = ''1'', bi_ReadBuildInfo = None, bi_runtime_Version = ''go1''\<rparr>, lb_openAPI = []\<rparr>"

definition ax_srv :: "PgDB Server" where
  "ax_srv = \<lparr>sr_cfg = undefined, sr_store = pg_Store sp_pl (\<lambda>_. None),
     sr_sessions = NewService (pg_Tokens sp_pl) ex_issuer (30 * 24 * hour), sr_issuer = ex_issuer,
     sr_presigner = op_presigner, sr_startedAt = 0\<rparr>"

definition ax_world :: "PgDB World" where
  "ax_world = \<lparr>wd_store = sp_db, wd_limiter = NewRateLimiter (\<lambda>x. x) 1 1, wd_authLimiter = NewRateLimiter (\<lambda>x. x) 1 1, wd_log = []\<rparr>"

definition ax_request :: "gostring \<Rightarrow> User Request" where
  "ax_request body = \<lparr>rq_Method = MethodPost, rq_Path = [], rq_Query = (\<lambda>_. []), rq_Header = (\<lambda>_. []), rq_Body = body,
     rq_RemoteAddr = ''10.0.0.1:1'', rq_PathValue = (\<lambda>_. []), rq_requestID = [], rq_currentUser = Some sp_user\<rparr>"

definition quoted :: "gostring \<Rightarrow> gostring" where
  "quoted s = dquote # s @ [dquote]"

lemma ax_sel [simp]:
  "sr_store ax_srv = pg_Store sp_pl (\<lambda>_. None)" "sv_tokens (sr_sessions ax_srv) = pg_Tokens sp_pl" "wd_store ax_world = sp_db"
  "lb_uni ax_lib = (\<lambda>r. r)" "lb_bcrypt ax_lib = ax_bcrypt" "lb_jwt ax_lib = ex_jwt" "rq_currentUser (ax_request b) = Some sp_user"
  by (simp_all add: ax_srv_def ax_world_def ax_lib_def ax_request_def NewService_def)

lemma ax_sign: "IssueAccess ex_jwt (sv_issuer (sr_sessions ax_srv)) sp_draw uid = Inr (''jwt'', hour + 15 * minute)"
  by (simp add: IssueAccess_def ex_jwt_def ax_srv_def NewService_def ex_issuer_def NewTokenIssuer_def sp_draw_def)

lemma ax_hash: "HashPassword ax_bcrypt d p = Inr p"
  by (simp add: HashPassword_def ax_bcrypt_def)

lemma sp_no_tokens: "pg_toks sp_db = (\<lambda>_. None)"
  by (simp add: sp_db_def keyed_def fun_eq_iff)

lemma sp_new_user: "pg_users sp_db (NewID d) = None"
proof -
  have "NewID d \<noteq> ''u1''"
    by (rule notI) (use length_NewID [of d] in simp)
  then show ?thesis by (simp add: sp_rows)
qed

text \<open>Every object in the example storage is a PNG of 400 by 400 pixels.\<close>

lemma ax_png: "normaliseContentType uni ''image/png'' = ''image/png''"
proof -
  have a: "is_ascii ''image/png''"
    by (simp add: is_ascii_def)
  have "trim_space ''image/png'' = ''image/png''"
    using a by (simp add: trim_space_id is_space_def in_range_def)
  moreover have "map lower_byte ''image/png'' = ''image/png''"
    by code_simp
  ultimately show ?thesis
    using a by (simp add: normaliseContentType_def)
qed

lemma ax_inspect: "purpose \<in> {PurposeAvatar, PurposePost} \<Longrightarrow> inspectUpload ax_lib ax_srv d key purpose = None"
  by (auto simp: inspectUpload_def Let_def Inspect_def DecodeHeader_def ax_lib_def op_s3_def contentTypeForFormat_def ax_png
      Check_def ConstraintsFor_def constraintsByPurpose_def PurposeAvatar_def PurposePost_def)

end
