(* ===== verification/AccountProps.thy ===== *)
theory AccountProps
  imports ApiInputs
begin

text \<open>
  Accounts through the handlers over the Postgres store: what registration stores and what a
  login reveals.
\<close>

section \<open>Registration\<close>

lemma session_started:
  assumes inv: "pg_inv pl db0" and ok: "\<forall>k. pg_ok pl (dr k)" and sv: "sv_tokens sv = pg_Tokens pl" and known: "pg_users db0 uid \<noteq> None"
    and fresh: "fresh_draws (pg_toks db0) (shift_draws 2 dr)" and sign: "IssueAccess jw (sv_issuer sv) (dr 2) uid = Inr (a, x)"
  obtains session db token where "Start jw sv (shift_draws 2 dr) uid db0 = (Inr session, db)" "pg_inv pl db"
    "db\<lparr>t_tokens := []\<rparr> = db0\<lparr>t_tokens := []\<rparr>" "pg_toks db = (pg_toks db0)(rt_ID token := Some token)" "rt_UserID token = uid" "live token"
proof -
  have ok': "\<forall>k. pg_ok pl (shift_draws 2 dr k)" and sign': "IssueAccess jw (sv_issuer sv) (shift_draws 2 dr 0) uid = Inr (a, x)"
    using ok sign by (simp_all add: shift_draws_def)
  from start_pg [OF inv ok' sv known fresh sign'] obtain db session c where
    st: "Start jw sv (shift_draws 2 dr) uid db0 = (Inr session, db)" "pg_inv pl db" "db\<lparr>t_tokens := []\<rparr> = db0\<lparr>t_tokens := []\<rparr>"
    "pg_toks db = (pg_toks db0)(NewID (shift_draws 2 dr 3) :=
       Some (stored_token (pg_timestamptz pl) sv (shift_draws 2 dr) uid (NewID (shift_draws 2 dr 5)) c))"
    by metis
  then show thesis
    by (intro that [of session db "stored_token (pg_timestamptz pl) sv (shift_draws 2 dr) uid (NewID (shift_draws 2 dr 5)) c"]) simp_all
qed

lemma register_run:
  assumes srv: "sr_store srv = pg_Store pl lp" and decode: "DecodeJSON r register_fields zero_register = Inr req"
    and valid: "validate_register (lb_uni lib) req = ((email, username, displayName), [])"
    and hash: "HashPassword (lb_bcrypt lib) (dr 0) (rr_Password req) = Inr h"
  shows "handleRegister lib srv dr r w s =
     (case on_store (us_Create (pg_Users pl) (dr 1)
             \<lparr>nu_Email = email, nu_Username = username, nu_DisplayName = displayName, nu_PasswordHash = h\<rparr>) s of
        (Inl e, s1) \<Rightarrow> fail (conflictOrInternal e) w s1
      | (Inr user, s1) \<Rightarrow>
          (case on_store (Start (lb_jwt lib) (sr_sessions srv) (shift_draws 2 dr) (u_ID user)) s1 of
             (Inl e, s2) \<Rightarrow> fail (ErrInternal (auth_error_text e)) w s2
           | (Inr session, s2) \<Rightarrow> answer 201 (json_of_auth (toAuthResponse (sr_presigner srv) session user)) w s2))"
  by (simp add: handleRegister_def decode valid hash srv)

lemma conflict_field:
  "f = ''email'' \<or> f = ''username'' \<Longrightarrow> \<exists>message. conflictOrInternal (ConflictError f reason) = ErrConflict message [(f, reason)]"
  by (auto simp: conflictOrInternal_def)

lemma account_taken:
  assumes "pg_inv pl db" "pg_ok pl d" "pg_admits pl inp" "pg_users db (NewID d) = None"
    and "\<exists>i u. pg_users db i = Some u \<and> (u_Email u = nu_Email inp \<or> u_Username u = nu_Username inp)"
  obtains f reason message where "us_Create (pg_Users pl) d inp db = (Inl (ConflictError f reason), db)"
    "f = ''email'' \<and> (\<exists>i u. pg_users db i = Some u \<and> u_Email u = nu_Email inp)
     \<or> f = ''username'' \<and> (\<exists>i u. pg_users db i = Some u \<and> u_Username u = nu_Username inp)"
    "conflictOrInternal (ConflictError f reason) = ErrConflict message [(f, reason)]"
proof -
  obtain i u where u: "pg_users db i = Some u" "u_Email u = nu_Email inp \<or> u_Username u = nu_Username inp"
    using assms(5) by blast
  obtain f reason where c: "us_Create (pg_Users pl) d inp db = (Inl (ConflictError f reason), db)"
    "f = ''email'' \<and> (\<exists>i u. pg_users db i = Some u \<and> u_Email u = nu_Email inp)
     \<or> f = ''username'' \<and> (\<exists>i u. pg_users db i = Some u \<and> u_Username u = nu_Username inp)"
    using pg_usr.Create_conflict [OF assms(1-4) u(1)] u(2) by blast
  obtain message where "conflictOrInternal (ConflictError f reason) = ErrConflict message [(f, reason)]"
    using conflict_field c(2) by blast
  then show thesis using that c by blast
qed

text \<open>A free account: the row, then a session for it.\<close>

lemma account_created:
  assumes inv: "pg_inv pl db" and ok: "\<forall>k. pg_ok pl (dr k)" and adm: "pg_admits pl inp" and new: "pg_users db (NewID (dr 1)) = None"
    and free: "\<And>i u. pg_users db i = Some u \<Longrightarrow> u_Email u \<noteq> nu_Email inp \<and> u_Username u \<noteq> nu_Username inp"
    and sv: "sv_tokens sv = pg_Tokens pl" and fresh: "fresh_draws (pg_toks db) (shift_draws 2 dr)"
    and sign: "IssueAccess jw (sv_issuer sv) (dr 2) (NewID (dr 1)) = Inr (a, x)"
  obtains db1 db2 session token where "us_Create (pg_Users pl) (dr 1) inp db = (Inr (new_user_row (dr 1) inp), db1)"
    "Start jw sv (shift_draws 2 dr) (NewID (dr 1)) db1 = (Inr session, db2)" "pg_inv pl db2"
    "pg_users db2 = (pg_users db)(NewID (dr 1) := Some (new_user_row (dr 1) inp))" "pg_hash_of db2 (NewID (dr 1)) = nu_PasswordHash inp"
    "pg_toks db2 = (pg_toks db)(rt_ID token := Some token)" "rt_UserID token = NewID (dr 1)" "live token"
proof -
  obtain db1 where db1: "us_Create (pg_Users pl) (dr 1) inp db = (Inr (new_user_row (dr 1) inp), db1)" "pg_inv pl db1"
    "db1\<lparr>t_users := []\<rparr> = db\<lparr>t_users := []\<rparr>" "pg_users db1 = (pg_users db)(NewID (dr 1) := Some (new_user_row (dr 1) inp))"
    "pg_hash_of db1 = (pg_hash_of db)(NewID (dr 1) := nu_PasswordHash inp)"
    using pg_usr.Create_ok [OF inv ok [THEN spec, of 1] adm new] free by blast
  have toks: "t_tokens db1 = t_tokens db" using arg_cong [OF db1(3), of t_tokens] by simp
  have known: "pg_users db1 (NewID (dr 1)) \<noteq> None" "fresh_draws (pg_toks db1) (shift_draws 2 dr)"
    using db1(4) fresh toks by simp_all
  from session_started [OF db1(2) ok sv known sign] obtain session db2 token where
    st: "Start jw sv (shift_draws 2 dr) (NewID (dr 1)) db1 = (Inr session, db2)" "pg_inv pl db2"
    "db2\<lparr>t_tokens := []\<rparr> = db1\<lparr>t_tokens := []\<rparr>" "pg_toks db2 = (pg_toks db1)(rt_ID token := Some token)"
    "rt_UserID token = NewID (dr 1)" "live token" .
  have "t_users db2 = t_users db1" using arg_cong [OF st(3), of t_users] by simp
  then have "pg_users db2 = pg_users db1" "pg_hash_of db2 = pg_hash_of db1" by (simp_all add: pg_users_def pg_hash_of_def fun_eq_iff)
  then show thesis
    using that db1(1,4,5) st toks by simp
qed


definition ax_register :: gostring where
  "ax_register = ''{'' @ quoted ''email'' @ '':'' @ quoted ''Bob@Example.com'' @ '','' @ quoted ''username'' @ '':'' @ quoted ''bob'' @ '','' @
     quoted ''displayName'' @ '':'' @ quoted ''Bob'' @ '','' @ quoted ''password'' @ '':'' @ quoted ''secret12'' @ ''}''"

lemma ax_register_decodes:
  "DecodeJSON (ax_request ax_register) register_fields zero_register =
     Inr \<lparr>rr_Email = ''Bob@Example.com'', rr_Username = ''bob'', rr_DisplayName = ''Bob'', rr_Password = ''secret12''\<rparr>"
proof (rule DecodeJSON_small)
  show "read_value (rq_Body (ax_request ax_register)) False = FValue ax_register []"
    by code_simp
  show "unmarshal_struct register_fields zero_register ax_register =
      Decoded \<lparr>rr_Email = ''Bob@Example.com'', rr_Username = ''bob'', rr_DisplayName = ''Bob'', rr_Password = ''secret12''\<rparr>"
    by code_simp
qed (simp_all add: ax_request_def ax_register_def quoted_def)

lemma ax_ascii:
  "is_ascii ''Bob@Example.com''" "is_ascii ''bob''" "is_ascii ''Bob''"
  by (simp_all add: is_ascii_def)

lemma ax_trim:
  "trim_space ''Bob@Example.com'' = ''Bob@Example.com''" "trim_space ''bob'' = ''bob''" "trim_space ''Bob'' = ''Bob''"
  using ax_ascii by (simp_all add: trim_space_id is_space_def in_range_def)

lemma ax_lower: "to_lower uni ''Bob@Example.com'' = ''bob@example.com''"
  unfolding to_lower_ascii [OF ax_ascii(1)] by code_simp

lemma ax_address: "is_bare_address ''bob@example.com''"
  unfolding is_bare_address_def
  by (simp add: dot_atom_def runes_ascii is_ascii_def valid_rune_def rune_error_def is_atext_def in_range_def del: runes.simps)

lemma ax_register_valid:
  "validate_register (\<lambda>r. r) \<lparr>rr_Email = ''Bob@Example.com'', rr_Username = ''bob'', rr_DisplayName = ''Bob'', rr_Password = ''secret12''\<rparr> =
     ((''bob@example.com'', ''bob'', ''Bob''), [])"
proof -
  have "Email (\<lambda>r. r) [] ''email'' ''Bob@Example.com'' = (''bob@example.com'', [])"
    by (simp add: Email_def Let_def ax_trim ax_lower ax_address limit_defs)
  moreover have "Username [] ''username'' ''bob'' = (''bob'', [])"
    by (simp add: Username_def Let_def ax_trim limit_defs usernamePattern_def in_range_def)
  moreover have "DisplayName [] ''displayName'' ''Bob'' = (''Bob'', [])"
    by (simp add: DisplayName_def Let_def ax_trim limit_defs rune_count_ascii ax_ascii)
  moreover have "Password [] ''password'' ''secret12'' = (''secret12'', [])"
    by (simp add: Password_def limit_defs)
  ultimately show ?thesis
    by (simp add: validate_register_def)
qed


section \<open>Login\<close>

lemma pg_login_known:
  assumes "pg_inv pl db" "pg_ok pl d" "pg_users db i = Some u" "u_Email u = email"
  shows "us_CredentialsByEmail (pg_Users pl) d email db = Inr \<lparr>cr_UserID = i, cr_PasswordHash = pg_hash_of db i\<rparr>"
    and "pg_users db j = Some x \<Longrightarrow> u_Email x = email \<Longrightarrow> j = i"
proof -
  show "us_CredentialsByEmail (pg_Users pl) d email db = Inr \<lparr>cr_UserID = i, cr_PasswordHash = pg_hash_of db i\<rparr>"
    using pg_usr.Credentials_hit [OF assms(1,2) TrueI assms(3)] unfolding assms(4) .
  assume x: "pg_users db j = Some x" "u_Email x = email"
  show "j = i"
    by (rule pg_usr.email_inj [OF assms(1) x(1) assms(3)]) (simp only: x(2) assms(4))
qed

lemma pg_login_unknown:
  assumes "pg_inv pl db" "pg_ok pl d" "\<not> (\<exists>i u. pg_users db i = Some u \<and> u_Email u = email)"
  shows "us_CredentialsByEmail (pg_Users pl) d email db = Inl ErrNotFound"
proof -
  have no: "\<And>i u. pg_users db i = Some u \<Longrightarrow> u_Email u \<noteq> email" using assms(3) by blast
  show ?thesis by (rule pg_usr.Credentials_miss [OF assms(1,2) TrueI no])
qed

lemma login_run:
  assumes srv: "sr_store srv = pg_Store pl lp" and decode: "DecodeJSON r login_fields zero_login = Inr req"
    and em: "Email (lb_uni lib) [] ''email'' (lr_Email req) = (email, errs)"
  shows "handleLogin lib srv dr r w s =
      (case us_CredentialsByEmail (pg_Users pl) (dr 0) email (wd_store s) of
            Inl ErrNotFound \<Rightarrow> fail ErrInvalidCredentials w s
          | Inl e \<Rightarrow> fail (internal e) w s
          | Inr credentials \<Rightarrow>
              if \<not> VerifyPassword (lb_bcrypt lib) (cr_PasswordHash credentials) (lr_Password req) then
                fail ErrInvalidCredentials w s
              else (case us_ByID (pg_Users pl) (dr 1) (cr_UserID credentials) (wd_store s) of
                  Inl e \<Rightarrow> fail (internal e) w s
                | Inr user \<Rightarrow>
                    (case on_store (Start (lb_jwt lib) (sr_sessions srv) (shift_draws 2 dr) (u_ID user)) s of
                       (Inl e, s1) \<Rightarrow> fail (ErrInternal (auth_error_text e)) w s1
                     | (Inr session, s1) \<Rightarrow>
                         answer 200 (json_of_auth (toAuthResponse (sr_presigner srv) session user)) w s1)))"
  unfolding handleLogin_def decode sum.case Let_def em prod.case srv pg_Store_sel ..

lemma login_admits:
  assumes inv: "pg_inv pl (wd_store s)" and ok: "\<forall>k. pg_ok pl (dr k)"
    and srv: "sr_store srv = pg_Store pl lp" "sv_tokens (sr_sessions srv) = pg_Tokens pl"
    and decode: "DecodeJSON r login_fields zero_login = Inr req" and em: "Email (lb_uni lib) [] ''email'' (lr_Email req) = (email, errs)"
    and known: "pg_users (wd_store s) i = Some u" "u_Email u = email"
    and fresh: "fresh_draws (pg_toks (wd_store s)) (shift_draws 2 dr)"
    and sign: "\<forall>uid. \<exists>a x. IssueAccess (lb_jwt lib) (sv_issuer (sr_sessions srv)) (dr 2) uid = Inr (a, x)"
    and password: "VerifyPassword (lb_bcrypt lib) (pg_hash_of (wd_store s) i) (lr_Password req)"
  obtains v db token where "handleLogin lib srv dr r w s = answer 200 v w (s\<lparr>wd_store := db\<rparr>)" "pg_inv pl db"
    "db\<lparr>t_tokens := []\<rparr> = (wd_store s)\<lparr>t_tokens := []\<rparr>" "pg_toks db = (pg_toks (wd_store s))(rt_ID token := Some token)"
    "rt_UserID token = i" "live token"
proof -
  have ok0: "pg_ok pl (dr 0)" "pg_ok pl (dr 1)" using ok by blast+
  have user: "us_ByID (pg_Users pl) (dr 1) i (wd_store s) = Inr u"
    using pg_usr.ByID [OF inv ok0(2), of i] known(1) by simp
  have ident: "u_ID u = i" by (rule pg_usr.users_ID [OF inv known(1)])
  have known': "pg_users (wd_store s) i \<noteq> None" using known(1) by simp
  obtain a x where issue: "IssueAccess (lb_jwt lib) (sv_issuer (sr_sessions srv)) (dr 2) i = Inr (a, x)"
    using sign by blast
  from session_started [OF inv ok srv(2) known' fresh issue] obtain session db token where
    st: "Start (lb_jwt lib) (sr_sessions srv) (shift_draws 2 dr) i (wd_store s) = (Inr session, db)" "pg_inv pl db"
    "db\<lparr>t_tokens := []\<rparr> = (wd_store s)\<lparr>t_tokens := []\<rparr>" "pg_toks db = (pg_toks (wd_store s))(rt_ID token := Some token)"
    "rt_UserID token = i" "live token" .
  have "handleLogin lib srv dr r w s =
      answer 200 (json_of_auth (toAuthResponse (sr_presigner srv) session u)) w (s\<lparr>wd_store := db\<rparr>)"
    by (simp add: login_run [OF srv(1) decode em] pg_login_known(1) [OF inv ok0(1) known] password user on_store_def ident st(1)
        del: One_nat_def)
  then show thesis by (rule that [OF _ st(2-6)])
qed

text \<open>The verdict in terms of the normalised address.\<close>

lemma login_by_email:
  assumes inv: "pg_inv pl (wd_store s)" and ok: "\<forall>k. pg_ok pl (dr k)"
    and srv: "sr_store srv = pg_Store pl lp" "sv_tokens (sr_sessions srv) = pg_Tokens pl"
    and decode: "DecodeJSON r login_fields zero_login = Inr req"
    and fresh: "fresh_draws (pg_toks (wd_store s)) (shift_draws 2 dr)"
    and sign: "\<forall>uid. \<exists>a x. IssueAccess (lb_jwt lib) (sv_issuer (sr_sessions srv)) (dr 2) uid = Inr (a, x)"
    and em: "Email (lb_uni lib) [] ''email'' (lr_Email req) = (email, errs)"
  shows "if \<exists>i u. pg_users (wd_store s) i = Some u \<and> u_Email u = email \<and> VerifyPassword (lb_bcrypt lib) (pg_hash_of (wd_store s) i) (lr_Password req)
    then \<exists>i u v db token. handleLogin lib srv dr r w s = answer 200 v w (s\<lparr>wd_store := db\<rparr>) \<and> pg_inv pl db
       \<and> pg_users (wd_store s) i = Some u \<and> u_Email u = email \<and> db\<lparr>t_tokens := []\<rparr> = (wd_store s)\<lparr>t_tokens := []\<rparr>
       \<and> pg_toks db = (pg_toks (wd_store s))(rt_ID token := Some token) \<and> rt_UserID token = i \<and> live token
    else handleLogin lib srv dr r w s = fail ErrInvalidCredentials w s"
proof -
  note run = login_run [OF srv(1) decode em]
  have ok0: "pg_ok pl (dr 0)" "pg_ok pl (dr 1)" using ok by blast+
  show ?thesis
  proof (cases "\<exists>i u. pg_users (wd_store s) i = Some u \<and> u_Email u = email")
    case False
    have "\<not> (\<exists>i u. pg_users (wd_store s) i = Some u \<and> u_Email u = email \<and> VerifyPassword (lb_bcrypt lib) (pg_hash_of (wd_store s) i) (lr_Password req))"
      using False by blast
    then show ?thesis
      using pg_login_unknown [OF inv ok0(1) False] by (simp only: run if_False sum.case store_error.case)
  next
    case True
    then obtain i u where known: "pg_users (wd_store s) i = Some u" "u_Email u = email" by blast
    note cred = pg_login_known(1) [OF inv ok0(1) known]
    show ?thesis
    proof (cases "VerifyPassword (lb_bcrypt lib) (pg_hash_of (wd_store s) i) (lr_Password req)")
      case False
      then have "\<not> (\<exists>i u. pg_users (wd_store s) i = Some u \<and> u_Email u = email \<and> VerifyPassword (lb_bcrypt lib) (pg_hash_of (wd_store s) i) (lr_Password req))"
        using pg_login_known(2) [OF inv ok0(1) known] by blast
      then show ?thesis
        using False by (simp only: run cred if_False if_True sum.case Credentials.simps not_False_eq_True)
    next
      case True
      then have yes: "\<exists>i u. pg_users (wd_store s) i = Some u \<and> u_Email u = email \<and> VerifyPassword (lb_bcrypt lib) (pg_hash_of (wd_store s) i) (lr_Password req)"
        using known by blast
      obtain v db token where "handleLogin lib srv dr r w s = answer 200 v w (s\<lparr>wd_store := db\<rparr>)" "pg_inv pl db"
        "db\<lparr>t_tokens := []\<rparr> = (wd_store s)\<lparr>t_tokens := []\<rparr>" "pg_toks db = (pg_toks (wd_store s))(rt_ID token := Some token)"
        "rt_UserID token = i" "live token"
        using login_admits [OF inv ok srv decode em known fresh sign True] .
      then show ?thesis
        unfolding if_P [OF yes] using known by blast
    qed
  qed
qed

text \<open>C9: a login on the Postgres store succeeds exactly for the address (trimmed, in lower case) of an account with its
  password: then it answers 200 and adds one live token of that account and nothing else.  Otherwise the answer
  does not tell an unknown address from a wrong password: it is the same error, and nothing changes.\<close>

theorem login_outcomes:
  assumes inv: "pg_inv pl (wd_store s)" and ok: "\<forall>k. pg_ok pl (dr k)"
    and srv: "sr_store srv = pg_Store pl lp" "sv_tokens (sr_sessions srv) = pg_Tokens pl"
    and decode: "DecodeJSON r login_fields zero_login = Inr req"
    and fresh: "fresh_draws (pg_toks (wd_store s)) (shift_draws 2 dr)"
    and sign: "\<forall>uid. \<exists>a x. IssueAccess (lb_jwt lib) (sv_issuer (sr_sessions srv)) (dr 2) uid = Inr (a, x)"
  shows "if \<exists>i u. pg_users (wd_store s) i = Some u \<and> u_Email u = to_lower (lb_uni lib) (trim_space (lr_Email req))
        \<and> VerifyPassword (lb_bcrypt lib) (pg_hash_of (wd_store s) i) (lr_Password req)
    then \<exists>i u v db token. handleLogin lib srv dr r w s = answer 200 v w (s\<lparr>wd_store := db\<rparr>) \<and> pg_inv pl db
       \<and> pg_users (wd_store s) i = Some u \<and> u_Email u = to_lower (lb_uni lib) (trim_space (lr_Email req))
       \<and> db\<lparr>t_tokens := []\<rparr> = (wd_store s)\<lparr>t_tokens := []\<rparr>
       \<and> pg_toks db = (pg_toks (wd_store s))(rt_ID token := Some token) \<and> rt_UserID token = i \<and> live token
    else handleLogin lib srv dr r w s = fail ErrInvalidCredentials w s"
proof -
  obtain errs where "Email (lb_uni lib) [] ''email'' (lr_Email req) = (to_lower (lb_uni lib) (trim_space (lr_Email req)), errs)"
    by (simp add: Email_def Let_def)
  then show ?thesis by (rule login_by_email [OF assms])
qed

definition ax_login :: "gostring \<Rightarrow> gostring" where
  "ax_login password =
     ''{'' @ quoted ''email'' @ '':'' @ quoted ''ada@example.com'' @ '','' @ quoted ''password'' @ '':'' @ quoted password @ ''}''"

lemma ax_login_decodes:
  "DecodeJSON (ax_request (ax_login ''h'')) login_fields zero_login = Inr \<lparr>lr_Email = ''ada@example.com'', lr_Password = ''h''\<rparr>"
  "DecodeJSON (ax_request (ax_login ''x'')) login_fields zero_login = Inr \<lparr>lr_Email = ''ada@example.com'', lr_Password = ''x''\<rparr>"
proof -
  have "read_value (rq_Body (ax_request (ax_login ''h''))) False = FValue (ax_login ''h'') []"
    "read_value (rq_Body (ax_request (ax_login ''x''))) False = FValue (ax_login ''x'') []"
    "unmarshal_struct login_fields zero_login (ax_login ''h'') = Decoded \<lparr>lr_Email = ''ada@example.com'', lr_Password = ''h''\<rparr>"
    "unmarshal_struct login_fields zero_login (ax_login ''x'') = Decoded \<lparr>lr_Email = ''ada@example.com'', lr_Password = ''x''\<rparr>"
    by (code_simp)+
  then show "DecodeJSON (ax_request (ax_login ''h'')) login_fields zero_login = Inr \<lparr>lr_Email = ''ada@example.com'', lr_Password = ''h''\<rparr>"
    "DecodeJSON (ax_request (ax_login ''x'')) login_fields zero_login = Inr \<lparr>lr_Email = ''ada@example.com'', lr_Password = ''x''\<rparr>"
    by (auto intro!: DecodeJSON_small simp: ax_request_def ax_login_def quoted_def)
qed

lemma ax_ada: "to_lower uni (trim_space ''ada@example.com'') = ''ada@example.com''"
proof -
  have a: "is_ascii ''ada@example.com''"
    by (simp add: is_ascii_def)
  have "trim_space ''ada@example.com'' = ''ada@example.com''"
    using a by (simp add: trim_space_id is_space_def in_range_def)
  moreover have "map lower_byte ''ada@example.com'' = ''ada@example.com''"
    by code_simp
  ultimately show ?thesis
    using a by simp
qed

theorem login_outcomes_witness:
  "handleLogin ax_lib ax_srv (\<lambda>_. sp_draw) (ax_request (ax_login ''x'')) new_writer ax_world = fail ErrInvalidCredentials new_writer ax_world
   \<and> (\<exists>v db. handleLogin ax_lib ax_srv (\<lambda>_. sp_draw) (ax_request (ax_login ''h'')) new_writer ax_world =
        answer 200 v new_writer (ax_world\<lparr>wd_store := db\<rparr>))"
proof -
  have f: "fresh_draws (pg_toks (wd_store ax_world)) (shift_draws 2 (\<lambda>_. sp_draw))"
    by (simp add: fresh_draws_def sp_no_tokens)
  have inv: "pg_inv sp_pl (wd_store ax_world)" and ok: "\<forall>k. pg_ok sp_pl ((\<lambda>_. sp_draw) (k :: nat))"
    by (simp_all add: sp_pg_inv sp_ok)
  have sign: "\<forall>uid. \<exists>a x. IssueAccess (lb_jwt ax_lib) (sv_issuer (sr_sessions ax_srv)) sp_draw uid = Inr (a, x)"
    by (simp add: ax_sign)
  have row: "pg_users (wd_store ax_world) i = (if i = ''u1'' then Some sp_user else None)" for i
    by (simp add: sp_rows)
  have hash: "pg_hash_of (wd_store ax_world) ''u1'' = ''h''" "u_Email sp_user = ''ada@example.com''"
    by (simp_all add: pg_hash_of_def sp_db_def keyed_def sp_user_def)
  have good: "\<exists>i u. pg_users (wd_store ax_world) i = Some u \<and> u_Email u = ''ada@example.com''
      \<and> VerifyPassword (lb_bcrypt ax_lib) (pg_hash_of (wd_store ax_world) i) ''h''"
    unfolding row using hash by (intro exI [of _ "''u1''"]) (simp add: VerifyPassword_def ax_bcrypt_def)
  have bad: "\<not> (\<exists>i u. pg_users (wd_store ax_world) i = Some u \<and> u_Email u = ''ada@example.com''
      \<and> VerifyPassword (lb_bcrypt ax_lib) (pg_hash_of (wd_store ax_world) i) ''x'')"
    unfolding row using hash by (auto simp: VerifyPassword_def ax_bcrypt_def split: if_splits)
  have "handleLogin ax_lib ax_srv (\<lambda>_. sp_draw) (ax_request (ax_login ''x'')) new_writer ax_world = fail ErrInvalidCredentials new_writer ax_world"
    using login_outcomes [OF inv ok ax_sel(1,2) ax_login_decodes(2) f sign, of new_writer]
    unfolding loginRequest.simps ax_ada if_not_P [OF bad] .
  moreover have "\<exists>v db. handleLogin ax_lib ax_srv (\<lambda>_. sp_draw) (ax_request (ax_login ''h'')) new_writer ax_world =
        answer 200 v new_writer (ax_world\<lparr>wd_store := db\<rparr>)"
    using login_outcomes [OF inv ok ax_sel(1,2) ax_login_decodes(1) f sign, of new_writer]
    unfolding loginRequest.simps ax_ada if_P [OF good] by blast
  ultimately show ?thesis by blast
qed

end
