(* ===== verification/ProfileProps.thy ===== *)
theory ProfileProps
  imports ApiInputs
begin

text \<open>
  What the owner of an account can change about it: the three states of each field of the
  update, and everything the update leaves alone.
\<close>

section \<open>Updating a profile\<close>

text \<open>The row an accepted request makes of another.\<close>

definition profile_after :: "updateMeRequest \<Rightarrow> User \<Rightarrow> User \<Rightarrow> bool" where
  "profile_after req u0 u1 \<longleftrightarrow>
     u_ID u1 = u_ID u0 \<and> u_Email u1 = u_Email u0 \<and> u_Username u1 = u_Username u0 \<and> u_CreatedAt u1 = u_CreatedAt u0
     \<and> u_DisplayName u1 =
         (if opt_Present (um_DisplayName req) then trim_space (opt_Value (um_DisplayName req)) else u_DisplayName u0)
     \<and> u_Bio u1 = (if \<not> opt_Present (um_Bio req) then u_Bio u0 else if opt_Null (um_Bio req) then []
         else trim_space (opt_Value (um_Bio req)))
     \<and> u_AvatarKey u1 = (if \<not> opt_Present (um_AvatarKey req) then u_AvatarKey u0 else if opt_Null (um_AvatarKey req) then None
         else Some (opt_Value (um_AvatarKey req)))"

lemma apply_update_after:
  "update_of req = (upd, []) \<Longrightarrow> profile_after req u0 ((apply_update upd u0)\<lparr>u_UpdatedAt := c\<rparr>)"
  using update_of_accepted [of req upd] by (simp add: profile_after_def apply_update_fields)

lemma update_me_run:
  assumes srv: "sr_store srv = pg_Store pl lp" and me: "rq_currentUser r = Some me"
    and decode: "DecodeJSON r update_me_fields zero_update_me = Inr req" and upd: "update_of req = (upd, errs)"
    and c: "claim_first lib srv (shift_draws 1 dr) me (uu_AvatarKey upd) PurposeAvatar s = (err, s1)"
  shows "handleUpdateMe lib srv dr r w s =
     (if Errors_Any errs then fail (ErrValidation check_highlighted errs) w s
      else (case (err, s1) of
          (Some e, s1) \<Rightarrow> fail e w s1
        | (None, s1) \<Rightarrow>
            (case on_store (us_Update (pg_Users pl) (dr 0) (u_ID me) upd) s1 of
               (Inl e, s2) \<Rightarrow> fail (conflictOrInternal e) w s2
             | (Inr user, s2) \<Rightarrow> answer 200 (json_of_user (toUser (sr_presigner srv) user)) w s2)))"
  unfolding handleUpdateMe_def with_current_user_def me option.case decode sum.case upd prod.case srv pg_Store_sel
    c [unfolded claim_first_def] ..

text \<open>C22: an update of the caller's profile on the Postgres store that is answered with success sets exactly the fields the
  request carries (a bio or an avatar sent as null is cleared, an absent field is kept), never the identifier, the
  email or the username, and attaches an avatar only from the caller's own unused avatar upload, using it up; one that
  is rejected changes nothing.  Other accounts, posts and sessions are never touched.\<close>

theorem update_me_outcomes:
  assumes inv: "pg_inv pl (wd_store s)" and ok: "\<forall>k. pg_ok pl (dr k)" and srv: "sr_store srv = pg_Store pl lp"
    and me: "rq_currentUser r = Some me" and row: "pg_users (wd_store s) (u_ID me) = Some u0"
    and decode: "DecodeJSON r update_me_fields zero_update_me = Inr req"
  shows "if snd (update_of req) \<noteq> [] \<or>
      fst (claim_first lib srv (shift_draws 1 dr) me (uu_AvatarKey (fst (update_of req))) PurposeAvatar s) \<noteq> None
    then \<exists>e. handleUpdateMe lib srv dr r w s = fail e w s
    else (\<exists>v db u1. handleUpdateMe lib srv dr r w s = answer 200 v w (s\<lparr>wd_store := db\<rparr>) \<and> pg_inv pl db
       \<and> t_posts db = t_posts (wd_store s) \<and> t_tokens db = t_tokens (wd_store s)
       \<and> pg_users db = (pg_users (wd_store s))(u_ID me := Some u1) \<and> profile_after req u0 u1
       \<and> (opt_Present (um_AvatarKey req) \<and> \<not> opt_Null (um_AvatarKey req) \<longrightarrow>
           unused_upload (wd_store s) (opt_Value (um_AvatarKey req)) (u_ID me) PurposeAvatar
           \<and> \<not> unused_upload db (opt_Value (um_AvatarKey req)) (u_ID me) PurposeAvatar))"
proof -
  obtain upd errs where upd: "update_of req = (upd, errs)" by fastforce
  obtain err s1 where c: "claim_first lib srv (shift_draws 1 dr) me (uu_AvatarKey upd) PurposeAvatar s = (err, s1)" by fastforce
  note run = update_me_run [OF srv me decode upd c]
  have ok': "\<forall>k. pg_ok pl (shift_draws 1 dr k)" "pg_ok pl (dr 0)" using ok by (simp_all add: shift_draws_def)
  show ?thesis
  proof (cases "errs = []")
    case False
    then show ?thesis by (auto simp: run upd)
  next
    case True
    note acc = update_of_accepted [OF upd [unfolded True]]
    show ?thesis
    proof (cases rule: claim_first_pg [OF inv ok'(1) srv c, case_names rejected claimed])
      case rejected
      have bad: "snd (update_of req) \<noteq> [] \<or>
          fst (claim_first lib srv (shift_draws 1 dr) me (uu_AvatarKey (fst (update_of req))) PurposeAvatar s) \<noteq> None"
        using rejected(1) by (simp add: upd c del: One_nat_def)
      show ?thesis
        unfolding if_P [OF bad] using rejected True by (auto simp: run)
    next
      case (claimed db)
      note tabs = frame_tables [OF claimed(4)]
      obtain db' c' where u: "us_Update (pg_Users pl) (dr 0) (u_ID me) upd db = (Inr ((apply_update upd u0)\<lparr>u_UpdatedAt := c'\<rparr>), db')"
        "pg_inv pl db'" "db'\<lparr>t_users := []\<rparr> = db\<lparr>t_users := []\<rparr>"
        "pg_users db' = (pg_users db)(u_ID me := Some ((apply_update upd u0)\<lparr>u_UpdatedAt := c'\<rparr>))"
        using pg_usr.Update_ok [OF claimed(3) ok'(2) acc(5), of "u_ID me" u0] row tabs by auto
      have h: "handleUpdateMe lib srv dr r w s = answer 200 (json_of_user (toUser (sr_presigner srv)
          ((apply_update upd u0)\<lparr>u_UpdatedAt := c'\<rparr>))) w (s\<lparr>wd_store := db'\<rparr>)"
        using True claimed(1,2) u(1) by (simp add: run on_store_def)
      have rest: "t_posts db' = t_posts (wd_store s) \<and> t_tokens db' = t_tokens (wd_store s) \<and> t_uploads db' = t_uploads db"
        using arg_cong [OF u(3), of "\<lambda>d. (t_posts d, t_tokens d, t_uploads d)"] tabs by simp
      have good: "\<not> (snd (update_of req) \<noteq> [] \<or>
          fst (claim_first lib srv (shift_draws 1 dr) me (uu_AvatarKey (fst (update_of req))) PurposeAvatar s) \<noteq> None)"
        using True claimed(1) by (simp add: upd c del: One_nat_def)
      show ?thesis
        unfolding if_not_P [OF good]
        using h u(2,4) tabs rest apply_update_after [OF upd [unfolded True], of u0 c'] claimed(5) acc(4)
        by (intro exI [of _ db'] exI [of _ "(apply_update upd u0)\<lparr>u_UpdatedAt := c'\<rparr>"] exI) (auto simp: unused_upload_def)
    qed
  qed
qed

definition ax_update :: gostring where
  "ax_update = ''{'' @ quoted ''displayName'' @ '':'' @ quoted ''Bob'' @ '','' @ quoted ''bio'' @ '':null}''"

definition ax_update_req :: updateMeRequest where
  "ax_update_req =
     \<lparr>um_DisplayName = \<lparr>opt_Value = ''Bob'', opt_Present = True, opt_Null = False\<rparr>,
      um_Bio = \<lparr>opt_Value = [], opt_Present = True, opt_Null = True\<rparr>, um_AvatarKey = opt_absent []\<rparr>"

lemma ax_update_decodes: "DecodeJSON (ax_request ax_update) update_me_fields zero_update_me = Inr ax_update_req"
proof (rule DecodeJSON_small)
  show "read_value (rq_Body (ax_request ax_update)) False = FValue ax_update []"
    by code_simp
  show "unmarshal_struct update_me_fields zero_update_me ax_update = Decoded ax_update_req"
    by code_simp
qed (simp_all add: ax_request_def ax_update_def quoted_def)

lemma ax_Bob: "is_ascii ''Bob''" "trim_space ''Bob'' = ''Bob''"
proof -
  show a: "is_ascii ''Bob''"
    by (simp add: is_ascii_def)
  show "trim_space ''Bob'' = ''Bob''"
    using a by (simp add: trim_space_id is_space_def in_range_def)
qed

theorem update_me_outcomes_witness:
  "\<exists>v db u1. handleUpdateMe ax_lib ax_srv (\<lambda>_. sp_draw) (ax_request ax_update) new_writer ax_world =
       answer 200 v new_writer (ax_world\<lparr>wd_store := db\<rparr>)
     \<and> pg_users db ''u1'' = Some u1 \<and> u_Email u1 = ''ada@example.com'' \<and> u_DisplayName u1 = ''Bob'' \<and> u_Bio u1 = []"
proof -
  have inv: "pg_inv sp_pl (wd_store ax_world)" and ok: "\<forall>k. pg_ok sp_pl ((\<lambda>_. sp_draw) (k :: nat))"
    by (simp_all add: sp_pg_inv sp_ok)
  have row: "pg_users (wd_store ax_world) (u_ID sp_user) = Some sp_user"
    by (simp add: sp_rows sp_user_def)
  have upd: "update_of ax_update_req = (\<lparr>uu_DisplayName = Some ''Bob'', uu_Bio = Some [], uu_AvatarKey = None, uu_ClearAvatar = False\<rparr>, [])"
    by (simp add: update_of_def ax_update_req_def opt_absent_def DisplayName_def ax_Bob rune_count_ascii limit_defs)
  have good: "\<not> (snd (update_of ax_update_req) \<noteq> [] \<or>
      fst (claim_first ax_lib ax_srv (shift_draws 1 (\<lambda>_. sp_draw)) sp_user (uu_AvatarKey (fst (update_of ax_update_req)))
        PurposeAvatar ax_world) \<noteq> None)"
    by (simp add: upd claim_first_def)
  from update_me_outcomes [OF inv ok ax_sel(1) ax_sel(7) row ax_update_decodes, of ax_lib new_writer]
  obtain x db u1 where h: "handleUpdateMe ax_lib ax_srv (\<lambda>_. sp_draw) (ax_request ax_update) new_writer ax_world =
       answer 200 x new_writer (ax_world\<lparr>wd_store := db\<rparr>)"
    and u: "pg_users db = (pg_users (wd_store ax_world))(u_ID sp_user := Some u1)" "profile_after ax_update_req sp_user u1"
    unfolding if_not_P [OF good] by blast
  then show ?thesis
    by (intro exI [of _ x] exI [of _ db] exI [of _ u1]) (simp add: profile_after_def ax_update_req_def sp_user_def ax_Bob)
qed

end
