(* ===== verification/PostProps.thy ===== *)
theory PostProps
  imports ApiInputs
begin

text \<open>
  Posts through the handlers over the Postgres store: claiming an image before the post exists,
  and what a failure in between leaves behind.
\<close>

section \<open>Creating a post\<close>

lemma Caption_fst [simp]: "fst (Caption e f v) = trim_space v"
  by (simp add: Caption_def Let_def)

lemma toPost_hydrate: "\<exists>resp. toPost p (hydrate post (Some a)) = Some resp"
  by (simp add: toPost_def hydrate_def)

lemma create_post_run:
  assumes srv: "sr_store srv = pg_Store pl lp" and me: "rq_currentUser r = Some me"
    and decode: "DecodeJSON r create_post_fields zero_create_post = Inr req"
    and cap: "Caption [] ''caption'' (cq_Caption req) = (caption, errs)"
    and c: "claim_first lib srv (shift_draws 1 dr) me (image_key_of req) PurposePost s = (err, s1)"
  shows "handleCreatePost lib srv dr r w s =
    (if Errors_Any errs then fail (ErrValidation check_highlighted errs) w s
     else (case (err, s1) of
         (Some e, s1) \<Rightarrow> fail e w s1
       | (None, s1) \<Rightarrow>
           (case on_store (pg_post_Create (dr 0)
                   \<lparr>np_AuthorID = u_ID me, np_ImageKey = image_key_of req, np_Caption = caption\<rparr>) s1 of
              (Inl e, s2) \<Rightarrow> fail (internal e) w s2
            | (Inr post, s2) \<Rightarrow> answer_opt 201 (map_option json_of_post (toPost (sr_presigner srv) post)) w s2)))"
proof -
  have create: "ps_Create (pg_Posts pl lp) = pg_post_Create" by (simp add: pg_Posts_def)
  show ?thesis
    unfolding handleCreatePost_def with_current_user_def me option.case decode sum.case cap prod.case srv pg_Store_sel create
      c [unfolded claim_first_def] ..
qed

lemma post_stored:
  assumes "pg_inv pl db" "pg_ok pl d" "pg_posts db (NewID d) = None" "pg_users db (np_AuthorID np) = Some u0" "rune_count (np_Caption np) \<le> 2200"
  obtains post db' resp where "pg_post_Create d np db = (Inr post, db')" "toPost ps post = Some resp" "pg_inv pl db'"
    "t_users db' = t_users db" "t_tokens db' = t_tokens db" "t_uploads db' = t_uploads db"
    "pg_posts db' = (pg_posts db)(NewID d := Some (new_post_row d np))"
proof -
  have "pg_users (db\<lparr>t_posts := []\<rparr>) (np_AuthorID np) = Some u0"
    using assms(4) by (simp add: pg_users_def)
  from pg_pst.Create_ok [OF assms(1,2,5,3) this] obtain db' where
    p: "pg_post_Create d np db = (Inr (hydrate (new_post_row d np) (Some u0)), db')" "pg_inv pl db'" "db'\<lparr>t_posts := []\<rparr> = db\<lparr>t_posts := []\<rparr>"
    "pg_posts db' = (pg_posts db)(NewID d := Some (new_post_row d np))"
    by (auto simp: pg_Posts_def)
  have "t_users db' = t_users db \<and> t_tokens db' = t_tokens db \<and> t_uploads db' = t_uploads db"
    using arg_cong [OF p(3), of "\<lambda>d. (t_users d, t_tokens d, t_uploads d)"] by simp
  then show thesis
    using that p toPost_hydrate by blast
qed

text \<open>C12: on the Postgres store a post is created (201) exactly when the caption passes and the image, if any, could be
  claimed; the post has the caller as author, the trimmed caption and that image, whose upload was the caller's unused
  post upload and is now used up.  Otherwise no post and no other row is created.\<close>

theorem create_post_outcomes:
  assumes inv: "pg_inv pl (wd_store s)" and ok: "\<forall>k. pg_ok pl (dr k)" and srv: "sr_store srv = pg_Store pl lp"
    and me: "rq_currentUser r = Some me" and row: "pg_users (wd_store s) (u_ID me) = Some u0"
    and new: "pg_posts (wd_store s) (NewID (dr 0)) = None"
    and decode: "DecodeJSON r create_post_fields zero_create_post = Inr req"
  shows "if rune_count (trim_space (cq_Caption req)) > 2200 \<or>
      fst (claim_first lib srv (shift_draws 1 dr) me (image_key_of req) PurposePost s) \<noteq> None
    then \<exists>e. handleCreatePost lib srv dr r w s = fail e w s
    else \<exists>v db p. handleCreatePost lib srv dr r w s = answer 201 v w (s\<lparr>wd_store := db\<rparr>) \<and> pg_inv pl db
       \<and> t_users db = t_users (wd_store s) \<and> t_tokens db = t_tokens (wd_store s)
       \<and> pg_posts db = (pg_posts (wd_store s))(p_ID p := Some p)
       \<and> p_AuthorID p = u_ID me \<and> p_Caption p = trim_space (cq_Caption req) \<and> p_ImageKey p = image_key_of req
       \<and> (\<forall>k. image_key_of req = Some k \<longrightarrow>
            unused_upload (wd_store s) k (u_ID me) PurposePost \<and> \<not> unused_upload db k (u_ID me) PurposePost)"
proof -
  let ?refused = "rune_count (trim_space (cq_Caption req)) > 2200 \<or>
      fst (claim_first lib srv (shift_draws 1 dr) me (image_key_of req) PurposePost s) \<noteq> None"
  obtain errs where cap: "Caption [] ''caption'' (cq_Caption req) = (trim_space (cq_Caption req), errs)"
    by (metis Caption_fst prod.collapse)
  have errs: "errs = [] \<longleftrightarrow> \<not> rune_count (trim_space (cq_Caption req)) > 2200"
    using Caption_ok_iff [of "[]" "''caption''" "cq_Caption req"] cap by auto
  obtain err s1 where c: "claim_first lib srv (shift_draws 1 dr) me (image_key_of req) PurposePost s = (err, s1)" by fastforce
  note run = create_post_run [OF srv me decode cap c]
  have ok': "\<forall>k. pg_ok pl (shift_draws 1 dr k)" "pg_ok pl (dr 0)" using ok by (simp_all add: shift_draws_def)
  show ?thesis
  proof (cases rule: claim_first_pg [OF inv ok'(1) srv c, case_names rejected claimed])
    case rejected
    have bad: "?refused"
      using rejected(1) by (simp add: c del: One_nat_def)
    show ?thesis unfolding if_P [OF bad] using rejected by (auto simp: run)
  next
    case (claimed db)
    let ?np = "\<lparr>np_AuthorID = u_ID me, np_ImageKey = image_key_of req, np_Caption = trim_space (cq_Caption req)\<rparr>"
    show ?thesis
    proof (cases "rune_count (trim_space (cq_Caption req)) > 2200")
      case True
      then have bad: "?refused" ..
      show ?thesis unfolding if_P [OF bad] using True errs by (auto simp: run)
    next
      case False
      then have good: "\<not> (?refused)"
        using claimed(1) by (simp add: c del: One_nat_def)
      note tabs = frame_tables [OF claimed(4)]
      have pre: "pg_posts db (NewID (dr 0)) = None" "pg_users db (np_AuthorID ?np) = Some u0" "rune_count (np_Caption ?np) \<le> 2200"
        using new False tabs row by simp_all
      from post_stored [OF claimed(3) ok'(2) pre] obtain post db' resp where
        p: "pg_post_Create (dr 0) ?np db = (Inr post, db')" "toPost (sr_presigner srv) post = Some resp" "pg_inv pl db'"
        "t_users db' = t_users db" "t_tokens db' = t_tokens db" "t_uploads db' = t_uploads db"
        "pg_posts db' = (pg_posts db)(NewID (dr 0) := Some (new_post_row (dr 0) ?np))" .
      have v: "handleCreatePost lib srv dr r w s = answer 201 (json_of_post resp) w (s\<lparr>wd_store := db'\<rparr>)"
        using claimed(1,2) False errs by (simp add: run on_store_def answer_opt_def p(1,2))
      show ?thesis
        unfolding if_not_P [OF good]
        using v p(3-7) tabs claimed(5)
        by (intro exI [of _ "json_of_post resp"] exI [of _ db'] exI [of _ "new_post_row (dr 0) ?np"]) (auto simp: new_post_row_def unused_upload_def)
    qed
  qed
qed

definition ax_post :: gostring where
  "ax_post = ''{'' @ quoted ''imageKey'' @ '':'' @ quoted ''k'' @ '','' @ quoted ''caption'' @ '':'' @ quoted ''hi'' @ ''}''"

definition ax_post_req :: createPostRequest where
  "ax_post_req = \<lparr>cq_ImageKey = Some ''k'', cq_Caption = ''hi''\<rparr>"

lemma ax_post_decodes: "DecodeJSON (ax_request ax_post) create_post_fields zero_create_post = Inr ax_post_req"
proof (rule DecodeJSON_small)
  show "read_value (rq_Body (ax_request ax_post)) False = FValue ax_post []"
    by code_simp
  show "unmarshal_struct create_post_fields zero_create_post ax_post = Decoded ax_post_req"
    by code_simp
qed (simp_all add: ax_request_def ax_post_def quoted_def)

lemma ax_hi: "trim_space ''hi'' = ''hi''" "trim_space ''k'' = ''k''" "rune_count ''hi'' = 2"
  by (simp_all add: trim_space_id is_ascii_def is_space_def in_range_def rune_count_ascii)

lemma ax_key: "image_key_of ax_post_req = Some ''k''"
  by (simp add: image_key_of_def ax_post_req_def ax_hi)

lemma ax_unused: "unused_upload (wd_store ax_world) ''k'' (u_ID sp_user) PurposePost"
  by (simp add: unused_upload_def sp_rows) (simp add: sp_upload_def sp_user_def PurposePost_def)

lemma sp_new_post: "pg_posts sp_db (NewID d) = None"
proof -
  have "NewID d \<noteq> ''pa''" "NewID d \<noteq> ''pb''"
    by (rule notI, use length_NewID [of d] in simp)+
  then show ?thesis by (simp add: sp_rows)
qed

theorem create_post_outcomes_witness:
  "\<exists>v db p. handleCreatePost ax_lib ax_srv (\<lambda>_. sp_draw) (ax_request ax_post) new_writer ax_world =
       answer 201 v new_writer (ax_world\<lparr>wd_store := db\<rparr>)
     \<and> pg_posts db (p_ID p) = Some p \<and> p_ImageKey p = Some ''k'' \<and> \<not> unused_upload db ''k'' ''u1'' PurposePost"
proof -
  have inv: "pg_inv sp_pl (wd_store ax_world)" and ok: "\<forall>k. pg_ok sp_pl ((\<lambda>_. sp_draw) (k :: nat))"
    by (simp_all add: sp_pg_inv sp_ok)
  have row: "pg_users (wd_store ax_world) (u_ID sp_user) = Some sp_user" and uid: "u_ID sp_user = ''u1''"
    by (simp_all add: sp_rows sp_user_def)
  have new: "pg_posts (wd_store ax_world) (NewID sp_draw) = None"
    by (simp add: sp_new_post)
  have sv: "sr_store ax_srv = pg_Store sp_pl (\<lambda>_. None)" "st_Uploads (sr_store ax_srv) = pg_Uploads sp_pl"
    by simp_all
  obtain err s1 where c: "claim_first ax_lib ax_srv (shift_draws 1 (\<lambda>_. sp_draw)) sp_user (image_key_of ax_post_req) PurposePost ax_world = (err, s1)"
    by fastforce
  obtain u where u: "pg_upls (wd_store ax_world) ''k'' = Some u" "ul_UserID u = u_ID sp_user" "ul_Purpose u = PurposePost" "ul_AttachedAt u = None"
    using ax_unused by (auto simp: unused_upload_def)
  have "\<exists>db. up_Claim (pg_Uploads sp_pl) sp_draw ''k'' (u_ID sp_user) PurposePost (d_now sp_draw) (wd_store ax_world) = (Inr (), db)"
    using pg_upl.Claim_ok [OF inv sp_ok u] by blast
  then have "err = None"
    using c unfolding claim_first_def ax_key option.case claimUpload_def on_store_def sv shift_draws_def by (auto simp: ax_inspect)
  then have good: "\<not> (rune_count (trim_space (cq_Caption ax_post_req)) > 2200 \<or>
      fst (claim_first ax_lib ax_srv (shift_draws 1 (\<lambda>_. sp_draw)) sp_user (image_key_of ax_post_req) PurposePost ax_world) \<noteq> None)"
    unfolding c by (simp add: ax_post_req_def ax_hi)
  from create_post_outcomes [OF inv ok sv(1) ax_sel(7) row new ax_post_decodes, of ax_lib new_writer]
  obtain x db p where "handleCreatePost ax_lib ax_srv (\<lambda>_. sp_draw) (ax_request ax_post) new_writer ax_world =
       answer 201 x new_writer (ax_world\<lparr>wd_store := db\<rparr>)" "pg_posts db = (pg_posts (wd_store ax_world))(p_ID p := Some p)"
    "p_ImageKey p = image_key_of ax_post_req" "\<forall>key. image_key_of ax_post_req = Some key \<longrightarrow> \<not> unused_upload db key (u_ID sp_user) PurposePost"
    unfolding if_not_P [OF good] by blast
  then show ?thesis
    by (intro exI [of _ x] exI [of _ db] exI [of _ p]) (simp add: ax_key uid)
qed

section \<open>The upload a failed insertion uses up\<close>

text \<open>C39: the claim and the insertion are two statements: when the database fails between them the request is answered with
  500 and there is no post, but the upload is used up, so that repeating the request with a healthy database
  is refused with 403.\<close>

theorem create_post_burns_upload:
  assumes inv: "pg_inv pl (wd_store s)" and ok: "\<forall>k. pg_ok pl (dr (Suc k))" and fault: "d_fault (dr 0) = Some msg"
    and ok': "\<forall>k. pg_ok pl (dr' k)" and srv: "sr_store srv = pg_Store pl lp" and me: "rq_currentUser r = Some me"
    and decode: "DecodeJSON r create_post_fields zero_create_post = Inr req" and key: "image_key_of req = Some key"
    and cap: "rune_count (trim_space (cq_Caption req)) \<le> 2200"
    and image: "\<forall>d. inspectUpload lib srv d key PurposePost = None"
    and mine: "unused_upload (wd_store s) key (u_ID me) PurposePost"
  shows "\<exists>db. handleCreatePost lib srv dr r w s = fail (ErrInternal msg) w (s\<lparr>wd_store := db\<rparr>)
    \<and> t_posts db = t_posts (wd_store s)
    \<and> handleCreatePost lib srv dr' r w (s\<lparr>wd_store := db\<rparr>) =
        fail (APIForbidden ''That upload cannot be used here.'') w (s\<lparr>wd_store := db\<rparr>)"
proof -
  have cap': "Caption [] ''caption'' (cq_Caption req) = (trim_space (cq_Caption req), [])"
    using Caption_ok_iff [of "[]" "''caption''" "cq_Caption req"] cap by (simp add: prod_eq_iff)
  have ok1: "\<forall>k. pg_ok pl (shift_draws 1 dr k)" "\<forall>k. pg_ok pl (shift_draws 1 dr' k)"
    using ok ok' by (simp_all add: shift_draws_def)
  have ups: "st_Uploads (sr_store srv) = pg_Uploads pl" using srv by simp
  obtain up where up: "pg_upls (wd_store s) key = Some up" "ul_UserID up = u_ID me" "ul_Purpose up = PurposePost" "ul_AttachedAt up = None"
    using mine by (auto simp: unused_upload_def)
  have okk: "pg_ok pl (shift_draws 1 dr 2)" "pg_ok pl (shift_draws 1 dr' 2)" using ok1 by blast+
  from pg_upl.Claim_ok [OF inv okk(1) up, of "d_now (shift_draws 1 dr 1)"] obtain db stamp where db:
    "up_Claim (pg_Uploads pl) (shift_draws 1 dr 2) key (u_ID me) PurposePost (d_now (shift_draws 1 dr 1)) (wd_store s) = (Inr (), db)"
    "pg_inv pl db" "db\<lparr>t_uploads := []\<rparr> = (wd_store s)\<lparr>t_uploads := []\<rparr>"
    "pg_upls db = (pg_upls (wd_store s))(key := Some (up\<lparr>ul_AttachedAt := Some stamp\<rparr>))"
    by blast
  have first: "claim_first lib srv (shift_draws 1 dr) me (image_key_of req) PurposePost s = (None, s\<lparr>wd_store := db\<rparr>)"
    unfolding claim_first_def key option.case claimUpload_def ups on_store_def using image by (simp add: db(1) del: One_nat_def)
  have attached: "pg_upls db key = Some (up\<lparr>ul_AttachedAt := Some stamp\<rparr>)" "ul_AttachedAt (up\<lparr>ul_AttachedAt := Some stamp\<rparr>) \<noteq> None"
    using db(4) by simp_all
  have again: "up_Claim (pg_Uploads pl) (shift_draws 1 dr' 2) key (u_ID me) PurposePost (d_now (shift_draws 1 dr' 1)) db = (Inl ErrForbidden, db)"
    by (rule pg_upl.Claim_forbidden [OF db(2) okk(2) attached(1)]) (use attached(2) in blast)
  have second: "claim_first lib srv (shift_draws 1 dr') me (image_key_of req) PurposePost (s\<lparr>wd_store := db\<rparr>) =
      (Some (APIForbidden ''That upload cannot be used here.''), s\<lparr>wd_store := db\<rparr>)"
    unfolding claim_first_def key option.case claimUpload_def ups on_store_def using image by (simp add: again del: One_nat_def)
  have "pg_post_Create (dr 0) np db = (Inl (ErrOther msg), db)" for np
    using fault by (simp add: pg_post_Create_def statement_def mapError_def)
  then have "handleCreatePost lib srv dr r w s = fail (ErrInternal msg) w (s\<lparr>wd_store := db\<rparr>)"
    by (simp add: create_post_run [OF srv me decode cap' first] on_store_def internal_def store_error_text_def)
  moreover have "handleCreatePost lib srv dr' r w (s\<lparr>wd_store := db\<rparr>) =
      fail (APIForbidden ''That upload cannot be used here.'') w (s\<lparr>wd_store := db\<rparr>)"
    by (simp add: create_post_run [OF srv me decode cap' second])
  moreover have "t_posts db = t_posts (wd_store s)" using frame_tables [OF db(3)] by simp
  ultimately show ?thesis by blast
qed

definition ax_fault :: "nat \<Rightarrow> Draw" where
  "ax_fault k = (if k = 0 then sp_draw\<lparr>d_fault := Some ''connection lost''\<rparr> else sp_draw)"

theorem create_post_burns_upload_witness:
  "\<exists>db. handleCreatePost ax_lib ax_srv ax_fault (ax_request ax_post) new_writer ax_world =
       fail (ErrInternal ''connection lost'') new_writer (ax_world\<lparr>wd_store := db\<rparr>)
     \<and> handleCreatePost ax_lib ax_srv (\<lambda>_. sp_draw) (ax_request ax_post) new_writer (ax_world\<lparr>wd_store := db\<rparr>) =
       fail (APIForbidden ''That upload cannot be used here.'') new_writer (ax_world\<lparr>wd_store := db\<rparr>)"
proof -
  have inv: "pg_inv sp_pl (wd_store ax_world)" and ok: "\<forall>k. pg_ok sp_pl ((\<lambda>_. sp_draw) (k :: nat))" "\<forall>k. pg_ok sp_pl (ax_fault (Suc k))"
    by (simp_all add: sp_pg_inv sp_ok ax_fault_def)
  have fault: "d_fault (ax_fault 0) = Some ''connection lost''"
    by (simp add: ax_fault_def)
  have cap: "rune_count (trim_space (cq_Caption ax_post_req)) \<le> 2200"
    by (simp add: ax_post_req_def ax_hi)
  have image: "\<forall>d. inspectUpload ax_lib ax_srv d ''k'' PurposePost = None"
    by (simp add: ax_inspect)
  show ?thesis
    using create_post_burns_upload [OF inv ok(2) fault ok(1) ax_sel(1) ax_sel(7) ax_post_decodes ax_key cap image ax_unused, of new_writer]
    by blast
qed

end
