(* ===== verification/FeedProps.thy ===== *)
theory FeedProps
  imports ApiInputs
begin

text \<open>
  The feed and the presigned uploads seen through their handlers: what a request is answered
  with on a Postgres database.
\<close>

section \<open>Feed requests\<close>

definition limit_error :: APIError where
  "limit_error = ErrValidation ''That limit is not valid.'' [(''limit'', ''must be a whole number between 1 and '' @ itoa MaxPageLimit)]"

text \<open>What the two query parameters ask for.\<close>

lemma pageRequest_cases:
  obtains (invalid) "pageRequest r = Inl limit_error" "rq_Query r ''limit'' \<noteq> []"
      "case atoi (rq_Query r ''limit'') of None \<Rightarrow> True | Some n \<Rightarrow> n < 1"
  | (default) "pageRequest r = Inr \<lparr>pr_Cursor = rq_Query r ''cursor'', pr_Limit = 20\<rparr>" "rq_Query r ''limit'' = []"
  | (given) n where "pageRequest r = Inr \<lparr>pr_Cursor = rq_Query r ''cursor'', pr_Limit = min 50 n\<rparr>" "rq_Query r ''limit'' \<noteq> []"
      "atoi (rq_Query r ''limit'') = Some n" "1 \<le> n"
proof (cases "rq_Query r ''limit'' = []")
  case True
  then show thesis using default by (simp add: pageRequest_def Normalise_def DefaultPageLimit_def)
next
  case limit: False
  show thesis
  proof (cases "atoi (rq_Query r ''limit'')")
    case None
    then show thesis using invalid limit by (simp add: pageRequest_def limit_error_def Let_def)
  next
    case (Some n)
    then show thesis
      using invalid given [of n] limit by (cases "n < 1") (auto simp: pageRequest_def limit_error_def Let_def Normalise_def MaxPageLimit_def min_def)
  qed
qed

lemma toPostPage_page:
  assumes "\<forall>p \<in> set (pg_Items page). p_Author p \<noteq> None"
  obtains resp where "toPostPage ps page = Some resp" "map po_ID (pa_Items resp) = map p_ID (pg_Items page)"
    "pa_NextCursor resp = (if pg_NextCursor page = [] then None else Some (pg_NextCursor page))"
proof -
  obtain rs where "toPosts ps (pg_Items page) = Some rs" "map po_ID rs = map p_ID (pg_Items page)"
    using toPosts_Some [OF assms, of ps] by blast
  then show thesis
    using that [of "\<lparr>pa_Items = rs, pa_NextCursor = (if pg_NextCursor page = [] then None else Some (pg_NextCursor page))\<rparr>"]
    by (simp add: toPostPage_def)
qed

lemma cut_page_items: "0 \<le> k \<Longrightarrow> pg_Items (cut_page k L) = take (nat k) L"
  by (auto simp: cut_page_def Let_def)

lemma seek_subset: "set (seek c L) \<subseteq> set L"
  by (auto simp: seek_def split: option.split)

lemma page_answered:
  assumes inv: "pg_inv pl db" and cursors: "\<forall>p \<in> set (t_posts db). cursor_ok p"
    and set_L: "set L = (\<lambda>p. hydrate p (pg_users db (p_AuthorID p))) ` set (t_posts db)" and k: "1 \<le> k"
  shows "\<exists>resp. answer_page srv (Inr (cut_page k (seek c L))) w s = answer 200 (json_of_page json_of_post resp) w s
       \<and> map po_ID (pa_Items resp) = map p_ID (take (nat k) (seek c L))
       \<and> (pa_NextCursor resp = None \<longleftrightarrow> int (length (seek c L)) \<le> k)"
proof -
  have items: "pg_Items (cut_page k (seek c L)) = take (nat k) (seek c L)"
    using k by (simp add: cut_page_items)
  have "p_Author p \<noteq> None" if "p \<in> set L" for p
    using that pg_posts_row [OF inv] pg_users_exists unfolding set_L by auto
  then have "\<forall>p \<in> set (pg_Items (cut_page k (seek c L))). p_Author p \<noteq> None"
    unfolding items using seek_subset [of c L] in_set_takeD by fast
  from toPostPage_page [OF this, of "sr_presigner srv"] obtain resp where resp:
    "toPostPage (sr_presigner srv) (cut_page k (seek c L)) = Some resp" "map po_ID (pa_Items resp) = map p_ID (take (nat k) (seek c L))"
    "pa_NextCursor resp = (if pg_NextCursor (cut_page k (seek c L)) = [] then None else Some (pg_NextCursor (cut_page k (seek c L))))"
    unfolding items .
  have "\<forall>p \<in> set (seek c L). cursor_ok p"
    using seek_subset [of c L] cursors unfolding set_L by (auto simp: cursor_ok_def)
  from cut_page_last [OF k this] resp show ?thesis
    by (intro exI [of _ resp]) (simp add: answer_page_def answer_opt_def)
qed

text \<open>C13: the feed endpoint on a Postgres database: a limit that is not a whole number from 1 on is refused with 400; otherwise
  the page size is the limit, at most 50, or 20 without one; a cursor that cannot be read is refused with
  400; otherwise the answer is 200 with exactly the next posts, newest first, up to the page size, and a next
  cursor if and only if there are more.\<close>

theorem feed_outcomes:
  assumes inv: "pg_inv pl (wd_store s)" and ok: "pg_ok pl (dr 0)" and srv: "sr_store srv = pg_Store pl lp"
    and cursors: "\<forall>p \<in> set (t_posts (wd_store s)). cursor_ok p" and L: "feed_list L"
    and set_L: "set L = (\<lambda>p. hydrate p (pg_users (wd_store s) (p_AuthorID p))) ` set (t_posts (wd_store s))"
  shows "let limit = rq_Query r ''limit''; bad = (limit \<noteq> [] \<and> (case atoi limit of None \<Rightarrow> True | Some n \<Rightarrow> n < 1));
      size = (if limit = [] then 20 else case atoi limit of Some n \<Rightarrow> min 50 n)
    in if bad then handleFeed srv dr r w s = fail limit_error w s
       else (case request_cursor (pg_timestamptz pl) lp \<lparr>pr_Cursor = rq_Query r ''cursor'', pr_Limit = size\<rparr> of
           Inl e \<Rightarrow> handleFeed srv dr r w s = fail (pageError e) w s \<and> ae_Status (pageError e) = 400
         | Inr c \<Rightarrow> \<exists>resp. handleFeed srv dr r w s = answer 200 (json_of_page json_of_post resp) w s
             \<and> map po_ID (pa_Items resp) = map p_ID (take (nat size) (seek c L))
             \<and> (pa_NextCursor resp = None \<longleftrightarrow> int (length (seek c L)) \<le> size))"
proof -
  have page: "handleFeed srv dr r w s = (case request_cursor (pg_timestamptz pl) lp req of
      Inl e \<Rightarrow> fail (pageError e) w s | Inr c \<Rightarrow> answer_page srv (Inr (cut_page (pr_Limit req) (seek c L))) w s)"
    if req: "pageRequest r = Inr req" and norm: "Normalise req = req" for req
  proof -
    have "set L = {hydrate p (pg_users ((wd_store s)\<lparr>t_posts := []\<rparr>) (p_AuthorID p)) |i p. pg_posts (wd_store s) i = Some p}"
      unfolding set_L using keyed_Some_iff [OF pg_posts_keys [OF inv]] by (auto simp: pg_users_def)
    from pg_pst.Feed [OF inv ok L this, of lp req]
    have "ps_Feed (pg_Posts pl lp) (dr 0) req (wd_store s) = page_of (pg_timestamptz pl) lp req L" .
    then show ?thesis
      using req norm by (simp add: handleFeed_def srv page_of_def answer_page_def Let_def split: sum.split)
  qed
  have error: "ae_Status (pageError e) = 400" if "request_cursor st lp req = Inl e" for st req e
    using that by (auto simp: request_cursor_def DecodeCursor_def Let_def pageError_def ErrValidation_def
        split: if_splits sum.splits option.splits)
  note good = page_answered [OF inv cursors set_L]
  show ?thesis
  proof (cases rule: pageRequest_cases [of r])
    case invalid
    then show ?thesis by (simp add: Let_def handleFeed_def)
  next
    case default
    have "Normalise \<lparr>pr_Cursor = rq_Query r ''cursor'', pr_Limit = 20\<rparr> = \<lparr>pr_Cursor = rq_Query r ''cursor'', pr_Limit = 20\<rparr>"
      by (simp add: Normalise_def MaxPageLimit_def)
    from page [OF default(1) this] default(2) show ?thesis
      by (auto simp: Let_def intro: error good [of 20, simplified] split: sum.split)
  next
    case (given n)
    have "Normalise \<lparr>pr_Cursor = rq_Query r ''cursor'', pr_Limit = min 50 n\<rparr> = \<lparr>pr_Cursor = rq_Query r ''cursor'', pr_Limit = min 50 n\<rparr>"
      using given(4) by (auto simp: Normalise_def MaxPageLimit_def min_def)
    from page [OF given(1) this] given(2-4) good [of "min 50 n"] show ?thesis
      by (auto simp: Let_def intro: error split: sum.split)
  qed
qed

definition ax_get :: "User Request" where
  "ax_get = (ax_request [])\<lparr>rq_Method := MethodGet\<rparr>"

text \<open>The example database's feed: two posts, asked for without parameters.\<close>

theorem feed_outcomes_witness:
  "\<exists>resp. handleFeed ax_srv (\<lambda>_. sp_draw) ax_get new_writer ax_world = answer 200 (json_of_page json_of_post resp) new_writer ax_world
     \<and> map po_ID (pa_Items resp) = [''pb'', ''pa''] \<and> pa_NextCursor resp = None"
proof -
  let ?L = "[hydrate (sp_post ''pb'' hour) (Some sp_user), hydrate (sp_post ''pa'' minute) (Some sp_user)]"
  have inv: "pg_inv sp_pl (wd_store ax_world)" and ok: "pg_ok sp_pl ((\<lambda>_. sp_draw) (0 :: nat))"
    by (simp_all add: sp_pg_inv sp_ok)
  have posts: "t_posts (wd_store ax_world) = [sp_post ''pa'' minute, sp_post ''pb'' hour]"
    by (simp add: sp_db_def)
  have cursors: "\<forall>p \<in> set (t_posts (wd_store ax_world)). cursor_ok p"
    using sp_cursor_ok unfolding posts by simp
  have L: "feed_list ?L"
    by (simp add: feed_list_def feed_less_def sp_post_def)
  have "pg_users (wd_store ax_world) (p_AuthorID (sp_post i t)) = Some sp_user" for i t
    by (simp add: sp_rows sp_post_def sp_user_def)
  then have set_L: "set ?L = (\<lambda>p. hydrate p (pg_users (wd_store ax_world) (p_AuthorID p))) ` set (t_posts (wd_store ax_world))"
    unfolding posts by auto
  have q: "rq_Query ax_get = (\<lambda>_. [])"
    by (simp add: ax_get_def ax_request_def)
  show ?thesis
    using feed_outcomes [OF inv ok ax_sel(1) cursors L set_L, of ax_get new_writer]
    by (auto simp: q request_cursor_def seek_def sp_post_def)
qed

section \<open>Presigned uploads\<close>

text \<open>What a presign request must satisfy, in the order the handler checks it, and the error it gets otherwise.\<close>

definition presign_error :: "Lib \<Rightarrow> presignRequest \<Rightarrow> APIError option" where
  "presign_error lib req =
     (let purpose = trim_space (pq_Purpose req); n = pq_ContentLength req
      in if purpose \<notin> {PurposeAvatar, PurposePost} then Some (ErrValidation ''That upload purpose is not valid.'' [(''purpose'', purpose_error)])
         else if normaliseContentType (lb_uni lib) (pq_ContentType req) \<notin> {''image/jpeg'', ''image/png'', ''image/webp''} then
           Some (ErrUnsupportedMediaType ''Images must be one of: image/jpeg, image/png, image/webp.'')
         else if n < 1 then Some (ErrValidation ''A content length is required.'' [(''contentLength'', ''must be greater than zero'')])
         else if purpose = PurposeAvatar \<and> n > 5242880 then
           Some (ErrFileTooLarge ''That image is too large. The limit for a avatar is 5 MB.'')
         else if purpose = PurposePost \<and> n > 10485760 then
           Some (ErrFileTooLarge ''That image is too large. The limit for a post is 10 MB.'')
         else None)"

lemma ParsePurpose_eq:
  "ParsePurpose raw = (if trim_space raw \<in> {PurposeAvatar, PurposePost} then Inr (trim_space raw) else Inl purpose_error)"
  by (simp add: ParsePurpose_def constraintsByPurpose_def Let_def)

lemma ExtensionFor_ok: "snd (ExtensionFor uni ct) \<longleftrightarrow> normaliseContentType uni ct \<in> {''image/jpeg'', ''image/png'', ''image/webp''}"
  by (simp add: ExtensionFor_def allowedContentTypes_def split: option.split)

lemma limits_simps:
  "cn_MaxBytes (ConstraintsFor PurposeAvatar) = 5242880" "cn_MaxBytes (ConstraintsFor PurposePost) = 10485760"
  by (simp_all add: ConstraintsFor_def constraintsByPurpose_def PurposeAvatar_def PurposePost_def)

lemma show_limits: "show_nat 5 = ''5''" "show_nat 10 = ''10''"
  by code_simp+

lemma message_texts:
  "''Images must be one of: '' @ join '', '' AllowedContentTypes @ ''.'' = ''Images must be one of: image/jpeg, image/png, image/webp.''"
  "''That image is too large. The limit for a '' @ PurposeAvatar @ '' is '' @ itoa (5242880 div 2 ^ 20) @ '' MB.'' =
     ''That image is too large. The limit for a avatar is 5 MB.''"
  "''That image is too large. The limit for a '' @ PurposePost @ '' is '' @ itoa (10485760 div 2 ^ 20) @ '' MB.'' =
     ''That image is too large. The limit for a post is 10 MB.''"
  by (simp add: AllowedContentTypes_def) (simp_all add: PurposeAvatar_def PurposePost_def itoa_def show_limits del: show_nat.simps)

text \<open>The handler up to the presigner.\<close>

lemma presign_checks:
  assumes "rq_currentUser r = Some me" "DecodeJSON r presign_fields zero_presign = Inr req"
  shows "handlePresign lib srv dr r w s =
    (case presign_error lib req of
       Some e \<Rightarrow> fail e w s
     | None \<Rightarrow>
         (case Presign (lb_uni lib) (lb_s3 lib) (sr_presigner srv) (shift_draws 1 dr) (trim_space (pq_Purpose req))
                 (pq_ContentType req) (pq_ContentLength req) of
            Inl msg \<Rightarrow> fail (ErrInternal msg) w s
          | Inr presigned \<Rightarrow>
              (case on_store (up_Reserve (st_Uploads (sr_store srv)) (dr 0)
                      \<lparr>ul_Key = pd_Key presigned, ul_UserID = u_ID me, ul_Purpose = trim_space (pq_Purpose req),
                       ul_ContentType = pq_ContentType req, ul_ContentLength = pq_ContentLength req,
                       ul_CreatedAt = 0, ul_AttachedAt = None\<rparr>) s of
                 (Inl e, s1) \<Rightarrow> fail (internal e) w s1
               | (Inr _, s1) \<Rightarrow>
                   answer 200 (json_of_presign
                     \<lparr>pn_UploadURL = pd_UploadURL presigned, pn_Key = pd_Key presigned,
                      pn_ExpiresAt = jsontime_New (pd_ExpiresAt presigned)\<rparr>) w s1)))"
proof -
  let ?p = "trim_space (pq_Purpose req)"
  have ne: "PurposeAvatar \<noteq> PurposePost" by (simp add: PurposeAvatar_def PurposePost_def)
  consider "?p \<notin> {PurposeAvatar, PurposePost}" | "?p = PurposeAvatar" | "?p = PurposePost" by blast
  then show ?thesis
  proof cases
    case 1
    then show ?thesis
      unfolding handlePresign_def with_current_user_def assms option.case sum.case ParsePurpose_eq presign_error_def by simp
  next
    case 2
    then have pp: "ParsePurpose (pq_Purpose req) = Inr PurposeAvatar" by (simp add: ParsePurpose_eq)
    show ?thesis
      unfolding handlePresign_def with_current_user_def assms option.case pp sum.case presign_error_def Let_def ExtensionFor_ok 2
      unfolding limits_simps message_texts using ne by simp
  next
    case 3
    then have pp: "ParsePurpose (pq_Purpose req) = Inr PurposePost" by (simp add: ParsePurpose_eq)
    show ?thesis
      unfolding handlePresign_def with_current_user_def assms option.case pp sum.case presign_error_def Let_def ExtensionFor_ok 3
      unfolding limits_simps message_texts using ne by simp
  qed
qed

text \<open>The key a presigned upload gets: 12 random bytes, the purpose and the extension of the image type.\<close>

definition presign_key :: "Lib \<Rightarrow> Draw \<Rightarrow> presignRequest \<Rightarrow> gostring" where
  "presign_key lib d req =
     ''uploads/'' @ hex_encode (rand_bytes d 12) @ ''/'' @ trim_space (pq_Purpose req) @ ''.'' @ fst (ExtensionFor (lb_uni lib) (pq_ContentType req))"

lemma presign_signs:
  assumes ext: "snd (ExtensionFor (lb_uni lib) (pq_ContentType req))"
  shows "Presign (lb_uni lib) s3 p (shift_draws 1 dr) (trim_space (pq_Purpose req)) (pq_ContentType req) n =
    (case s3_PresignPutObject s3 (dr 3) (ps_bucket p) (presign_key lib (dr 1) req) (normaliseContentType (lb_uni lib) (pq_ContentType req))
        n (ps_ttl p) of
       Inl e \<Rightarrow> Inl (''presigning upload: '' @ se_text e)
     | Inr url \<Rightarrow> Inr \<lparr>pd_UploadURL = url, pd_Key = presign_key lib (dr 1) req, pd_ExpiresAt = d_now (dr 2) + ps_ttl p\<rparr>)"
proof -
  have "shift_draws 1 dr 0 = dr 1" "shift_draws 1 dr 1 = dr 2" "shift_draws 1 dr 2 = dr 3"
    by (simp_all add: shift_draws_def numeral_2_eq_2 numeral_3_eq_3)
  moreover have "newKey (dr 1) (trim_space (pq_Purpose req)) (fst (ExtensionFor (lb_uni lib) (pq_ContentType req))) = presign_key lib (dr 1) req"
    by (simp add: newKey_def presign_key_def)
  ultimately show ?thesis
    unfolding Presign_def Let_def split_beta using ext by (simp only: simp_thms if_False)
qed

text \<open>Recording the upload of a request that passes its checks.\<close>

lemma presign_reserves:
  assumes inv: "pg_inv pl db0" and ok: "pg_ok pl d" and row: "pg_users db0 owner = Some u0" and new: "pg_upls db0 key = None"
    and purpose: "purpose \<in> {PurposeAvatar, PurposePost}"
  obtains db where "up_Reserve (pg_Uploads pl) d \<lparr>ul_Key = key, ul_UserID = owner, ul_Purpose = purpose, ul_ContentType = ct,
      ul_ContentLength = len, ul_CreatedAt = 0, ul_AttachedAt = None\<rparr> db0 = (Inr (), db)"
    and "pg_inv pl db" and "db\<lparr>t_uploads := []\<rparr> = db0\<lparr>t_uploads := []\<rparr>"
    and "\<exists>u. pg_upls db = (pg_upls db0)(key := Some u) \<and> ul_ContentType u = ct \<and> ul_ContentLength u = len \<and> ul_CreatedAt u = d_now d"
    and "unused_upload db key owner purpose"
proof -
  let ?u = "\<lparr>ul_Key = key, ul_UserID = owner, ul_Purpose = purpose, ul_ContentType = ct,
      ul_ContentLength = len, ul_CreatedAt = 0, ul_AttachedAt = None\<rparr>"
  have "user_exists (db0\<lparr>t_uploads := []\<rparr>) (ul_UserID ?u)"
    using row pg_users_exists [of db0 owner] by (simp add: user_exists_def)
  moreover have "ul_Purpose ?u \<in> {''avatar'', ''post''}"
    using purpose by (simp add: PurposeAvatar_def PurposePost_def)
  moreover have "pg_upls db0 (ul_Key ?u) = None" using new by simp
  ultimately obtain db where db: "up_Reserve (pg_Uploads pl) d ?u db0 = (Inr (), db)" "pg_inv pl db"
    "db\<lparr>t_uploads := []\<rparr> = db0\<lparr>t_uploads := []\<rparr>"
    "pg_upls db = (pg_upls db0)(ul_Key ?u := Some (?u\<lparr>ul_CreatedAt := d_now d\<rparr>))"
    using pg_upl.Reserve [OF inv, of d ?u] ok by auto
  show thesis
    using db(4) by (intro that [OF db(1-3)]) (auto simp: unused_upload_def)
qed

text \<open>C21: presigning on a Postgres database: a request that is not for an image of a known type, a known purpose and an allowed
  length gets the error of the first check it fails and reserves nothing; otherwise the signature covers a
  fresh key, the type and the length, a refusal of the signer is a 500 that reserves nothing, and a signed URL is
  answered with 200 after exactly one unused upload of the caller was recorded under that key.\<close>

theorem presign_outcomes:
  assumes inv: "pg_inv pl (wd_store s)" and ok: "\<forall>k. pg_ok pl (dr k)" and srv: "sr_store srv = pg_Store pl lp"
    and me: "rq_currentUser r = Some me" and row: "pg_users (wd_store s) (u_ID me) = Some u0"
    and decode: "DecodeJSON r presign_fields zero_presign = Inr req"
    and new: "pg_upls (wd_store s) (presign_key lib (dr 1) req) = None"
  shows "case presign_error lib req of
      Some e \<Rightarrow> handlePresign lib srv dr r w s = fail e w s
    | None \<Rightarrow>
        (let p = sr_presigner srv; key = presign_key lib (dr 1) req; purpose = trim_space (pq_Purpose req) in
         case s3_PresignPutObject (lb_s3 lib) (dr 3) (ps_bucket p) key (normaliseContentType (lb_uni lib) (pq_ContentType req))
                (pq_ContentLength req) (ps_ttl p) of
           Inl e \<Rightarrow> handlePresign lib srv dr r w s = fail (ErrInternal (''presigning upload: '' @ se_text e)) w s
         | Inr url \<Rightarrow> \<exists>db. handlePresign lib srv dr r w s =
               answer 200 (json_of_presign \<lparr>pn_UploadURL = url, pn_Key = key, pn_ExpiresAt = jsontime_New (d_now (dr 2) + ps_ttl p)\<rparr>)
                 w (s\<lparr>wd_store := db\<rparr>)
             \<and> pg_inv pl db \<and> db\<lparr>t_uploads := []\<rparr> = (wd_store s)\<lparr>t_uploads := []\<rparr>
             \<and> (\<exists>u. pg_upls db = (pg_upls (wd_store s))(key := Some u) \<and> ul_ContentType u = pq_ContentType req
                  \<and> ul_ContentLength u = pq_ContentLength req \<and> ul_CreatedAt u = d_now (dr 0))
             \<and> unused_upload db key (u_ID me) purpose)"
proof (cases "presign_error lib req")
  case (Some e)
  then show ?thesis using presign_checks [OF me decode, of lib srv dr w s] by simp
next
  case None
  let ?p = "sr_presigner srv" and ?key = "presign_key lib (dr 1) req" and ?purpose = "trim_space (pq_Purpose req)"
  have ext: "snd (ExtensionFor (lb_uni lib) (pq_ContentType req))" and purpose: "?purpose \<in> {PurposeAvatar, PurposePost}"
    using None unfolding presign_error_def ExtensionFor_ok Let_def by (metis option.distinct(1))+
  let ?sign = "s3_PresignPutObject (lb_s3 lib) (dr 3) (ps_bucket ?p) ?key (normaliseContentType (lb_uni lib) (pq_ContentType req))
      (pq_ContentLength req) (ps_ttl ?p)"
  note sign = presign_signs [OF ext, of "lb_s3 lib" ?p dr]
  note run = presign_checks [OF me decode, of lib srv dr w s, unfolded None option.case sign]
  show ?thesis
  proof (cases ?sign)
    case (Inl e)
    then show ?thesis using run None by (simp add: Let_def)
  next
    case (Inr url)
    from presign_reserves [OF inv ok [THEN spec, of 0] row new purpose, of "pq_ContentType req" "pq_ContentLength req"]
    obtain db where db: "up_Reserve (pg_Uploads pl) (dr 0) \<lparr>ul_Key = ?key, ul_UserID = u_ID me, ul_Purpose = ?purpose,
        ul_ContentType = pq_ContentType req, ul_ContentLength = pq_ContentLength req, ul_CreatedAt = 0, ul_AttachedAt = None\<rparr>
        (wd_store s) = (Inr (), db)"
      "pg_inv pl db" "db\<lparr>t_uploads := []\<rparr> = (wd_store s)\<lparr>t_uploads := []\<rparr>"
      "\<exists>u. pg_upls db = (pg_upls (wd_store s))(?key := Some u) \<and> ul_ContentType u = pq_ContentType req
        \<and> ul_ContentLength u = pq_ContentLength req \<and> ul_CreatedAt u = d_now (dr 0)"
      "unused_upload db ?key (u_ID me) ?purpose" .
    have "handlePresign lib srv dr r w s =
        answer 200 (json_of_presign \<lparr>pn_UploadURL = url, pn_Key = ?key, pn_ExpiresAt = jsontime_New (d_now (dr 2) + ps_ttl ?p)\<rparr>)
          w (s\<lparr>wd_store := db\<rparr>)"
      using run db(1) Inr srv by (simp add: on_store_def)
    then show ?thesis
      unfolding None option.case Let_def Inr sum.case using db(2-5) by blast
  qed
qed

definition ax_presign :: gostring where
  "ax_presign = ''{'' @ quoted ''contentType'' @ '':'' @ quoted ''image/png'' @ '','' @ quoted ''contentLength'' @ '':1000,'' @
     quoted ''purpose'' @ '':'' @ quoted ''post'' @ ''}''"

definition ax_presign_req :: presignRequest where
  "ax_presign_req = \<lparr>pq_ContentType = ''image/png'', pq_ContentLength = 1000, pq_Purpose = ''post''\<rparr>"

lemma ax_presign_decodes: "DecodeJSON (ax_request ax_presign) presign_fields zero_presign = Inr ax_presign_req"
proof (rule DecodeJSON_small)
  show "read_value (rq_Body (ax_request ax_presign)) False = FValue ax_presign []"
    by code_simp
  show "unmarshal_struct presign_fields zero_presign ax_presign = Decoded ax_presign_req"
    by code_simp
qed (simp_all add: ax_request_def ax_presign_def quoted_def)

lemma ax_purpose: "trim_space (pq_Purpose ax_presign_req) = PurposePost"
  by (simp add: ax_presign_req_def PurposePost_def trim_space_id is_ascii_def is_space_def in_range_def)

lemma ax_presign_valid: "presign_error ax_lib ax_presign_req = None"
  using ax_png by (simp add: presign_error_def ax_purpose Let_def) (simp add: ax_presign_req_def PurposePost_def PurposeAvatar_def)

lemma ax_presign_new: "pg_upls (wd_store ax_world) (presign_key ax_lib d ax_presign_req) = None"
  by (simp add: sp_rows presign_key_def)

theorem presign_outcomes_witness:
  "\<exists>j db. handlePresign ax_lib ax_srv (\<lambda>_. sp_draw) (ax_request ax_presign) new_writer ax_world =
       answer 200 j new_writer (ax_world\<lparr>wd_store := db\<rparr>)
     \<and> unused_upload db (presign_key ax_lib sp_draw ax_presign_req) ''u1'' PurposePost"
proof -
  have inv: "pg_inv sp_pl (wd_store ax_world)" and ok: "\<forall>k. pg_ok sp_pl ((\<lambda>_. sp_draw) (k :: nat))"
    by (simp_all add: sp_pg_inv sp_ok)
  have row: "pg_users (wd_store ax_world) (u_ID sp_user) = Some sp_user" and uid: "u_ID sp_user = ''u1''"
    by (simp_all add: sp_rows sp_user_def)
  have signed: "s3_PresignPutObject (lb_s3 ax_lib) d b k ct n t = Inr ''url''" for d b k ct n t
    by (simp add: ax_lib_def op_s3_def)
  show ?thesis
    using presign_outcomes [OF inv ok ax_sel(1) ax_sel(7) row ax_presign_decodes ax_presign_new, of new_writer]
    unfolding ax_presign_valid option.case Let_def signed sum.case ax_purpose uid by blast
qed

end
