(* ===== verification/PrivacyProps.thy ===== *)
theory PrivacyProps
  imports HandlerLaws
begin

text \<open>
  Email addresses stay private: what the endpoints about other people's profiles and posts
  answer is the same whatever email addresses the database holds.
\<close>

section \<open>Replacing every email address\<close>

definition mask_user :: "(User \<Rightarrow> gostring) \<Rightarrow> User \<Rightarrow> User" where
  "mask_user f u = u\<lparr>u_Email := f u\<rparr>"

definition mask_post :: "(User \<Rightarrow> gostring) \<Rightarrow> Post \<Rightarrow> Post" where
  "mask_post f p = p\<lparr>p_Author := map_option (mask_user f) (p_Author p)\<rparr>"

definition mask_page :: "(User \<Rightarrow> gostring) \<Rightarrow> Post Page \<Rightarrow> Post Page" where
  "mask_page f page = page\<lparr>pg_Items := map (mask_post f) (pg_Items page)\<rparr>"

definition mask_row :: "(User \<Rightarrow> gostring) \<Rightarrow> UserRow \<Rightarrow> UserRow" where
  "mask_row f r = r\<lparr>ur_User := mask_user f (ur_User r)\<rparr>"

definition mask_emails :: "(User \<Rightarrow> gostring) \<Rightarrow> PgDB \<Rightarrow> PgDB" where
  "mask_emails f db = db\<lparr>t_users := map (mask_row f) (t_users db)\<rparr>"

definition mask_world :: "(User \<Rightarrow> gostring) \<Rightarrow> PgDB World \<Rightarrow> PgDB World" where
  "mask_world f s = s\<lparr>wd_store := mask_emails f (wd_store s)\<rparr>"

lemma mask_sel [simp]:
  "u_ID (mask_user f u) = u_ID u" "u_Username (mask_user f u) = u_Username u"
  "ur_User (mask_row f r) = mask_user f (ur_User r)"
  "p_ID (mask_post f p) = p_ID p" "p_AuthorID (mask_post f p) = p_AuthorID p" "p_CreatedAt (mask_post f p) = p_CreatedAt p"
  "p_Caption (mask_post f p) = p_Caption p" "p_ImageKey (mask_post f p) = p_ImageKey p"
  "t_posts (mask_emails f db) = t_posts db" "t_tokens (mask_emails f db) = t_tokens db" "t_uploads (mask_emails f db) = t_uploads db"
  "t_users (mask_emails f db) = map (mask_row f) (t_users db)"
  "wd_store (mask_world f s) = mask_emails f (wd_store s)" "wd_log (mask_world f s) = wd_log s"
  "pg_NextCursor (mask_page f page) = pg_NextCursor page" "pg_Items (mask_page f page) = map (mask_post f) (pg_Items page)"
  by (simp_all add: mask_user_def mask_row_def mask_post_def mask_emails_def mask_world_def mask_page_def)

lemma mask_update [simp]:
  "(mask_world f s)\<lparr>wd_store := mask_emails f db\<rparr> = mask_world f (s\<lparr>wd_store := db\<rparr>)"
  "(mask_emails f db)\<lparr>t_posts := ps\<rparr> = mask_emails f (db\<lparr>t_posts := ps\<rparr>)"
  "(mask_emails f db)\<lparr>t_uploads := us\<rparr> = mask_emails f (db\<lparr>t_uploads := us\<rparr>)"
  by (simp_all add: mask_world_def mask_emails_def)

section \<open>The responses\<close>

lemma toPublicUser_mask [simp]: "toPublicUser p (mask_user f u) = toPublicUser p u"
  by (simp add: mask_user_def)

lemma toPost_mask [simp]: "toPost p (mask_post f post) = toPost p post"
  by (cases "p_Author post") (simp_all add: toPost_def mask_post_def)

lemma toPosts_mask [simp]: "toPosts p (map (mask_post f) posts) = toPosts p posts"
  by (induction posts) (simp_all split: option.split)

lemma toPostPage_mask [simp]: "toPostPage p (mask_page f page) = toPostPage p page"
  by (simp add: toPostPage_def)

section \<open>The statements\<close>

lemma sort_slice_map:
  assumes "\<And>a b. lt (g a) (g b) = lt a b"
  shows "sort_slice lt (map g xs) = map g (sort_slice lt xs)"
proof (induction xs)
  case (Cons x xs)
  have "insert_by lt (g x) (map g ys) = map g (insert_by lt x ys)" for ys
    by (induction ys) (simp_all add: assms)
  then show ?case by (simp add: Cons)
qed simp

lemma filter_map_inv: "(\<And>x. P (g x) = P x) \<Longrightarrow> filter P (map g xs) = map g (filter P xs)"
  by (simp add: filter_map comp_def)

lemma first_row_inv: "first_row (map g rows) = map_sum id g (first_row rows)"
  by (rule first_row_map)

lemma query_map: "query d (map_sum id g run) = map_sum id g (query d run)"
  by (auto simp: query_def split: option.split sum.split)

lemma user_exists_mask [simp]: "user_exists (mask_emails f db) = user_exists db"
  by (simp add: user_exists_def fun_eq_iff)

lemma hydrate_mask: "mask_post f (hydrate p (Some u)) = hydrate p (Some (mask_user f u))"
  by (simp add: mask_post_def hydrate_def)

lemma join_posts_mask: "join_posts ps (map (mask_row f) users) = map (mask_post f) (join_posts ps users)"
  by (induction ps) (simp_all add: join_posts_def filter_map_inv comp_def hydrate_mask)

lemma keyset_mask:
  assumes "\<forall>p. keep (mask_post f p) = keep p"
  shows "keyset_query after n keep (mask_emails f db) = map (mask_post f) (keyset_query after n keep db)"
proof -
  have "feed_less (mask_post f p) (mask_post f q) = feed_less p q" "after_cursor pos (mask_post f p) = after_cursor pos p" for p q pos
    by (simp_all add: feed_less_def after_cursor_def)
  then show ?thesis
    unfolding keyset_query_def by (simp add: join_posts_mask filter_map_inv sort_slice_map take_map assms split: option.split)
qed

lemma cut_page_mask:
  assumes "1 \<le> limit"
  shows "cut_page limit (map (mask_post f) ps) = mask_page f (cut_page limit ps)"
proof (cases "int (length ps) > limit")
  case True
  then have "take (nat limit) ps \<noteq> []" using assms by auto
  then show ?thesis
    using True by (simp add: cut_page_def mask_page_def Let_def take_map last_map)
qed (simp add: cut_page_def mask_page_def)

lemma pg_page_mask:
  assumes "\<forall>p. keep (mask_post f p) = keep p"
  shows "pg_page pl lp d req keep (mask_emails f db) = map_sum id (mask_page f) (pg_page pl lp d req keep db)"
proof -
  have "query d (Inr (map (mask_post f) items)) = map_sum id (map (mask_post f)) (query d (Inr items))" for items
    using query_map [of d "map (mask_post f)" "Inr items"] by simp
  then show ?thesis
    unfolding pg_page_def Let_def keyset_mask [OF assms]
    using Normalise_bounds [of req] by (auto simp: cut_page_mask split: sum.split)
qed

lemma user_ByUsername_mask:
  "pg_user_ByUsername d n (mask_emails f db) = map_sum id (mask_user f) (pg_user_ByUsername d n db)"
  by (simp add: pg_user_ByUsername_def filter_map_inv comp_def flip: query_map first_row_map)

lemma post_ByID_mask: "pg_post_ByID d i (mask_emails f db) = map_sum id (mask_post f) (pg_post_ByID d i db)"
  by (simp add: pg_post_ByID_def join_posts_mask filter_map_inv flip: query_map first_row_map)

lemma post_Create_mask:
  "pg_post_Create d inp (mask_emails f db) = map_prod (map_sum id (mask_post f)) (mask_emails f) (pg_post_Create d inp db)"
proof -
  have "insert_post p (mask_emails f db) = map_prod (map_sum id (mask_post f)) (mask_emails f) (insert_post p db)" for p
    by (auto simp: insert_post_def join_posts_mask first_row_map split: sum.split)
  then show ?thesis
    by (auto simp: pg_post_Create_def statement_def split: option.split prod.split sum.split)
qed

lemma post_Delete_mask: "pg_post_Delete d i me (mask_emails f db) = apsnd (mask_emails f) (pg_post_Delete d i me db)"
  by (auto simp: pg_post_Delete_def statement_def delete_post_def Let_def split: option.split)

lemma upload_Claim_mask: "pg_upload_Claim pl d key me purpose now (mask_emails f db) = apsnd (mask_emails f) (pg_upload_Claim pl d key me purpose now db)"
  by (auto simp: pg_upload_Claim_def statement_def claim_upload_def Let_def split: option.split)

section \<open>The handlers\<close>

text \<open>Two runs differ in the email addresses of the database only: the same verdict and the same bytes.\<close>

definition mask_result :: "(User \<Rightarrow> gostring) \<Rightarrow> verdict \<times> Writer \<times> PgDB World \<Rightarrow> verdict \<times> Writer \<times> PgDB World" where
  "mask_result f = (\<lambda>(v, w, s). (v, w, mask_world f s))"

lemma mask_result_simps [simp]:
  "mask_result f (v, w, s) = (v, w, mask_world f s)"
  "fail e w (mask_world f s) = mask_result f (fail e w s)"
  "answer c j w (mask_world f s) = mask_result f (answer c j w s)"
  "answer_opt c jo w (mask_world f s) = mask_result f (answer_opt c jo w s)"
  by (auto simp: mask_result_def plumbing_defs split: option.split)

lemma on_store_mask:
  "g (mask_emails f (wd_store s)) = map_prod h (mask_emails f) (g (wd_store s)) \<Longrightarrow>
     on_store g (mask_world f s) = map_prod h (mask_world f) (on_store g s)"
  by (simp add: on_store_def split: prod.split)

lemma claimUpload_mask:
  assumes "st_Uploads (sr_store srv) = pg_Uploads pl"
  shows "claimUpload lib srv dr me key purpose (mask_world f s) = apsnd (mask_world f) (claimUpload lib srv dr me key purpose s)"
proof -
  have "on_store (up_Claim (st_Uploads (sr_store srv)) d key (u_ID me) purpose now) (mask_world f s) =
      map_prod id (mask_world f) (on_store (up_Claim (st_Uploads (sr_store srv)) d key (u_ID me) purpose now) s)" for d now
    by (rule on_store_mask) (simp add: assms pg_Uploads_def upload_Claim_mask apsnd_def)
  then show ?thesis
    by (simp add: claimUpload_def split: option.split prod.split sum.split store_error.split)
qed

lemma answer_page_mask: "answer_page srv (map_sum id (mask_page f) res) w (mask_world f s) = mask_result f (answer_page srv res w s)"
  by (simp add: answer_page_def split: sum.split)

lemma handleCreatePost_mask:
  assumes srv: "sr_store srv = pg_Store pl lp"
  shows "handleCreatePost lib srv dr r w (mask_world f s) = mask_result f (handleCreatePost lib srv dr r w s)"
proof -
  have ins: "on_store (ps_Create (pg_Posts pl lp) d np) (mask_world f s1) =
      map_prod (map_sum id (mask_post f)) (mask_world f) (on_store (ps_Create (pg_Posts pl lp) d np) s1)" for d np s1
    by (rule on_store_mask) (simp add: pg_Posts_def post_Create_mask)
  have claim: "claim_first lib srv dr' me k PurposePost (mask_world f s) = apsnd (mask_world f) (claim_first lib srv dr' me k PurposePost s)"
    for k dr' me
    using srv by (simp add: claim_first_def claimUpload_mask split: option.split)
  show ?thesis
  proof (cases "rq_currentUser r")
    case None
    then show ?thesis by (simp add: handleCreatePost_def with_current_user_def)
  next
    case me: (Some me)
    show ?thesis
    proof (cases "DecodeJSON r create_post_fields zero_create_post")
      case (Inl e)
      then show ?thesis using me by (simp add: handleCreatePost_def with_current_user_def)
    next
      case req: (Inr req)
      obtain caption errs where cap: "Caption [] ''caption'' (cq_Caption req) = (caption, errs)" by fastforce
      obtain err s1 where c: "claim_first lib srv (shift_draws 1 dr) me (image_key_of req) PurposePost s = (err, s1)" by fastforce
      note c' = c [unfolded claim_first_def] and
        d' = claim [of "shift_draws 1 dr" me "image_key_of req", unfolded c, unfolded claim_first_def apsnd_conv]
      obtain res s2 where i: "on_store (ps_Create (pg_Posts pl lp) (dr 0)
          \<lparr>np_AuthorID = u_ID me, np_ImageKey = image_key_of req, np_Caption = caption\<rparr>) s1 = (res, s2)" by fastforce
      show ?thesis
        unfolding handleCreatePost_def with_current_user_def me option.case req sum.case cap prod.case c' d'
        by (cases err; cases res) (simp_all add: srv ins i)
    qed
  qed
qed

text \<open>C11: on a Postgres database the endpoints about profiles and posts never reveal an email address: replacing the email
  of every account changes neither the verdict nor a byte of the answer of the profile, its posts, the
  feed, a post, the creation or the deletion of a post, nor what they write.\<close>

theorem emails_stay_private:
  "let srv = srv0\<lparr>sr_store := pg_Store pl lp\<rparr> in
    handleGetUser srv dr r w (mask_world f s) = mask_result f (handleGetUser srv dr r w s)
    \<and> handleUserPosts srv dr r w (mask_world f s) = mask_result f (handleUserPosts srv dr r w s)
    \<and> handleFeed srv dr r w (mask_world f s) = mask_result f (handleFeed srv dr r w s)
    \<and> handleGetPost srv dr r w (mask_world f s) = mask_result f (handleGetPost srv dr r w s)
    \<and> handleCreatePost lib srv dr r w (mask_world f s) = mask_result f (handleCreatePost lib srv dr r w s)
    \<and> handleDeletePost srv dr r w (mask_world f s) = mask_result f (handleDeletePost srv dr r w s)"
  unfolding Let_def
proof (intro conjI)
  let ?srv = "srv0\<lparr>sr_store := pg_Store pl lp\<rparr>"
  have srv: "sr_store ?srv = pg_Store pl lp" by simp
  have user: "userByUsername ?srv d r (mask_world f s) = map_sum id (mask_user f) (userByUsername ?srv d r s)" for d
    by (simp add: userByUsername_def Let_def srv pg_Users_def user_ByUsername_mask split: sum.split store_error.split prod.split)
  show "handleGetUser ?srv dr r w (mask_world f s) = mask_result f (handleGetUser ?srv dr r w s)"
    by (simp add: handleGetUser_def user split: sum.split)
  show "handleUserPosts ?srv dr r w (mask_world f s) = mask_result f (handleUserPosts ?srv dr r w s)"
    by (simp add: handleUserPosts_def user srv pg_Posts_def pg_post_ByAuthor_def pg_page_mask answer_page_mask split: sum.split)
  show "handleFeed ?srv dr r w (mask_world f s) = mask_result f (handleFeed ?srv dr r w s)"
    by (simp add: handleFeed_def srv pg_Posts_def pg_post_Feed_def pg_page_mask answer_page_mask split: sum.split)
  show "handleGetPost ?srv dr r w (mask_world f s) = mask_result f (handleGetPost ?srv dr r w s)"
    by (simp add: handleGetPost_def srv pg_Posts_def post_ByID_mask split: sum.split store_error.split)
  show "handleCreatePost lib ?srv dr r w (mask_world f s) = mask_result f (handleCreatePost lib ?srv dr r w s)"
    by (rule handleCreatePost_mask [OF srv])
  have "on_store (ps_Delete (pg_Posts pl lp) d i me) (mask_world f s) =
      map_prod id (mask_world f) (on_store (ps_Delete (pg_Posts pl lp) d i me) s)" for d i me
    by (rule on_store_mask) (simp add: pg_Posts_def post_Delete_mask apsnd_def)
  then show "handleDeletePost ?srv dr r w (mask_world f s) = mask_result f (handleDeletePost ?srv dr r w s)"
    by (simp add: handleDeletePost_def with_current_user_def srv split: option.split sum.split prod.split store_error.split)
qed

end
