(* ===== verification/RouteProps.thy ===== *)
theory RouteProps
  imports Contract ApiInputs
begin

text \<open>
  The routing table of \<open>internal/api/api.go\<close> against a direct reading of it, and the guard
  in front of the endpoints that need a signed-in user.
\<close>

section \<open>The endpoints\<close>

datatype endpoint =
    EpHealth | EpReady | EpRegister | EpLogin | EpRefresh | EpLogout | EpGetMe | EpUpdateMe | EpGetUser gostring
  | EpUserPosts gostring | EpPresign | EpFeed | EpCreatePost | EpGetPost gostring | EpDeletePost gostring
  | EpDocs | EpOpenAPI | EpUnmatched

text \<open>Which endpoint a method and a path name, read off the documentation instead of the table.\<close>

definition endpoint_v1_two :: "bool \<Rightarrow> gostring \<Rightarrow> gostring \<Rightarrow> gostring \<Rightarrow> endpoint" where
  "endpoint_v1_two get m a b =
     (if a = ''auth'' \<and> m = MethodPost then
        if b = ''register'' then EpRegister else if b = ''login'' then EpLogin
        else if b = ''refresh'' then EpRefresh else if b = ''logout'' then EpLogout else EpUnmatched
      else if a = ''uploads'' \<and> b = ''presign'' \<and> m = MethodPost then EpPresign
      else if a = ''users'' \<and> b = ''me'' \<and> m = MethodPatch then EpUpdateMe
      else if a = ''users'' \<and> b = ''me'' \<and> get then EpGetMe
      else if a = ''users'' \<and> b \<noteq> ''/'' \<and> get then EpGetUser b
      else if a = ''posts'' \<and> b \<noteq> ''/'' \<and> get then EpGetPost b
      else if a = ''posts'' \<and> b \<noteq> ''/'' \<and> m = MethodDelete then EpDeletePost b
      else EpUnmatched)"

definition endpoint_of :: "bool \<Rightarrow> gostring \<Rightarrow> gostring list \<Rightarrow> endpoint" where
  "endpoint_of docs m path =
     (let get = (m = MethodGet \<or> m = MethodHead)
      in case path of
           [a] \<Rightarrow>
             if a = ''healthz'' \<and> get then EpHealth else if a = ''readyz'' \<and> get then EpReady
             else if a = ''docs'' \<and> get \<and> docs then EpDocs
             else if a = ''openapi.yaml'' \<and> get \<and> docs then EpOpenAPI else EpUnmatched
         | [v, a] \<Rightarrow>
             if v = ''v1'' \<and> a = ''posts'' \<and> get then EpFeed
             else if v = ''v1'' \<and> a = ''posts'' \<and> m = MethodPost then EpCreatePost else EpUnmatched
         | [v, a, b] \<Rightarrow> if v = ''v1'' then endpoint_v1_two get m a b else EpUnmatched
         | [v, a, b, c] \<Rightarrow>
             if v = ''v1'' \<and> a = ''users'' \<and> b \<noteq> ''/'' \<and> c = ''posts'' \<and> get then EpUserPosts b else EpUnmatched
         | _ \<Rightarrow> EpUnmatched)"

fun path_vars :: "endpoint \<Rightarrow> (gostring \<times> gostring) list" where
  "path_vars (EpGetUser u) = [(''username'', u)]"
| "path_vars (EpUserPosts u) = [(''username'', u)]"
| "path_vars (EpGetPost i) = [(''id'', i)]"
| "path_vars (EpDeletePost i) = [(''id'', i)]"
| "path_vars _ = []"

fun needs_user :: "endpoint \<Rightarrow> bool" where
  "needs_user ep \<longleftrightarrow> ep \<notin> {EpHealth, EpReady, EpRegister, EpLogin, EpRefresh, EpDocs, EpOpenAPI, EpUnmatched}"

fun is_credentials :: "endpoint \<Rightarrow> bool" where
  "is_credentials ep \<longleftrightarrow> ep \<in> {EpRegister, EpLogin, EpRefresh}"

text \<open>The handler of an endpoint, without the middleware in front of it.\<close>

fun endpoint_handler :: "Lib \<Rightarrow> 's Server \<Rightarrow> endpoint \<Rightarrow> ('s, User) api_handler" where
  "endpoint_handler lib srv EpHealth = handleHealth lib srv"
| "endpoint_handler lib srv EpReady = handleReady lib srv"
| "endpoint_handler lib srv EpRegister = handleRegister lib srv"
| "endpoint_handler lib srv EpLogin = handleLogin lib srv"
| "endpoint_handler lib srv EpRefresh = handleRefresh lib srv"
| "endpoint_handler lib srv EpLogout = handleLogout lib srv"
| "endpoint_handler lib srv EpGetMe = handleGetMe srv"
| "endpoint_handler lib srv EpUpdateMe = handleUpdateMe lib srv"
| "endpoint_handler lib srv (EpGetUser _) = handleGetUser srv"
| "endpoint_handler lib srv (EpUserPosts _) = handleUserPosts srv"
| "endpoint_handler lib srv EpPresign = handlePresign lib srv"
| "endpoint_handler lib srv EpFeed = handleFeed srv"
| "endpoint_handler lib srv EpCreatePost = handleCreatePost lib srv"
| "endpoint_handler lib srv (EpGetPost _) = handleGetPost srv"
| "endpoint_handler lib srv (EpDeletePost _) = handleDeletePost srv"
| "endpoint_handler lib srv EpDocs = handleDocs"
| "endpoint_handler lib srv EpOpenAPI = handleOpenAPISpec lib"
| "endpoint_handler lib srv EpUnmatched = handleUnmatched"

text \<open>With it: the token check where a user is needed, the stricter limiter where credentials are.\<close>

definition serve_endpoint :: "Lib \<Rightarrow> 's Server \<Rightarrow> endpoint \<Rightarrow> ('s, User) http_handler" where
  "serve_endpoint lib srv ep =
     (if needs_user ep then protected lib srv (endpoint_handler lib srv ep)
      else if is_credentials ep then
        limit_middleware (lb_rnd lib) wd_authLimiter (\<lambda>rl. wd_authLimiter_update (\<lambda>_. rl)) (clientKey srv)
          (ServeHTTP (endpoint_handler lib srv ep))
      else ServeHTTP (endpoint_handler lib srv ep))"

section \<open>Dispatch\<close>

lemma match_method_simps:
  "match_method MethodGet m \<longleftrightarrow> m = MethodGet \<or> m = MethodHead"
  "match_method MethodPost m \<longleftrightarrow> m = MethodPost"
  "match_method MethodPatch m \<longleftrightarrow> m = MethodPatch"
  "match_method MethodDelete m \<longleftrightarrow> m = MethodDelete"
  "match_method [] m"
  by (auto simp: match_method_def MethodGet_def MethodHead_def MethodPost_def MethodPatch_def MethodDelete_def)

lemma methods_distinct:
  "MethodGet \<noteq> MethodPost" "MethodGet \<noteq> MethodPatch" "MethodGet \<noteq> MethodDelete" "MethodHead \<noteq> MethodPost"
  "MethodHead \<noteq> MethodPatch" "MethodHead \<noteq> MethodDelete" "MethodPost \<noteq> MethodPatch" "MethodPost \<noteq> MethodDelete"
  "MethodPatch \<noteq> MethodDelete"
  by (simp_all add: MethodGet_def MethodHead_def MethodPost_def MethodPatch_def MethodDelete_def)

lemmas dispatch_simps = mux_table_def Routes_def Let_def route_def path_v1_def match_method_simps methods_distinct
  methods_distinct [symmetric] endpoint_of_def endpoint_v1_two_def

text \<open>What the table selects: the pattern aside, the endpoint's variables and its handler.\<close>

abbreviation selects :: "Lib \<Rightarrow> 's Server \<Rightarrow> gostring \<Rightarrow> gostring list \<Rightarrow> endpoint \<Rightarrow> bool" where
  "selects lib srv m path ep \<equiv>
     map_option snd (best_match None (mux_table (Routes lib srv)) m path) = Some (path_vars ep, serve_endpoint lib srv ep)"

text \<open>A method is one of five kinds.\<close>

lemma method_kinds:
  obtains (get) "m = MethodGet \<or> m = MethodHead" "m \<noteq> MethodPost" "m \<noteq> MethodPatch" "m \<noteq> MethodDelete"
  | (post) "m = MethodPost" | (patch) "m = MethodPatch" | (delete) "m = MethodDelete"
  | (other) "m \<noteq> MethodGet" "m \<noteq> MethodHead" "m \<noteq> MethodPost" "m \<noteq> MethodPatch" "m \<noteq> MethodDelete"
  using methods_distinct by metis

text \<open>The entries that match the request, and the choice among them.\<close>

definition matching :: "(gostring \<times> pattern \<times> 'h) list \<Rightarrow> gostring \<Rightarrow> gostring list \<Rightarrow> (pattern \<times> (gostring \<times> gostring) list \<times> 'h) list" where
  "matching rs m path = concat (map (\<lambda>(m', p, h). if match_method m' m then (case match_path p path of None \<Rightarrow> [] | Some vs \<Rightarrow> [(p, vs, h)]) else []) rs)"

fun pick_best :: "(pattern \<times> (gostring \<times> gostring) list \<times> 'h) option \<Rightarrow> (pattern \<times> (gostring \<times> gostring) list \<times> 'h) list
    \<Rightarrow> (pattern \<times> (gostring \<times> gostring) list \<times> 'h) option" where
  "pick_best best [] = best"
| "pick_best None (c # cs) = pick_best (Some c) cs"
| "pick_best (Some b) (c # cs) = pick_best (Some (if more_specific (fst c) (fst b) then c else b)) cs"

lemma best_match_pick: "best_match best rs m path = pick_best best (matching rs m path)"
  by (induction best rs m path rule: best_match.induct)
    (auto simp: matching_def split: option.split)

lemma matching_simps:
  "matching [] m path = []"
  "matching ((m', p, h) # rs) m path =
     (if match_method m' m then (case match_path p path of None \<Rightarrow> [] | Some vs \<Rightarrow> [(p, vs, h)]) else []) @ matching rs m path"
  "matching (rs @ rs') m path = matching rs m path @ matching rs' m path"
  by (simp_all add: matching_def)

lemmas table_simps = best_match_pick dispatch_simps matching_simps serve_endpoint_def

lemma selects_1: "selects lib srv m [a] (endpoint_of (cf_DocsEnabled (sr_cfg srv)) m [a])"
proof -
  consider "a = ''healthz''" | "a = ''readyz''" | "a = ''docs''" | "a = ''openapi.yaml''"
    | "a \<noteq> ''healthz''" "a \<noteq> ''readyz''" "a \<noteq> ''docs''" "a \<noteq> ''openapi.yaml''" by blast
  then show ?thesis
    by cases (cases m rule: method_kinds; simp add: table_simps)+
qed

text \<open>The other lengths of a path.\<close>

lemma selects_0: "selects lib srv m [] (endpoint_of (cf_DocsEnabled (sr_cfg srv)) m [])"
  by (simp add: table_simps)

lemma selects_not_v1:
  "v \<noteq> ''v1'' \<Longrightarrow> selects lib srv m (v # a # path) (endpoint_of (cf_DocsEnabled (sr_cfg srv)) m (v # a # path))"
  by (cases path; cases "tl path"; cases "tl (tl path)") (simp_all add: table_simps)

lemma selects_2: "selects lib srv m [''v1'', a] (endpoint_of (cf_DocsEnabled (sr_cfg srv)) m [''v1'', a])"
  by (cases "a = ''posts''"; cases m rule: method_kinds; simp add: table_simps)

lemma selects_3_auth: "selects lib srv m [''v1'', ''auth'', b] (endpoint_of (cf_DocsEnabled (sr_cfg srv)) m [''v1'', ''auth'', b])"
proof -
  consider "b = ''register''" | "b = ''login''" | "b = ''refresh''" | "b = ''logout''"
    | "b \<noteq> ''register''" "b \<noteq> ''login''" "b \<noteq> ''refresh''" "b \<noteq> ''logout''" by blast
  then show ?thesis
    by cases (cases m rule: method_kinds; simp add: table_simps)+
qed

lemma selects_3_users: "selects lib srv m [''v1'', ''users'', b] (endpoint_of (cf_DocsEnabled (sr_cfg srv)) m [''v1'', ''users'', b])"
proof -
  consider "b = ''me''" | "b = ''/''" | "b \<noteq> ''me''" "b \<noteq> ''/''" by blast
  then show ?thesis
    by cases (cases m rule: method_kinds; simp add: table_simps)+
qed

lemma selects_3_posts: "selects lib srv m [''v1'', ''posts'', b] (endpoint_of (cf_DocsEnabled (sr_cfg srv)) m [''v1'', ''posts'', b])"
  by (cases "b = ''/''"; cases m rule: method_kinds; simp add: table_simps)

lemma selects_3: "selects lib srv m [''v1'', a, b] (endpoint_of (cf_DocsEnabled (sr_cfg srv)) m [''v1'', a, b])"
proof -
  consider "a = ''auth''" | "a = ''users''" | "a = ''posts''" | "a = ''uploads''"
    | "a \<noteq> ''auth''" "a \<noteq> ''users''" "a \<noteq> ''posts''" "a \<noteq> ''uploads''" by blast
  then show ?thesis
  proof cases
    case 4
    then show ?thesis
      by (cases "b = ''presign''"; cases m rule: method_kinds; simp add: table_simps)
  next
    case 5
    then show ?thesis
      by (cases m rule: method_kinds; simp add: table_simps)
  qed (simp_all only: selects_3_auth selects_3_users selects_3_posts)
qed

lemma selects_4: "selects lib srv m [''v1'', a, b, c] (endpoint_of (cf_DocsEnabled (sr_cfg srv)) m [''v1'', a, b, c])"
proof -
  consider "a = ''users''" "c = ''posts''" "b = ''/''" | "a = ''users''" "c = ''posts''" "b \<noteq> ''/''"
    | "a = ''users''" "c \<noteq> ''posts''" | "a \<noteq> ''users''" by blast
  then show ?thesis
    by cases (cases m rule: method_kinds; simp add: table_simps)+
qed

lemma selects_longer:
  "selects lib srv m (''v1'' # a # b # c # d # path) (endpoint_of (cf_DocsEnabled (sr_cfg srv)) m (''v1'' # a # b # c # d # path))"
  by (simp add: table_simps)

lemma path_shapes:
  obtains "path = []" | a where "path = [a]" | v a rest where "path = v # a # rest" "v \<noteq> ''v1''"
    | a where "path = [''v1'', a]" | a b where "path = [''v1'', a, b]" | a b c where "path = [''v1'', a, b, c]"
    | a b c d rest where "path = ''v1'' # a # b # c # d # rest"
proof (cases path)
  case (Cons v p1)
  note path = this
  show thesis
  proof (cases p1)
    case p2: (Cons a p2)
    show thesis
    proof (cases "v = ''v1''")
      case True
      show thesis
      proof (cases p2)
        case p3: (Cons b p3)
        show thesis
        proof (cases p3)
          case (Cons c p4)
          then show thesis using that(6,7) path p2 p3 True by (cases p4) blast+
        qed (use that(5) path p2 p3 True in blast)
      qed (use that(4) path p2 True in blast)
    qed (use that(3) path p2 in blast)
  qed (use that(2) path in blast)
qed (use that(1) in blast)

lemma table_selects: "selects lib srv m path (endpoint_of (cf_DocsEnabled (sr_cfg srv)) m path)"
  by (cases path rule: path_shapes)
    (simp_all only: selects_0 selects_1 selects_not_v1 selects_2 selects_3 selects_4 selects_longer not_False_eq_True)

lemma mux_serves:
  "serve_mux (mux_table (Routes lib srv)) dr r w s =
     (let ep = endpoint_of (cf_DocsEnabled (sr_cfg srv)) (rq_Method r) (rq_Path r)
      in serve_endpoint lib srv ep dr (r\<lparr>rq_PathValue := path_value (path_vars ep)\<rparr>) w s)"
proof -
  obtain p where "best_match None (mux_table (Routes lib srv)) (rq_Method r) (rq_Path r) =
      Some (p, path_vars (endpoint_of (cf_DocsEnabled (sr_cfg srv)) (rq_Method r) (rq_Path r)),
        serve_endpoint lib srv (endpoint_of (cf_DocsEnabled (sr_cfg srv)) (rq_Method r) (rq_Path r)))"
    using table_selects [of lib srv "rq_Method r" "rq_Path r"] by auto
  then show ?thesis
    unfolding serve_mux_def Let_def by simp
qed


section \<open>The token check\<close>

lemma authenticate_cases:
  obtains (refused) e where "authenticate lib srv dr r st = Inl e" "ae_Status e = 401 \<or> ae_Status e = 500"
  | (accepted) me scheme token userID where "authenticate lib srv dr r st = Inr me"
      "cut CHR '' '' (rq_Header r ''Authorization'') = (scheme, token, True)" "equal_fold scheme ''Bearer''"
      "ParseAccess (lb_jwt lib) (sr_issuer srv) (dr 0) (trim_space token) = Inr userID"
      "us_ByID (st_Users (sr_store srv)) (dr 1) userID st = Inr me"
proof (cases "authenticate lib srv dr r st")
  case (Inl e)
  then have "ae_Status e = 401 \<or> ae_Status e = 500"
    by (auto simp: authenticate_def Let_def api_error_defs internal_def
        split: if_splits prod.splits sum.splits auth_error.splits store_error.splits)
  with Inl show thesis by (rule refused)
next
  case (Inr me)
  obtain scheme token found where c: "cut CHR '' '' (rq_Header r ''Authorization'') = (scheme, token, found)"
    by (cases "cut CHR '' '' (rq_Header r ''Authorization'')") auto
  obtain userID where "found" "equal_fold scheme ''Bearer''"
    "ParseAccess (lb_jwt lib) (sr_issuer srv) (dr 0) (trim_space token) = Inr userID"
    "us_ByID (st_Users (sr_store srv)) (dr 1) userID st = Inr me"
    using Inr c by (auto simp: authenticate_def Let_def split: if_splits sum.splits auth_error.splits store_error.splits)
  with Inr c show thesis by (intro accepted) simp_all
qed

lemma authenticate_PathValue [simp]: "authenticate lib srv dr (r\<lparr>rq_PathValue := f\<rparr>) st = authenticate lib srv dr r st"
  by (simp add: authenticate_def)

lemma error_log_request [simp]:
  "error_log (r\<lparr>rq_PathValue := f\<rparr>) e = error_log r e" "error_log (r\<lparr>rq_currentUser := u\<rparr>) e = error_log r e"
  by (simp_all add: error_log_def url_path_def)

lemma WriteError_request [simp]:
  "WriteError (r\<lparr>rq_PathValue := f\<rparr>) e = WriteError r e" "WriteError (r\<lparr>rq_currentUser := u\<rparr>) e = WriteError r e"
  by (simp_all add: WriteError_def fun_eq_iff)

lemma protected_refuses:
  "authenticate lib srv dr r (wd_store s) = Inl e \<Longrightarrow>
     protected lib srv h dr r w s =
       (Completed, writeRaw (ae_Status e) (mustEnvelope e) w, s\<lparr>wd_log := wd_log s @ [error_log r e]\<rparr>)"
  by (simp add: protected_def ServeHTTP_def fail_def WriteError_def AsAPIError_def Let_def)

lemma protected_admits:
  "authenticate lib srv dr r (wd_store s) = Inr me \<Longrightarrow>
     protected lib srv h dr r w s = ServeHTTP h (shift_draws 2 dr) (r\<lparr>rq_currentUser := Some me\<rparr>) w s"
  by (simp add: protected_def ServeHTTP_def split: prod.split verdict.split)

text \<open>C5: an endpoint other than the probes, the documentation, registration, login and refresh is reached only with a
  bearer token that parses as an access token of a stored user, and then with that user as the current
  one; otherwise the request is refused with 401 (500 when the database fails) and the store is unchanged.\<close>

theorem guarded_endpoints:
  assumes "needs_user (endpoint_of (cf_DocsEnabled (sr_cfg srv)) (rq_Method r) (rq_Path r))"
  shows "(\<exists>e. authenticate lib srv dr r (wd_store s) = Inl e \<and> (ae_Status e = 401 \<or> ae_Status e = 500)
      \<and> serve_mux (mux_table (Routes lib srv)) dr r w s =
          (Completed, writeRaw (ae_Status e) (mustEnvelope e) w, s\<lparr>wd_log := wd_log s @ [error_log r e]\<rparr>))
    \<or> (\<exists>me scheme token userID. cut CHR '' '' (rq_Header r ''Authorization'') = (scheme, token, True) \<and> equal_fold scheme ''Bearer''
      \<and> ParseAccess (lb_jwt lib) (sr_issuer srv) (dr 0) (trim_space token) = Inr userID
      \<and> us_ByID (st_Users (sr_store srv)) (dr 1) userID (wd_store s) = Inr me
      \<and> serve_mux (mux_table (Routes lib srv)) dr r w s =
          (let ep = endpoint_of (cf_DocsEnabled (sr_cfg srv)) (rq_Method r) (rq_Path r)
           in ServeHTTP (endpoint_handler lib srv ep) (shift_draws 2 dr)
                (r\<lparr>rq_PathValue := path_value (path_vars ep), rq_currentUser := Some me\<rparr>) w s))"
proof -
  let ?ep = "endpoint_of (cf_DocsEnabled (sr_cfg srv)) (rq_Method r) (rq_Path r)"
  have run: "serve_mux (mux_table (Routes lib srv)) dr r w s =
      protected lib srv (endpoint_handler lib srv ?ep) dr (r\<lparr>rq_PathValue := path_value (path_vars ?ep)\<rparr>) w s"
    unfolding mux_serves Let_def serve_endpoint_def using assms by (simp only: if_True)
  show ?thesis
  proof (cases rule: authenticate_cases [of lib srv dr r "wd_store s"])
    case (refused e)
    then show ?thesis unfolding run by (simp add: protected_refuses)
  next
    case (accepted me scheme token userID)
    then show ?thesis unfolding run by (simp add: protected_admits Let_def)
  qed
qed

definition ax_feed_request :: "User Request" where
  "ax_feed_request = (ax_request [])\<lparr>rq_Method := MethodGet, rq_Path := [''v1'', ''posts'']\<rparr>"

theorem guarded_endpoints_witness:
  "serve_mux (mux_table (Routes ax_lib ax_srv)) (\<lambda>_. sp_draw) ax_feed_request new_writer ax_world =
     (Completed, writeRaw 401 (mustEnvelope APITokenInvalid) new_writer,
      ax_world\<lparr>wd_log := wd_log ax_world @ [error_log ax_feed_request APITokenInvalid]\<rparr>)"
proof -
  have ep: "needs_user (endpoint_of (cf_DocsEnabled (sr_cfg ax_srv)) (rq_Method ax_feed_request) (rq_Path ax_feed_request))"
    by (simp add: ax_feed_request_def endpoint_of_def)
  have "authenticate ax_lib ax_srv (\<lambda>_. sp_draw) ax_feed_request (wd_store ax_world) = Inl APITokenInvalid"
    "cut CHR '' '' (rq_Header ax_feed_request ''Authorization'') = ([], [], False)"
    by (simp_all add: authenticate_def ax_feed_request_def ax_request_def)
  then show ?thesis
    using guarded_endpoints [OF ep, of ax_lib "\<lambda>_. sp_draw" ax_world new_writer] by (simp add: APITokenInvalid_def)
qed

end
