(* ===== verification/RefreshProps.thy ===== *)
theory RefreshProps
  imports ApiInputs
begin

text \<open>Refreshing a session through the API, over the Postgres store.\<close>

definition redeems :: "gostring \<Rightarrow> PgDB \<Rightarrow> gostring \<Rightarrow> RefreshToken \<Rightarrow> bool" where
  "redeems presented db i t \<longleftrightarrow> pg_toks db i = Some t \<and> rt_TokenHash t = HashRefreshToken presented"

lemma users_without_tokens: "db'\<lparr>t_tokens := []\<rparr> = db\<lparr>t_tokens := []\<rparr> \<Longrightarrow> pg_users db' = pg_users db"
  by (cases db; cases db') (simp add: pg_users_def fun_eq_iff)

text \<open>What the endpoint answers when the exchange is refused.\<close>

lemma refresh_refused:
  assumes "sv_tokens (sr_sessions srv) = pg_Tokens pl" and "DecodeJSON r refresh_fields [] = Inr presented" "presented \<noteq> []"
    and "Rotate (lb_jwt lib) (sr_sessions srv) (shift_draws 1 dr) presented (wd_store s) = (Inl e, db)"
    and "e \<in> {ErrTokenInvalid, ErrTokenExpired}"
  shows "handleRefresh lib srv dr r w s = fail APITokenInvalid w (s\<lparr>wd_store := db\<rparr>)"
  using assms by (auto simp: handleRefresh_def on_store_def simp del: One_nat_def)

lemma refresh_accepted:
  assumes inv: "pg_inv pl (wd_store s)" and ok: "\<forall>k. pg_ok pl (dr k)"
    and srv: "sr_store srv = pg_Store pl lp" "sv_tokens (sr_sessions srv) = pg_Tokens pl"
    and decode: "DecodeJSON r refresh_fields [] = Inr presented" "presented \<noteq> []"
    and fresh: "fresh_draws (pg_toks (wd_store s)) (shift_draws 1 dr)"
    and sign: "\<forall>uid. \<exists>a x. IssueAccess (lb_jwt lib) (sv_issuer (sr_sessions srv)) (dr 1) uid = Inr (a, x)"
    and t: "redeems presented (wd_store s) i t" "rt_Active t (d_now (dr 7))"
  shows "\<exists>u session db token. handleRefresh lib srv dr r w s =
        answer 200 (json_of_auth (toAuthResponse (sr_presigner srv) session u)) w (s\<lparr>wd_store := db\<rparr>)
      \<and> pg_users (wd_store s) (rt_UserID t) = Some u \<and> pg_inv pl db \<and> db\<lparr>t_tokens := []\<rparr> = (wd_store s)\<lparr>t_tokens := []\<rparr>
      \<and> pg_toks db = (pg_toks (wd_store s))(i \<mapsto> t\<lparr>rt_UsedAt := Some (pg_timestamptz pl (d_now (dr 7)))\<rparr>, rt_ID token \<mapsto> token)
      \<and> rt_UserID token = rt_UserID t \<and> rt_FamilyID token = rt_FamilyID t \<and> live token
      \<and> rt_TokenHash token = HashRefreshToken (ss_RefreshToken session)"
proof -
  let ?sv = "sr_sessions srv" and ?dr = "shift_draws 1 dr"
  have ok': "\<forall>k. pg_ok pl (?dr k)" using ok by (simp add: shift_draws_def)
  have found: "pg_toks (wd_store s) i = Some t" "rt_TokenHash t = HashRefreshToken presented"
    using t(1) by (simp_all add: redeems_def)
  have now: "?dr 6 = dr 7" "?dr 0 = dr 1" by (simp_all add: shift_draws_def)
  obtain s1 where s1: "Rotate (lb_jwt lib) ?sv ?dr presented (wd_store s) = issue (lb_jwt lib) ?sv ?dr (rt_UserID t) (rt_FamilyID t) s1"
    "pg_inv pl s1" "s1\<lparr>t_tokens := []\<rparr> = (wd_store s)\<lparr>t_tokens := []\<rparr>"
    "pg_toks s1 = (pg_toks (wd_store s))(i := Some (t\<lparr>rt_UsedAt := Some (pg_timestamptz pl (d_now (dr 7)))\<rparr>))"
    using pg_tok.rotate_accepted [OF inv ok' srv(2) decode(2) found] t(2) unfolding now by blast
  have known: "user_exists (s1\<lparr>t_tokens := []\<rparr>) (rt_UserID t)"
    using pg_tok.toks_known [OF inv found(1)] by (simp add: s1(3))
  have fresh': "fresh_draws (pg_toks s1) ?dr"
    unfolding s1(4) by (rule pg_tok.fresh_draws_use [OF fresh found(1)])
  obtain a x where access: "IssueAccess (lb_jwt lib) (sv_issuer ?sv) (?dr 0) (rt_UserID t) = Inr (a, x)"
    using sign unfolding now by blast
  define session where "session = \<lparr>ss_UserID = rt_UserID t, ss_AccessToken = a, ss_RefreshToken = fst (NewRefreshToken (?dr 1)), ss_AccessExpiresAt = x\<rparr>"
  obtain db c where db: "issue (lb_jwt lib) ?sv ?dr (rt_UserID t) (rt_FamilyID t) s1 = (Inr session, db)" "pg_inv pl db"
    "db\<lparr>t_tokens := []\<rparr> = s1\<lparr>t_tokens := []\<rparr>"
    "pg_toks db = (pg_toks s1)(NewID (?dr 3) := Some (stored_token (pg_timestamptz pl) ?sv ?dr (rt_UserID t) (rt_FamilyID t) c))"
    using pg_tok.issue_ok [OF s1(2) ok' srv(2) known fresh' access, of "rt_FamilyID t"] unfolding session_def by blast
  have users: "pg_users db = pg_users (wd_store s)"
    by (rule users_without_tokens) (simp only: db(3) s1(3))
  obtain u where u: "pg_users (wd_store s) (rt_UserID t) = Some u"
    using known pg_users_exists [of "wd_store s"] unfolding s1(3) by (auto simp: user_exists_def)
  have "us_ByID (pg_Users pl) (dr 0) (rt_UserID t) db = Inr u"
    using pg_usr.ByID [OF db(2), of "dr 0" "rt_UserID t"] ok u by (simp add: users)
  then have "handleRefresh lib srv dr r w s =
      answer 200 (json_of_auth (toAuthResponse (sr_presigner srv) session u)) w (s\<lparr>wd_store := db\<rparr>)"
    using decode s1(1) db(1) srv by (simp add: handleRefresh_def on_store_def session_def del: One_nat_def)
  moreover have "HashRefreshToken (ss_RefreshToken session) = snd (NewRefreshToken (?dr 1))"
    by (simp add: session_def NewRefreshToken_def Let_def)
  moreover have "pg_toks db = (pg_toks (wd_store s))(i \<mapsto> t\<lparr>rt_UsedAt := Some (pg_timestamptz pl (d_now (dr 7)))\<rparr>,
      NewID (?dr 3) \<mapsto> stored_token (pg_timestamptz pl) ?sv ?dr (rt_UserID t) (rt_FamilyID t) c)"
    by (simp only: db(4) s1(4))
  moreover have "db\<lparr>t_tokens := []\<rparr> = (wd_store s)\<lparr>t_tokens := []\<rparr>"
    by (simp only: db(3) s1(3))
  ultimately show ?thesis
    using u db(2) stored_token_sel by metis
qed

text \<open>Refused: a replay revokes the family, everything else leaves the tables alone.\<close>

lemma refresh_replayed:
  assumes inv: "pg_inv pl (wd_store s)" and ok: "\<forall>k. pg_ok pl (dr k)"
    and srv: "sv_tokens (sr_sessions srv) = pg_Tokens pl"
    and decode: "DecodeJSON r refresh_fields [] = Inr presented" "presented \<noteq> []"
    and t: "redeems presented (wd_store s) i t" "rt_UsedAt t \<noteq> None"
  shows "\<exists>db. handleRefresh lib srv dr r w s = fail APITokenInvalid w (s\<lparr>wd_store := db\<rparr>) \<and> pg_inv pl db
    \<and> db\<lparr>t_tokens := []\<rparr> = (wd_store s)\<lparr>t_tokens := []\<rparr>
    \<and> pg_toks db = (\<lambda>j. map_option (revoke_if (\<lambda>u. rt_FamilyID u = rt_FamilyID t) (pg_timestamptz pl (d_now (dr 7)))) (pg_toks (wd_store s) j))"
proof -
  have ok': "\<forall>k. pg_ok pl (shift_draws 1 dr k)" using ok by (simp add: shift_draws_def)
  have now: "shift_draws 1 dr 6 = dr 7" by (simp add: shift_draws_def)
  obtain db where "Rotate (lb_jwt lib) (sr_sessions srv) (shift_draws 1 dr) presented (wd_store s) = (Inl ErrTokenInvalid, db)"
    and "pg_inv pl db" "db\<lparr>t_tokens := []\<rparr> = (wd_store s)\<lparr>t_tokens := []\<rparr>"
    "pg_toks db = (\<lambda>j. map_option (revoke_if (\<lambda>u. rt_FamilyID u = rt_FamilyID t) (pg_timestamptz pl (d_now (dr 7)))) (pg_toks (wd_store s) j))"
    using pg_tok.rotate_replay [OF inv ok' srv decode(2), of i t] t unfolding redeems_def now by blast
  then show ?thesis
    using refresh_refused [OF srv decode] by blast
qed

lemma refresh_rejected:
  assumes inv: "pg_inv pl (wd_store s)" and ok: "\<forall>k. pg_ok pl (dr k)"
    and srv: "sv_tokens (sr_sessions srv) = pg_Tokens pl"
    and decode: "DecodeJSON r refresh_fields [] = Inr presented" "presented \<noteq> []"
    and t: "\<And>i t. redeems presented (wd_store s) i t \<Longrightarrow> rt_UsedAt t = None \<and> \<not> rt_Active t (d_now (dr 7))"
  shows "handleRefresh lib srv dr r w s = fail APITokenInvalid w (s\<lparr>wd_store := wd_store s\<rparr>)"
proof -
  have ok': "\<forall>k. pg_ok pl (shift_draws 1 dr k)" using ok by (simp add: shift_draws_def)
  have now: "shift_draws 1 dr 6 = dr 7" by (simp add: shift_draws_def)
  have "\<exists>e \<in> {ErrTokenInvalid, ErrTokenExpired}.
      Rotate (lb_jwt lib) (sr_sessions srv) (shift_draws 1 dr) presented (wd_store s) = (Inl e, wd_store s)"
  proof (cases "\<exists>i t. redeems presented (wd_store s) i t")
    case True
    then obtain i u where u: "pg_toks (wd_store s) i = Some u" "rt_TokenHash u = HashRefreshToken presented"
      "rt_UsedAt u = None" "\<not> rt_Active u (d_now (dr 7))"
      using t unfolding redeems_def by blast
    then have "rt_RevokedAt u \<noteq> None \<or> rt_ExpiresAt u \<le> d_now (shift_draws 1 dr 6)"
      unfolding now by (auto simp: rt_Active_def)
    then show ?thesis
      using pg_tok.rotate_rejected [OF inv ok' srv decode(2) u(1-3)] by (cases "rt_RevokedAt u") simp_all
  next
    case False
    then have "Rotate (lb_jwt lib) (sr_sessions srv) (shift_draws 1 dr) presented (wd_store s) = (Inl ErrTokenInvalid, wd_store s)"
      by (intro pg_tok.rotate_unknown [OF inv ok' srv]) (auto simp: redeems_def)
    then show ?thesis by blast
  qed
  then show ?thesis
    using refresh_refused [OF srv decode] by blast
qed

text \<open>C10: A refresh on the Postgres store succeeds exactly for a stored token that is neither consumed nor revoked
  nor expired: then it answers 200 with a session of the token's user, the presented token is stamped used, and one
  live successor of the same family, which the returned refresh token redeems, is added.  Every other token
  gets one and the same 401, whether unknown, expired, revoked or consumed; only a consumed one changes anything, its
  whole family being revoked.\<close>

theorem refresh_outcomes:
  assumes inv: "pg_inv pl (wd_store s)" and ok: "\<forall>k. pg_ok pl (dr k)"
    and srv: "sr_store srv = pg_Store pl lp" "sv_tokens (sr_sessions srv) = pg_Tokens pl"
    and decode: "DecodeJSON r refresh_fields [] = Inr presented" "presented \<noteq> []"
    and sign: "\<forall>uid. \<exists>a x. IssueAccess (lb_jwt lib) (sv_issuer (sr_sessions srv)) (dr 1) uid = Inr (a, x)"
  shows "if \<exists>i t. redeems presented (wd_store s) i t \<and> rt_Active t (d_now (dr 7))
    then fresh_draws (pg_toks (wd_store s)) (shift_draws 1 dr) \<longrightarrow> (\<exists>i t u session db token. redeems presented (wd_store s) i t
      \<and> handleRefresh lib srv dr r w s = answer 200 (json_of_auth (toAuthResponse (sr_presigner srv) session u)) w (s\<lparr>wd_store := db\<rparr>)
      \<and> pg_users (wd_store s) (rt_UserID t) = Some u \<and> pg_inv pl db \<and> db\<lparr>t_tokens := []\<rparr> = (wd_store s)\<lparr>t_tokens := []\<rparr>
      \<and> pg_toks db = (pg_toks (wd_store s))(i \<mapsto> t\<lparr>rt_UsedAt := Some (pg_timestamptz pl (d_now (dr 7)))\<rparr>, rt_ID token \<mapsto> token)
      \<and> rt_UserID token = rt_UserID t \<and> rt_FamilyID token = rt_FamilyID t \<and> live token
      \<and> rt_TokenHash token = HashRefreshToken (ss_RefreshToken session))
    else \<exists>db. handleRefresh lib srv dr r w s = fail APITokenInvalid w (s\<lparr>wd_store := db\<rparr>) \<and> pg_inv pl db
      \<and> db\<lparr>t_tokens := []\<rparr> = (wd_store s)\<lparr>t_tokens := []\<rparr>
      \<and> (if \<exists>i t. redeems presented (wd_store s) i t \<and> rt_UsedAt t \<noteq> None
         then \<exists>i t. redeems presented (wd_store s) i t \<and> pg_toks db = (\<lambda>j. map_option
           (revoke_if (\<lambda>u. rt_FamilyID u = rt_FamilyID t) (pg_timestamptz pl (d_now (dr 7)))) (pg_toks (wd_store s) j))
         else db = wd_store s)"
proof (cases "\<exists>i t. redeems presented (wd_store s) i t \<and> rt_Active t (d_now (dr 7))")
  case True
  then obtain i t where t: "redeems presented (wd_store s) i t" "rt_Active t (d_now (dr 7))" by blast
  show ?thesis
    unfolding if_P [OF True] using t(1) refresh_accepted [OF inv ok srv decode _ sign t] by blast
next
  case no: False
  show ?thesis
  proof (cases "\<exists>i t. redeems presented (wd_store s) i t \<and> rt_UsedAt t \<noteq> None")
    case True
    then obtain i t where t: "redeems presented (wd_store s) i t" "rt_UsedAt t \<noteq> None" by blast
    show ?thesis
      unfolding if_not_P [OF no] if_P [OF True] using t(1) refresh_replayed [OF inv ok srv(2) decode t] by blast
  next
    case False
    have "handleRefresh lib srv dr r w s = fail APITokenInvalid w (s\<lparr>wd_store := wd_store s\<rparr>)"
      by (rule refresh_rejected [OF inv ok srv(2) decode]) (use no False in blast)
    then show ?thesis
      unfolding if_not_P [OF no] if_not_P [OF False] using inv by (intro exI [of _ "wd_store s"]) blast
  qed
qed

section \<open>A replayed and an expired token\<close>

definition rx_world :: "RefreshToken \<Rightarrow> PgDB World" where
  "rx_world t = ax_world\<lparr>wd_store := ex_pg t\<rparr>"

definition rx_body :: gostring where
  "rx_body = ''{'' @ quoted ''refreshToken'' @ '':'' @ quoted ''secret'' @ ''}''"

lemma rx_decodes: "DecodeJSON (ax_request rx_body) refresh_fields [] = Inr ''secret''"
proof -
  have "read_value (rq_Body (ax_request rx_body)) False = FValue rx_body []"
    "unmarshal_struct refresh_fields [] rx_body = Decoded ''secret''"
    by code_simp+
  then show ?thesis
    by (auto intro!: DecodeJSON_small simp: ax_request_def rx_body_def quoted_def)
qed

lemma rx_redeems: "rt_ID t = ''t1'' \<Longrightarrow> rt_TokenHash t = HashRefreshToken ''secret'' \<Longrightarrow> redeems ''secret'' (ex_pg t) i u \<longleftrightarrow> i = ''t1'' \<and> u = t"
  by (auto simp: redeems_def ex_pg_def keyed_def)

theorem refresh_outcomes_witness:
  "\<exists>db. handleRefresh ax_lib ax_srv (\<lambda>_. ex_draw) (ax_request rx_body) new_writer (rx_world ex_used_token) =
      fail APITokenInvalid new_writer ((rx_world ex_used_token)\<lparr>wd_store := db\<rparr>)
    \<and> map_option rt_RevokedAt (pg_toks db ''t1'') = Some (Some hour)"
proof -
  have pl: "sp_pl = ex_pl" by (simp add: sp_pl_def ex_pl_def)
  have inv: "pg_inv sp_pl (wd_store (rx_world ex_used_token))" and ok: "\<forall>k. pg_ok sp_pl ((\<lambda>_. ex_draw) (k :: nat))"
    using ex_pg_inv [of ex_used_token] ex_pg_ok by (simp_all add: pl rx_world_def)
  have sign: "\<forall>uid. \<exists>a x. IssueAccess (lb_jwt ax_lib) (sv_issuer (sr_sessions ax_srv)) ex_draw uid = Inr (a, x)"
    using ax_sign by (simp add: sp_draw_def ex_draw_def)
  have rows: "redeems ''secret'' (wd_store (rx_world ex_used_token)) i t \<longleftrightarrow> i = ''t1'' \<and> t = ex_used_token" for i t
    by (simp add: rx_world_def rx_redeems)
  obtain db where db: "handleRefresh ax_lib ax_srv (\<lambda>_. ex_draw) (ax_request rx_body) new_writer (rx_world ex_used_token) =
      fail APITokenInvalid new_writer ((rx_world ex_used_token)\<lparr>wd_store := db\<rparr>)"
    and toks: "pg_toks db = (\<lambda>j. map_option (revoke_if (\<lambda>u. rt_FamilyID u = ''f1'') (pg_timestamptz sp_pl (d_now ex_draw)))
      (pg_toks (wd_store (rx_world ex_used_token)) j))"
    using refresh_outcomes [OF inv ok ax_sel(1,2) rx_decodes _ sign, of new_writer]
    unfolding rows by (auto simp: rt_Active_def)
  have "pg_toks (wd_store (rx_world ex_used_token)) ''t1'' = Some ex_used_token"
    using rows [of "''t1''" ex_used_token] unfolding redeems_def by blast
  then have "map_option rt_RevokedAt (pg_toks db ''t1'') = Some (Some hour)"
    by (simp add: toks revoke_if_def sp_pl_def ex_draw_def)
  then show ?thesis using db by blast
qed

end
