(* ===== verification/Effects.thy ===== *)
theory Effects
  imports Contract Startup
begin

text \<open>
  What the server does to its store: whatever relation every operation of the store interface keeps
  between the states before and after it, every request, every sweep and any interleaving of them
  keep it too.  \<open>SchemaLaws\<close> interprets this for the Postgres store.
\<close>

section \<open>A guarantee of the store\<close>

text \<open>
  A relation that the operations keep, save perhaps the two whose arguments name an upload: the update
  of a profile and the creation of a post.
\<close>

locale store_relation =
  fixes st :: "'s Store"
    and G :: "'s \<Rightarrow> 's \<Rightarrow> bool"
  assumes G_refl: "G s s"
    and G_trans: "G s s' \<Longrightarrow> G s' s'' \<Longrightarrow> G s s''"
    and G_Create: "G s (snd (us_Create (st_Users st) d inp s))"
    and G_Delete: "G s (snd (ps_Delete (st_Posts st) d ident requester s))"
    and G_Issue: "G s (snd (ts_Issue (st_Tokens st) d t s))"
    and G_MarkUsed: "G s (snd (ts_MarkUsed (st_Tokens st) d ident time s))"
    and G_RevokeFamily: "G s (snd (ts_RevokeFamily (st_Tokens st) d family time s))"
    and G_RevokeAll: "G s (snd (ts_RevokeAllForUser (st_Tokens st) d uid time s))"
    and G_DeleteExpired: "G s (snd (ts_DeleteExpired (st_Tokens st) d time s))"
    and G_Reserve: "G s (snd (up_Reserve (st_Uploads st) d upload s))"
    and G_Claim: "G s (snd (up_Claim (st_Uploads st) d key uid purpose time s))"
    and G_Release: "G s (snd (up_ReleaseAbandoned (st_Uploads st) d time limit s))"

text \<open>A relation that every operation keeps, whatever its arguments.\<close>

locale store_guarantee = store_relation +
  assumes G_Update: "G s (snd (us_Update (st_Users st) d ident upd s))"
    and G_Post: "G s (snd (ps_Create (st_Posts st) d np s))"

text \<open>One operation of the store with any arguments, and a server whose sessions use the same store.\<close>

inductive store_step :: "'s Store \<Rightarrow> 's \<Rightarrow> 's \<Rightarrow> bool" for st :: "'s Store" where
  "store_step st s (snd (us_Create (st_Users st) d inp s))"
| "store_step st s (snd (us_Update (st_Users st) d ident upd s))"
| "store_step st s (snd (ps_Create (st_Posts st) d np s))"
| "store_step st s (snd (ps_Delete (st_Posts st) d ident requester s))"
| "store_step st s (snd (ts_Issue (st_Tokens st) d t s))"
| "store_step st s (snd (ts_MarkUsed (st_Tokens st) d ident time s))"
| "store_step st s (snd (ts_RevokeFamily (st_Tokens st) d family time s))"
| "store_step st s (snd (ts_RevokeAllForUser (st_Tokens st) d uid time s))"
| "store_step st s (snd (ts_DeleteExpired (st_Tokens st) d time s))"
| "store_step st s (snd (up_Reserve (st_Uploads st) d upload s))"
| "store_step st s (snd (up_Claim (st_Uploads st) d key uid purpose time s))"
| "store_step st s (snd (up_ReleaseAbandoned (st_Uploads st) d time limit s))"

definition wired :: "'s Store \<Rightarrow> 's Server \<Rightarrow> bool" where
  "wired st srv \<longleftrightarrow> sr_store srv = st \<and> sv_tokens (sr_sessions srv) = st_Tokens st"

lemma wiredD: "wired st srv \<Longrightarrow> sr_store srv = st" "wired st srv \<Longrightarrow> sv_tokens (sr_sessions srv) = st_Tokens st"
  by (simp_all add: wired_def)

definition api_within :: "('s \<Rightarrow> 's \<Rightarrow> bool) \<Rightarrow> ('s, 'u) api_handler \<Rightarrow> bool" where
  "api_within G h \<longleftrightarrow> (\<forall>dr r w s. G (wd_store s) (wd_store (snd (snd (h dr r w s)))))"

definition http_within :: "('s \<Rightarrow> 's \<Rightarrow> bool) \<Rightarrow> ('s, 'u) http_handler \<Rightarrow> bool" where
  "http_within G h \<longleftrightarrow> (\<forall>dr r w s. G (wd_store s) (wd_store (snd (snd (h dr r w s)))))"

lemma on_storeD: "on_store f s = (x, s') \<Longrightarrow> wd_store s' = snd (f (wd_store s))"
  by (auto simp: on_store_def split: prod.splits)

lemma plumbing_store [simp]:
  "wd_store (snd (snd (fail e w s))) = wd_store s"
  "wd_store (snd (snd (answer c v w s))) = wd_store s"
  "wd_store (snd (snd (answer_opt c v' w s))) = wd_store s"
  by (simp_all add: fail_def answer_def answer_opt_def split: option.split)

section \<open>What follows for the server\<close>

context store_relation
begin

lemma G_ops:
  "G s s0 \<Longrightarrow> G s (snd (us_Create (st_Users st) d inp s0))"
  "G s s0 \<Longrightarrow> G s (snd (ps_Delete (st_Posts st) d ident requester s0))"
  "G s s0 \<Longrightarrow> G s (snd (ts_Issue (st_Tokens st) d t s0))"
  "G s s0 \<Longrightarrow> G s (snd (ts_MarkUsed (st_Tokens st) d ident time s0))"
  "G s s0 \<Longrightarrow> G s (snd (ts_RevokeFamily (st_Tokens st) d family time s0))"
  "G s s0 \<Longrightarrow> G s (snd (ts_RevokeAllForUser (st_Tokens st) d uid time s0))"
  "G s s0 \<Longrightarrow> G s (snd (ts_DeleteExpired (st_Tokens st) d time s0))"
  "G s s0 \<Longrightarrow> G s (snd (up_Reserve (st_Uploads st) d upload s0))"
  "G s s0 \<Longrightarrow> G s (snd (up_Claim (st_Uploads st) d key uid purpose time s0))"
  "G s s0 \<Longrightarrow> G s (snd (up_ReleaseAbandoned (st_Uploads st) d time limit s0))"
  by (rule G_trans, assumption, rule G_Create G_Delete G_Issue G_MarkUsed G_RevokeFamily G_RevokeAll
      G_DeleteExpired G_Reserve G_Claim G_Release)+

text \<open>The session service, whose calls go to the token store.\<close>

lemma G_opsD:
  "us_Create (st_Users st) d inp s0 = (x, s') \<Longrightarrow> G s s0 \<Longrightarrow> G s s'"
  "ps_Delete (st_Posts st) d ident requester s0 = (y, s') \<Longrightarrow> G s s0 \<Longrightarrow> G s s'"
  "ts_Issue (st_Tokens st) d t s0 = (y, s') \<Longrightarrow> G s s0 \<Longrightarrow> G s s'"
  "ts_MarkUsed (st_Tokens st) d ident time s0 = (y, s') \<Longrightarrow> G s s0 \<Longrightarrow> G s s'"
  "ts_RevokeFamily (st_Tokens st) d family time s0 = (y, s') \<Longrightarrow> G s s0 \<Longrightarrow> G s s'"
  "ts_RevokeAllForUser (st_Tokens st) d uid time s0 = (y, s') \<Longrightarrow> G s s0 \<Longrightarrow> G s s'"
  "ts_DeleteExpired (st_Tokens st) d time s0 = (n, s') \<Longrightarrow> G s s0 \<Longrightarrow> G s s'"
  "up_Reserve (st_Uploads st) d upload s0 = (y, s') \<Longrightarrow> G s s0 \<Longrightarrow> G s s'"
  "up_Claim (st_Uploads st) d key uid purpose time s0 = (y, s') \<Longrightarrow> G s s0 \<Longrightarrow> G s s'"
  "up_ReleaseAbandoned (st_Uploads st) d time limit s0 = (keys, s') \<Longrightarrow> G s s0 \<Longrightarrow> G s s'"
  using G_ops by (metis snd_conv)+

lemma G_issue: "sv_tokens sv = st_Tokens st \<Longrightarrow> G s s0 \<Longrightarrow> G s (snd (issue jw sv dr uid family s0))"
  by (auto simp: issue_def split: sum.split prod.split dest: G_opsD)

lemma G_Start: "sv_tokens sv = st_Tokens st \<Longrightarrow> G s s0 \<Longrightarrow> G s (snd (Start jw sv dr uid s0))"
  by (simp add: Start_def G_issue)

lemma G_Rotate: "sv_tokens sv = st_Tokens st \<Longrightarrow> G s s0 \<Longrightarrow> G s (snd (Rotate jw sv dr presented s0))"
  by (auto simp: Rotate_def Let_def split: sum.split prod.split store_error.split dest: G_opsD intro: G_issue)

lemma G_Revoke: "sv_tokens sv = st_Tokens st \<Longrightarrow> G s s0 \<Longrightarrow> G s (snd (Revoke sv dr presented s0))"
  by (auto simp: Revoke_def split: sum.split prod.split store_error.split dest: G_opsD)

text \<open>Each handler.\<close>

lemmas G_calls = G_refl G_ops G_Start G_Rotate G_Revoke

lemma G_claimUpload:
  assumes "wired st srv" and "G s (wd_store w0)"
  shows "G s (wd_store (snd (claimUpload lib srv dr me key purpose w0)))"
  using assms(2)
  by (auto simp: claimUpload_def wiredD [OF assms(1)] dest!: on_storeD intro: G_calls split: option.split sum.split prod.split store_error.split)

lemma G_register:
  assumes "wired st srv"
  shows "api_within G (handleRegister lib srv)"
  by (auto simp: api_within_def handleRegister_def wiredD [OF assms] dest!: on_storeD intro!: G_calls split: sum.split prod.split)

lemma G_login:
  assumes "wired st srv"
  shows "api_within G (handleLogin lib srv)"
  by (auto simp: api_within_def handleLogin_def wiredD [OF assms] Let_def dest!: on_storeD intro!: G_calls
      split: sum.split prod.split store_error.split)

lemma G_refresh:
  assumes "wired st srv"
  shows "api_within G (handleRefresh lib srv)"
  by (auto simp: api_within_def handleRefresh_def wiredD [OF assms] dest!: on_storeD intro!: G_calls
      split: sum.split prod.split auth_error.split)

lemma G_logout:
  assumes "wired st srv"
  shows "api_within G (handleLogout lib srv)"
  by (auto simp: api_within_def handleLogout_def wiredD [OF assms] dest!: on_storeD intro!: G_calls split: sum.split prod.split)

lemma G_claimUploadD:
  "claimUpload lib srv dr me key purpose w0 = (x, w1) \<Longrightarrow> wired st srv \<Longrightarrow> G (wd_store w0) (wd_store w1)"
  using G_claimUpload [OF _ G_refl] by (metis snd_conv)

lemma G_delete_post:
  assumes "wired st srv"
  shows "api_within G (handleDeletePost srv)"
  by (auto simp: api_within_def handleDeletePost_def with_current_user_def wiredD [OF assms] dest!: on_storeD intro!: G_calls
      split: sum.split prod.split option.split store_error.split)

lemma G_presign:
  assumes "wired st srv"
  shows "api_within G (handlePresign lib srv)"
  by (auto simp: api_within_def handlePresign_def with_current_user_def wiredD [OF assms] Let_def dest!: on_storeD intro!: G_calls
      split: sum.split prod.split option.split)

lemma G_readers:
  "api_within G (handleGetMe srv)" "api_within G (handleGetUser srv)" "api_within G (handleUserPosts srv)"
  "api_within G (handleFeed srv)" "api_within G (handleGetPost srv)" "api_within G (handleHealth lib srv)"
  "api_within G (handleReady lib srv)" "api_within G (handleOpenAPISpec lib)" "api_within G handleDocs"
  "api_within G handleUnmatched"
  by (simp_all add: api_within_def handleGetMe_def handleGetUser_def handleUserPosts_def handleFeed_def handleGetPost_def
      handleHealth_def handleReady_def handleOpenAPISpec_def handleDocs_def handleUnmatched_def answer_page_def
      with_current_user_def Let_def G_refl split: sum.split option.split store_error.split)

text \<open>The layers around them: none touches the store itself.\<close>

lemma G_ServeHTTP: "api_within G h \<Longrightarrow> http_within G (ServeHTTP h)"
  unfolding http_within_def ServeHTTP_def
proof (intro allI)
  fix dr r w s
  assume h: "api_within G h"
  obtain v w' s' where eq: "h dr r w s = (v, w', s')" by (cases "h dr r w s") auto
  then have "G (wd_store s) (wd_store s')"
    using h by (metis api_within_def snd_conv)
  then show "G (wd_store s) (wd_store (snd (snd (case h dr r w s of
      (Answered, w', s') \<Rightarrow> (Completed, w', s')
    | (Failed err, w', s') \<Rightarrow>
        (case WriteError r err w' (wd_log s') of (w'', logs) \<Rightarrow> (Completed, w'', s'\<lparr>wd_log := logs\<rparr>))
    | (Crashed msg, w', s') \<Rightarrow> (Panicked msg, w', s')))))"
    by (cases v) (simp_all add: eq split: prod.split)
qed

lemma G_protected: "api_within G h \<Longrightarrow> http_within G (protected lib srv h)"
  unfolding protected_def
  by (rule G_ServeHTTP) (simp add: api_within_def G_refl split: sum.split)

lemma G_limit:
  assumes "http_within G h" and "\<And>rl s. wd_store (upd rl s) = wd_store s"
  shows "http_within G (limit_middleware rnd sel upd key h)"
  unfolding http_within_def limit_middleware_def
proof (intro allI)
  fix dr r w s
  obtain ok wait rl where a: "Allow rnd (own_draw dr 0) (key r) (sel s) = ((ok, wait), rl)"
    by (metis prod.exhaust)
  have "G (wd_store s) (wd_store (snd (snd (h (next_draws dr) r w (upd rl s)))))"
    using assms by (metis http_within_def)
  then show "G (wd_store s) (wd_store (snd (snd (case Allow rnd (own_draw dr 0) (key r) (sel s) of
        ((allowed, retryAfter), rl) \<Rightarrow>
          if \<not> allowed then
            (case WriteError r (APIErr ErrRateLimited) (Header_Set ''Retry-After'' (retry_after rnd retryAfter) w)
                    (wd_log (upd rl s)) of
               (w', logs) \<Rightarrow> (Completed, w', (upd rl s)\<lparr>wd_log := logs\<rparr>))
          else h (next_draws dr) r w (upd rl s)))))"
    by (simp add: a assms(2) G_refl split: prod.split)
qed

lemma G_chain:
  assumes "http_within G h"
  shows "http_within G (WithRequestID h)" "http_within G (WithCORS h)" "http_within G (WithLogging h)"
    "http_within G (WithRecovery h)"
proof -
  have h: "G (wd_store s) (wd_store (snd (snd (h dr r w s))))" for dr r w s
    using assms by (simp add: http_within_def)
  show "http_within G (WithRequestID h)" "http_within G (WithCORS h)"
    by (simp_all add: http_within_def WithRequestID_def WithCORS_def Let_def h G_refl)
  have h': "h dr r w s = (oc, w', s') \<Longrightarrow> G (wd_store s) (wd_store s')" for dr r w s oc w' s'
    using h [of s dr r w] by simp
  show "http_within G (WithLogging h)" "http_within G (WithRecovery h)"
    by (auto simp: http_within_def WithLogging_def WithRecovery_def log_entry_def dest: h' split: prod.split outcome.split)
qed

lemma G_mux:
  assumes "\<And>m p h. (m, p, h) \<in> set rs \<Longrightarrow> http_within G h"
  shows "http_within G (serve_mux rs)"
  unfolding http_within_def serve_mux_def
proof (intro allI)
  fix dr r w s
  show "G (wd_store s) (wd_store (snd (snd (case best_match None rs (rq_Method r) (rq_Path r) of
        Some (_, vs, h) \<Rightarrow> h dr (r\<lparr>rq_PathValue := path_value vs\<rparr>) w s
      | None \<Rightarrow> not_found_page dr r w s))))"
  proof (cases "best_match None rs (rq_Method r) (rq_Path r)")
    case (Some m)
    obtain q vs h where m: "m = (q, vs, h)" by (cases m)
    then have "http_within G h"
      using best_match_in [of None rs "rq_Method r" "rq_Path r" q vs h] Some assms by auto
    then show ?thesis by (simp add: Some m http_within_def)
  qed (simp add: not_found_page_def G_refl)
qed

text \<open>The janitor.\<close>

theorem G_sweep:
  assumes "ja_store j = st"
  shows "G (hk_store h) (hk_store (sweep s3 j dr h))"
proof -
  have 1: "G (hk_store h) (hk_store (collectAbandonedUploads s3 j dr h))" for dr h
    by (auto simp: collectAbandonedUploads_def Let_def assms hk_say_def intro: G_refl dest: G_opsD split: sum.split prod.split option.split)
  have 2: "G (hk_store h) (hk_store (deleteExpiredTokens j dr h))" for dr h
    by (auto simp: deleteExpiredTokens_def Let_def assms hk_say_def intro: G_refl dest: G_opsD split: sum.split prod.split)
  show ?thesis unfolding sweep_def by (rule G_trans [OF 1 2])
qed

end

section \<open>The whole server\<close>

text \<open>It is enough that the two handlers that name an upload keep the relation.\<close>

locale server_guarantee = store_relation +
  assumes G_update_me: "wired st srv \<Longrightarrow> api_within G (handleUpdateMe lib srv)"
    and G_create_post: "wired st srv \<Longrightarrow> api_within G (handleCreatePost lib srv)"
begin

lemmas G_handlers = G_register G_login G_refresh G_logout G_update_me G_create_post G_delete_post G_presign G_readers

lemma G_Routes: "wired st srv \<Longrightarrow> ro \<in> set (Routes lib srv) \<Longrightarrow> http_within G (ro_handler ro)"
  by (auto simp: Routes_def Let_def route_def intro!: G_limit G_protected G_ServeHTTP G_handlers split: if_splits)

theorem G_Handler:
  assumes "wired st srv"
  shows "G (wd_store s) (wd_store (snd (snd (Handler lib srv dr r w s))))"
proof -
  have "http_within G (serve_mux (mux_table (Routes lib srv)))"
    by (rule G_mux) (auto simp: mux_table_def intro: G_Routes [OF assms] G_ServeHTTP G_readers)
  then have "http_within G (Handler lib srv)"
    unfolding Handler_def Chain.simps by (intro G_chain G_limit) simp_all
  then show ?thesis by (simp add: http_within_def)
qed

end

context store_guarantee
begin

lemma G_interleaving: "(store_step st)\<^sup>*\<^sup>* s s' \<Longrightarrow> G s s'"
  by (induction rule: rtranclp_induct) (auto elim!: store_step.cases intro: G_refl G_ops G_Update G_Post G_trans)

lemma G_Update': "G s s0 \<Longrightarrow> G s (snd (us_Update (st_Users st) d ident upd s0))"
  by (rule G_trans [OF _ G_Update])

lemma G_Post': "G s s0 \<Longrightarrow> G s (snd (ps_Create (st_Posts st) d np s0))"
  by (rule G_trans [OF _ G_Post])

lemma within_update_me:
  assumes "wired st srv"
  shows "api_within G (handleUpdateMe lib srv)"
  by (auto simp: api_within_def handleUpdateMe_def with_current_user_def wiredD [OF assms] dest!: on_storeD G_claimUploadD [OF _ assms]
      intro!: G_calls G_Update' G_Post' split: sum.split prod.split option.split if_split_asm)

lemma within_create_post:
  assumes "wired st srv"
  shows "api_within G (handleCreatePost lib srv)"
  by (auto simp: api_within_def handleCreatePost_def with_current_user_def wiredD [OF assms] dest!: on_storeD G_claimUploadD [OF _ assms]
      intro!: G_calls G_Update' G_Post' split: sum.split prod.split option.split if_split_asm)

end

sublocale store_guarantee \<subseteq> server_guarantee
  by unfold_locales (rule within_update_me within_create_post; assumption)+

text \<open>A request and a sweep are interleavings of operations of the store, and nothing else touches it.\<close>

interpretation ops: store_guarantee st "(store_step st)\<^sup>*\<^sup>*" for st :: "'s Store"
  by unfold_locales (auto intro: store_step.intros)

end
