(* ===== verification/Lifecycle.thy ===== *)
theory Lifecycle
  imports Effects
begin

text \<open>
  The running process: \<open>run\<close> of \<open>main.go\<close> with the goroutines it starts, as a step relation.  The
  main thread, the goroutine of the HTTP server and the background goroutines interleave freely;
  they share the store, the limiters and the log, the context that a signal cancels, and the
  channel \<open>serveErr\<close>.  A panic in a background goroutine ends the process; the panics of request
  handlers are recovered.
\<close>

section \<open>The state of the process\<close>

text \<open>What a background goroutine runs; a reaper has the index of its limiter in \<open>Limiters()\<close>.\<close>

datatype routine = JanitorRun | PingerRun Pinger | ReaperRun nat

text \<open>\<open>Idle\<close> is a goroutine in its \<open>select\<close>, \<open>Busy\<close> one at work for a tick, \<open>Over\<close> one that called \<open>Done\<close>.\<close>

datatype phase = Spawned | Idle | Busy | Over

text \<open>
  The main thread: in its \<open>select\<close>, in \<open>Shutdown\<close>, in \<open>background.Wait\<close> with the error of
  \<open>Shutdown\<close>, receiving from \<open>serveErr\<close>, returned; or the process is dead of a panic.
\<close>

datatype main_phase =
  Selecting | Draining | Waiting "gostring option" | Receiving | Returned "gostring option" | Dead gostring

datatype server_phase = Starting | Serving | Delivering "gostring option" | Gone

record 's Process =
  pr_main :: main_phase
  pr_signalled :: bool
  pr_background :: "(routine \<times> phase) list"
  pr_server :: server_phase
  pr_serveErr :: "gostring option option"
  pr_world :: "'s World"

definition running :: "'s Process \<Rightarrow> bool" where
  "running p \<longleftrightarrow> (case pr_main p of Returned _ \<Rightarrow> False | Dead _ \<Rightarrow> False | _ \<Rightarrow> True)"

definition shutdown_called :: "'s Process \<Rightarrow> bool" where
  "shutdown_called p \<longleftrightarrow> (case pr_main p of Draining \<Rightarrow> True | Waiting _ \<Rightarrow> True | Receiving \<Rightarrow> True | _ \<Rightarrow> False)"

text \<open>\<open>run\<close> up to its \<open>select\<close>: the goroutines are started, none has run yet.\<close>

definition spawn :: "'s World \<Rightarrow> Pinger option \<Rightarrow> 's Process" where
  "spawn w pinger =
     \<lparr>pr_main = Selecting, pr_signalled = False,
      pr_background = map (\<lambda>r. (r, Spawned))
        (JanitorRun # (case pinger of None \<Rightarrow> [] | Some p \<Rightarrow> [PingerRun p]) @ map ReaperRun [0..<length (Limiters w)]),
      pr_server = Starting, pr_serveErr = None, pr_world = w\<rparr>"

section \<open>The background goroutines\<close>

definition reap_every :: duration where "reap_every = 5 * minute"
definition reap_idle :: duration where "reap_idle = 30 * minute"

definition interval :: "'s Janitor \<Rightarrow> routine \<Rightarrow> duration" where
  "interval jan r = (case r of JanitorRun \<Rightarrow> ja_interval jan | PingerRun p \<Rightarrow> pi_interval p | ReaperRun _ \<Rightarrow> reap_every)"

text \<open>Only the janitor works before its first tick.\<close>

definition first_phase :: "routine \<Rightarrow> phase" where
  "first_phase r = (if r = JanitorRun then Busy else Idle)"

definition append_log :: "LogEntry list \<Rightarrow> 's World \<Rightarrow> 's World" where
  "append_log es w = w\<lparr>wd_log := wd_log w @ es\<rparr>"

definition started :: "routine \<Rightarrow> 's World \<Rightarrow> 's World" where
  "started r w =
     (case r of
        PingerRun p \<Rightarrow>
          append_log [\<lparr>lg_Level = ''INFO'', lg_Msg = ''self-ping started'', lg_Attrs = [(''url'', pi_url p)]\<rparr>] w
      | _ \<Rightarrow> w)"

text \<open>One round of work, with its draws and the answer to the ping.\<close>

definition work :: "S3Lib \<Rightarrow> 's Janitor \<Rightarrow> (nat \<Rightarrow> Draw) \<Rightarrow> ping_exchange \<Rightarrow> routine \<Rightarrow> 's World \<Rightarrow> 's World" where
  "work s3 jan dr x r w =
     (case r of
        JanitorRun \<Rightarrow>
          (let h = sweep s3 jan dr \<lparr>hk_store = wd_store w, hk_deleted = [], hk_log = []\<rparr>
           in append_log (hk_log h) (w\<lparr>wd_store := hk_store h\<rparr>))
      | PingerRun p \<Rightarrow> append_log (ping_loop p [PingTick x]) w
      | ReaperRun i \<Rightarrow>
          if i = 0 then w\<lparr>wd_limiter := Reap (dr 0) reap_idle (wd_limiter w)\<rparr>
          else w\<lparr>wd_authLimiter := Reap (dr 0) reap_idle (wd_authLimiter w)\<rparr>)"

definition stopped :: "routine \<Rightarrow> 's World \<Rightarrow> 's World" where
  "stopped r w = (case r of PingerRun p \<Rightarrow> append_log (ping_loop p [PingCancelled]) w | _ \<Rightarrow> w)"

section \<open>The steps\<close>

text \<open>
  \<open>Signal\<close>, \<open>Tick\<close>, \<open>Request\<close> and \<open>ListenFails\<close> come from outside; \<open>Overdue\<close> is the deadline of
  \<open>Shutdown\<close>; every other step of a goroutine is \<open>Internal\<close>.
\<close>

datatype event = Signal | Tick nat | Request | ListenFails gostring | Overdue gostring | Internal

definition main_log :: "gostring \<Rightarrow> LogEntry" where
  "main_log msg = \<lparr>lg_Level = ''INFO'', lg_Msg = msg, lg_Attrs = []\<rparr>"

definition all_over :: "'s Process \<Rightarrow> bool" where
  "all_over p \<longleftrightarrow> list_all (\<lambda>(_, ph). ph = Over) (pr_background p)"

definition set_phase :: "nat \<Rightarrow> routine \<Rightarrow> phase \<Rightarrow> 's Process \<Rightarrow> 's Process" where
  "set_phase i r ph p = p\<lparr>pr_background := (pr_background p)[i := (r, ph)]\<rparr>"

definition in_phase :: "nat \<Rightarrow> routine \<Rightarrow> phase \<Rightarrow> 's Process \<Rightarrow> bool" where
  "in_phase i r ph p \<longleftrightarrow> i < length (pr_background p) \<and> pr_background p ! i = (r, ph)"

definition upon :: "('s World \<Rightarrow> 's World) \<Rightarrow> 's Process \<Rightarrow> 's Process" where
  "upon f p = p\<lparr>pr_world := f (pr_world p)\<rparr>"

inductive process_step :: "Lib \<Rightarrow> 's Server \<Rightarrow> 's Janitor \<Rightarrow> event \<Rightarrow> 's Process \<Rightarrow> 's Process \<Rightarrow> bool"
  for lib :: Lib and srv :: "'s Server" and jan :: "'s Janitor" where
  signal: "running p \<Longrightarrow> process_step lib srv jan Signal p (p\<lparr>pr_signalled := True\<rparr>)"
| tick: "running p \<Longrightarrow> in_phase i r Idle p \<Longrightarrow> process_step lib srv jan (Tick i) p (set_phase i r Busy p)"
| request: "running p \<Longrightarrow> pr_server p \<noteq> Starting \<Longrightarrow>
    process_step lib srv jan Request p (upon (\<lambda>w. snd (snd (Handler lib srv dr r new_writer w))) p)"
| listen_fails: "running p \<Longrightarrow> pr_server p = Serving \<Longrightarrow>
    process_step lib srv jan (ListenFails e) p (p\<lparr>pr_server := Delivering (Some e)\<rparr>)"
| overdue: "pr_main p = Draining \<Longrightarrow> process_step lib srv jan (Overdue e) p (p\<lparr>pr_main := Waiting (Some e)\<rparr>)"
| go: "running p \<Longrightarrow> in_phase i r Spawned p \<Longrightarrow> NewTicker (interval jan r) = Completed \<Longrightarrow>
    process_step lib srv jan Internal p (upon (started r) (set_phase i r (first_phase r) p))"
| panic: "running p \<Longrightarrow> in_phase i r Spawned p \<Longrightarrow> NewTicker (interval jan r) = Panicked msg \<Longrightarrow>
    process_step lib srv jan Internal p (p\<lparr>pr_main := Dead msg\<rparr>)"
| round: "running p \<Longrightarrow> in_phase i r Busy p \<Longrightarrow>
    process_step lib srv jan Internal p (upon (work (lb_s3 lib) jan dr x r) (set_phase i r Idle p))"
| over: "running p \<Longrightarrow> in_phase i r Idle p \<Longrightarrow> pr_signalled p \<Longrightarrow>
    process_step lib srv jan Internal p (upon (stopped r) (set_phase i r Over p))"
| listen: "running p \<Longrightarrow> pr_server p = Starting \<Longrightarrow>
    process_step lib srv jan Internal p (upon (append_log [listening_log lib (sr_cfg srv)]) (p\<lparr>pr_server := Serving\<rparr>))"
| closed: "shutdown_called p \<Longrightarrow> pr_server p = Serving \<Longrightarrow>
    process_step lib srv jan Internal p (p\<lparr>pr_server := Delivering None\<rparr>)"
| deliver: "running p \<Longrightarrow> pr_server p = Delivering e \<Longrightarrow> pr_serveErr p = None \<Longrightarrow>
    process_step lib srv jan Internal p (p\<lparr>pr_server := Gone, pr_serveErr := Some e\<rparr>)"
| served: "pr_main p = Selecting \<or> pr_main p = Receiving \<Longrightarrow> pr_serveErr p = Some e \<Longrightarrow>
    process_step lib srv jan Internal p (p\<lparr>pr_main := Returned e, pr_serveErr := None\<rparr>)"
| drain: "pr_main p = Selecting \<Longrightarrow> pr_signalled p \<Longrightarrow>
    process_step lib srv jan Internal p
      (upon (append_log [main_log ''shutdown signal received, draining connections'']) (p\<lparr>pr_main := Draining\<rparr>))"
| drained: "pr_main p = Draining \<Longrightarrow> process_step lib srv jan Internal p (p\<lparr>pr_main := Waiting None\<rparr>)"
| waited_overdue: "pr_main p = Waiting (Some e) \<Longrightarrow> all_over p \<Longrightarrow>
    process_step lib srv jan Internal p (p\<lparr>pr_main := Returned (Some e)\<rparr>)"
| waited: "pr_main p = Waiting None \<Longrightarrow> all_over p \<Longrightarrow>
    process_step lib srv jan Internal p (upon (append_log [main_log ''shutdown complete'']) (p\<lparr>pr_main := Receiving\<rparr>))"

inductive runs :: "Lib \<Rightarrow> 's Server \<Rightarrow> 's Janitor \<Rightarrow> event list \<Rightarrow> 's Process \<Rightarrow> 's Process \<Rightarrow> bool"
  for lib :: Lib and srv :: "'s Server" and jan :: "'s Janitor" where
  stay: "runs lib srv jan [] p p"
| more: "runs lib srv jan evs p p' \<Longrightarrow> process_step lib srv jan e p' p'' \<Longrightarrow> runs lib srv jan (evs @ [e]) p p''"

section \<open>What the steps keep\<close>

lemma process_sel [simp]:
  "pr_main (upon f p) = pr_main p" "pr_signalled (upon f p) = pr_signalled p" "pr_background (upon f p) = pr_background p"
  "pr_server (upon f p) = pr_server p" "pr_serveErr (upon f p) = pr_serveErr p" "pr_world (upon f p) = f (pr_world p)"
  "pr_main (set_phase i r ph p) = pr_main p" "pr_signalled (set_phase i r ph p) = pr_signalled p"
  "pr_background (set_phase i r ph p) = (pr_background p)[i := (r, ph)]"
  "pr_server (set_phase i r ph p) = pr_server p" "pr_serveErr (set_phase i r ph p) = pr_serveErr p"
  "pr_world (set_phase i r ph p) = pr_world p"
  by (simp_all add: upon_def set_phase_def)

lemma not_over: "in_phase i r ph p \<Longrightarrow> ph \<noteq> Over \<Longrightarrow> \<not> all_over p"
  by (auto simp: in_phase_def all_over_def list_all_length)

lemma all_over_cong: "pr_background p' = pr_background p \<Longrightarrow> all_over p' = all_over p"
  by (simp add: all_over_def)

text \<open>
  The channel and the server's goroutine: the value is sent exactly when the goroutine ends, it is
  an error unless \<open>Shutdown\<close> was called; and what is behind each phase of the main thread.
\<close>

definition life_inv :: "event list \<Rightarrow> 's Process \<Rightarrow> bool" where
  "life_inv evs p \<longleftrightarrow>
     (pr_signalled p \<longleftrightarrow> Signal \<in> set evs) \<and>
     (running p \<longrightarrow> (pr_server p = Gone \<longleftrightarrow> pr_serveErr p \<noteq> None)) \<and>
     (running p \<longrightarrow> pr_server p = Delivering None \<or> pr_serveErr p = Some None \<longrightarrow> shutdown_called p) \<and>
     (\<forall>e. pr_server p = Delivering (Some e) \<or> pr_serveErr p = Some (Some e) \<longrightarrow> ListenFails e \<in> set evs) \<and>
     (shutdown_called p \<longrightarrow> pr_signalled p) \<and>
     (\<forall>e. pr_main p = Waiting (Some e) \<longrightarrow> Overdue e \<in> set evs) \<and>
     (pr_main p = Receiving \<longrightarrow> all_over p) \<and>
     (pr_main p = Returned None \<longrightarrow> pr_signalled p \<and> all_over p \<and> pr_server p = Gone) \<and>
     (\<forall>e. pr_main p = Returned (Some e) \<longrightarrow>
        ListenFails e \<in> set evs \<or> Overdue e \<in> set evs \<and> pr_signalled p \<and> all_over p)"

lemma life_inv_spawn: "life_inv [] (spawn w pinger)"
  by (simp add: life_inv_def spawn_def shutdown_called_def)

lemma life_inv_step:
  assumes "process_step lib srv jan e p p'" and "life_inv evs p"
  shows "life_inv (evs @ [e]) p'"
  using assms
  by cases (auto simp: life_inv_def running_def shutdown_called_def all_over_def in_phase_def list_all_length
      split: main_phase.splits)

lemma life_inv_runs:
  assumes "runs lib srv jan evs (spawn w pinger) p"
  shows "life_inv evs p"
  using assms by (induction evs "spawn w pinger" p rule: runs.induct) (auto intro: life_inv_spawn life_inv_step)

text \<open>The goroutines never change, so only an interval that is not positive ends the process with a panic.\<close>

definition routines :: "'s Process \<Rightarrow> routine list" where
  "routines p = map fst (pr_background p)"

lemma routines_step: "process_step lib srv jan e p p' \<Longrightarrow> routines p' = routines p"
  by (cases rule: process_step.cases) (auto simp: routines_def in_phase_def map_update list_update_same_conv)

lemma routines_runs: "runs lib srv jan evs p p' \<Longrightarrow> routines p' = routines p"
  by (induction rule: runs.induct) (auto dest: routines_step)

lemma dead_step:
  assumes "process_step lib srv jan e p p'" "pr_main p' = Dead msg"
  shows "\<exists>r \<in> set (routines p). interval jan r \<le> 0"
  using assms
proof cases
  case (panic i r msg')
  then have "(r, Spawned) \<in> set (pr_background p)" "interval jan r \<le> 0"
    using nth_mem [of i "pr_background p"] by (auto simp: in_phase_def NewTicker_def split: if_splits)
  then have "r \<in> set (routines p)" "interval jan r \<le> 0"
    by (force simp: routines_def)+
  then show ?thesis by blast
qed (use assms(2) in \<open>auto simp: running_def shutdown_called_def\<close>)

lemma dead_runs:
  assumes "runs lib srv jan evs (spawn w pinger) p" "pr_main p = Dead msg"
  shows "\<exists>r \<in> set (routines (spawn w pinger)). interval jan r \<le> 0"
  using assms
proof cases
  case (more evs' p' e)
  then show ?thesis using dead_step routines_runs assms(2) by metis
qed (use assms(2) in \<open>simp add: spawn_def\<close>)

section \<open>The steps that are owed\<close>

text \<open>What the goroutines still have to do before \<open>run\<close> returns.\<close>

definition main_pending :: "main_phase \<Rightarrow> nat" where
  "main_pending m = (case m of Selecting \<Rightarrow> 4 | Draining \<Rightarrow> 3 | Waiting _ \<Rightarrow> 2 | Receiving \<Rightarrow> 1 | _ \<Rightarrow> 0)"

definition server_pending :: "server_phase \<Rightarrow> nat" where
  "server_pending s = (case s of Starting \<Rightarrow> 3 | Serving \<Rightarrow> 2 | Delivering _ \<Rightarrow> 1 | Gone \<Rightarrow> 0)"

definition phase_pending :: "phase \<Rightarrow> nat" where
  "phase_pending ph = (case ph of Spawned \<Rightarrow> 3 | Busy \<Rightarrow> 2 | Idle \<Rightarrow> 1 | Over \<Rightarrow> 0)"

definition pending :: "'s Process \<Rightarrow> nat" where
  "pending p = main_pending (pr_main p) + server_pending (pr_server p) + sum_list (map (phase_pending \<circ> snd) (pr_background p))"

definition owed :: "event \<Rightarrow> bool" where
  "owed e \<longleftrightarrow> (case e of Internal \<Rightarrow> True | Overdue _ \<Rightarrow> True | _ \<Rightarrow> False)"

definition is_tick :: "event \<Rightarrow> bool" where
  "is_tick e \<longleftrightarrow> (case e of Tick _ \<Rightarrow> True | _ \<Rightarrow> False)"

lemma background_pending:
  assumes "in_phase i r ph p"
  shows "sum_list (map (phase_pending \<circ> snd) ((pr_background p)[i := (r, ph')])) + phase_pending ph =
    sum_list (map (phase_pending \<circ> snd) (pr_background p)) + phase_pending ph'"
proof -
  have i: "i < length (map (phase_pending \<circ> snd) (pr_background p))" "map (phase_pending \<circ> snd) (pr_background p) ! i = phase_pending ph"
    using assms by (auto simp: in_phase_def)
  then have "phase_pending ph \<le> sum_list (map (phase_pending \<circ> snd) (pr_background p))"
    using elem_le_sum_list [OF i(1)] by simp
  then show ?thesis
    using sum_list_update [OF i(1), of "phase_pending ph'"] i(2) by (simp add: map_update)
qed

text \<open>A step that is owed makes the rest smaller, a tick adds one, nothing else adds to it.\<close>

lemma pending_step:
  assumes "process_step lib srv jan e p p'"
  shows "pending p' + (if owed e then 1 else 0) \<le> pending p + (if is_tick e then 1 else 0)"
  using assms
  by cases (auto simp: pending_def owed_def is_tick_def main_pending_def server_pending_def phase_pending_def running_def
      shutdown_called_def first_phase_def dest: background_pending [where ph' = Busy] background_pending [where ph' = Idle]
      background_pending [where ph' = Over] split: main_phase.splits)

lemma pending_runs:
  assumes "runs lib srv jan evs p p'"
  shows "pending p' + length (filter owed evs) \<le> pending p + length (filter is_tick evs)"
  using assms
proof induction
  case (more evs p p' e p'')
  then show ?case using pending_step [OF more.hyps(2)] by (auto split: if_splits)
qed simp

lemma runs_trans: "runs lib srv jan evs' p' p'' \<Longrightarrow> runs lib srv jan evs p p' \<Longrightarrow> runs lib srv jan (evs @ evs') p p''"
  by (induction rule: runs.induct) (auto intro: runs.more simp flip: append_assoc)

lemma pending_spawn: "pending (spawn w pinger) \<le> 19"
  by (simp add: pending_def spawn_def main_pending_def server_pending_def phase_pending_def Limiters_def comp_def
      sum_list_triv split: option.split)

text \<open>After the signal some goroutine can always go on, until \<open>run\<close> has returned.\<close>

lemma progress:
  assumes inv: "life_inv evs p" and "pr_signalled p" "running p"
  shows "\<exists>p'. process_step lib srv jan Internal p p'"
proof (cases "all_over p")
  case False
  then obtain i r ph where i: "in_phase i r ph p" "ph \<noteq> Over"
    by (auto simp: all_over_def list_all_length in_phase_def)
  show ?thesis
  proof (cases ph)
    case Spawned
    then show ?thesis using i assms(3)
      by (cases "NewTicker (interval jan r)") (blast intro: process_step.go process_step.panic)+
  qed (use i assms in \<open>blast intro: process_step.round process_step.over\<close>)+
next
  case over: True
  show ?thesis
  proof (cases "pr_main p")
    case (Waiting e)
    then show ?thesis using over by (cases e) (blast intro: process_step.waited process_step.waited_overdue)+
  next
    case Receiving
    then have called: "shutdown_called p" by (simp add: shutdown_called_def)
    show ?thesis
    proof (cases "pr_server p")
      case (Delivering e)
      then have "pr_serveErr p = None" using inv assms(3) by (auto simp: life_inv_def)
      then show ?thesis using Delivering assms(3) by (blast intro: process_step.deliver)
    next
      case Gone
      then obtain e where "pr_serveErr p = Some e" using inv assms(3) by (auto simp: life_inv_def)
      then show ?thesis using Receiving by (blast intro: process_step.served)
    qed (use assms(3) called in \<open>blast intro: process_step.listen process_step.closed\<close>)+
  qed (use assms in \<open>auto simp: running_def intro: process_step.drain process_step.drained\<close>)
qed

text \<open>Left alone, a signalled process comes to its end.\<close>

lemma runs_one: "process_step lib srv jan e p p' \<Longrightarrow> runs lib srv jan [e] p p'"
  using runs.more [OF runs.stay] by fastforce

lemma can_finish:
  assumes "life_inv evs p" "pr_signalled p"
  shows "\<exists>evs' p'. runs lib srv jan evs' p p' \<and> set evs' \<subseteq> {Internal} \<and> \<not> running p'"
  using assms
proof (induction "pending p" arbitrary: p evs rule: less_induct)
  case less
  show ?case
  proof (cases "running p")
    case True
    then obtain p1 where s: "process_step lib srv jan Internal p p1"
      using progress less.prems by blast
    then have inv: "life_inv (evs @ [Internal]) p1" by (rule life_inv_step) fact
    have "pending p1 < pending p" using pending_step [OF s] by (simp add: owed_def is_tick_def)
    moreover have "pr_signalled p1" using inv less.prems by (simp add: life_inv_def)
    ultimately obtain evs' p' where "runs lib srv jan evs' p1 p'" "set evs' \<subseteq> {Internal}" "\<not> running p'"
      using less.hyps inv by blast
    then show ?thesis using runs_trans [OF _ runs_one [OF s]] by fastforce
  qed (use runs.stay in fastforce)
qed

section \<open>The store under the running process\<close>

lemma start_server_wires:
  assumes "start_server lib (Inr (st, s)) migrate_error aws_error d cfg = Inr (srv, w, jan, pinger)"
  shows "wired st srv" "ja_store jan = st" "wd_store w = s" "ja_interval jan = hour"
    "pinger = (if sp_Enabled (cf_SelfPing cfg) then Some (New_pinger (cf_SelfPing cfg)) else None)"
  using assms
  by (auto simp: start_server_def wired_def New_server_def NewService_def New_janitor_def Let_def split: option.splits sum.splits)

lemma append_log_store [simp]: "wd_store (append_log es w) = wd_store w"
  by (simp add: append_log_def)

lemma started_store [simp]: "wd_store (started r w) = wd_store w" "wd_store (stopped r w) = wd_store w"
  by (simp_all add: started_def stopped_def split: routine.split)

context server_guarantee
begin

lemma G_work: "ja_store jan = st \<Longrightarrow> G (wd_store w) (wd_store (work s3 jan dr x r w))"
  using G_sweep [of jan "\<lparr>hk_store = wd_store w, hk_deleted = [], hk_log = []\<rparr>"]
  by (auto simp: work_def Let_def G_refl split: routine.split)

lemma G_step:
  assumes "wired st srv" "ja_store jan = st" "process_step lib srv jan e p p'"
  shows "G (wd_store (pr_world p)) (wd_store (pr_world p'))"
  using assms(3) by cases (simp_all add: G_refl G_Handler [OF assms(1)] G_work [OF assms(2)])

lemma G_runs:
  assumes "wired st srv" "ja_store jan = st" "runs lib srv jan evs p p'"
  shows "G (wd_store (pr_world p)) (wd_store (pr_world p'))"
  using assms(3) by induction (blast intro: G_refl G_trans G_step [OF assms(1,2)])+

end

end
