(* ===== verification/SchemaLaws.thy ===== *)
theory SchemaLaws
  imports PostgresLaws Lifecycle "HOL-Library.Sublist"
begin

text \<open>
  What the tables of the Postgres store satisfy at all times, whatever the clock, the random numbers
  and the failures of the driver: the constraints of \<open>migrations/0001_init.sql\<close>, and that an account
  is never deleted and never changes its identity.
\<close>

section \<open>The constraints\<close>

text \<open>Keys, unique indexes, foreign keys and \<open>CHECK\<close>s of the four tables.\<close>

definition schema_ok :: "PgLib \<Rightarrow> PgDB \<Rightarrow> bool" where
  "schema_ok pl db \<longleftrightarrow>
     pg_users_ok pl db \<and> pg_tokens_ok db \<and> pg_uploads_ok db \<and>
     distinct (map p_ID (t_posts db)) \<and>
     (\<forall>p \<in> set (t_posts db). user_exists db (p_AuthorID p) \<and> rune_count (p_Caption p) \<le> 2200) \<and>
     (\<forall>u \<in> set (t_uploads db). ul_Purpose u \<in> {''avatar'', ''post''})"

text \<open>What identifies an account: none of it is ever updated.\<close>

definition account :: "UserRow \<Rightarrow> gostring \<times> gostring \<times> gostring \<times> gostring \<times> time" where
  "account r = (ur_ID r, u_Email (ur_User r), u_Username (ur_User r), ur_password_hash r, u_CreatedAt (ur_User r))"

definition accounts :: "PgDB \<Rightarrow> (gostring \<times> gostring \<times> gostring \<times> gostring \<times> time) list" where
  "accounts db = map account (t_users db)"

lemma schema_ok_empty: "schema_ok pl pg_empty"
  by (simp add: schema_ok_def pg_empty_def pg_users_ok_def pg_tokens_ok_def pg_uploads_ok_def)

lemma statement_inv: "P db \<Longrightarrow> P (snd run) \<Longrightarrow> P (snd (statement d run db))"
  by (auto simp: statement_def split: option.split prod.split sum.split)

section \<open>Every statement keeps the constraints\<close>

lemma schema_insert_user:
  assumes "schema_ok pl db"
  shows "schema_ok pl (snd (insert_user pl r db))"
  using assms
  by (auto simp: insert_user_def schema_ok_def pg_users_ok_def pg_tokens_ok_def pg_uploads_ok_def user_exists_def
      split: option.split)

lemma run_assignments_sel:
  "u_ID (fold (run_assignment d) as u) = u_ID u" "u_Email (fold (run_assignment d) as u) = u_Email u"
  "u_Username (fold (run_assignment d) as u) = u_Username u" "u_CreatedAt (fold (run_assignment d) as u) = u_CreatedAt u"
proof -
  have 1: "u_ID (run_assignment d a v) = u_ID v" "u_Email (run_assignment d a v) = u_Email v"
    "u_Username (run_assignment d a v) = u_Username v" "u_CreatedAt (run_assignment d a v) = u_CreatedAt v" for a v
    by (cases a; simp)+
  show "u_ID (fold (run_assignment d) as u) = u_ID u" "u_Email (fold (run_assignment d) as u) = u_Email u"
    "u_Username (fold (run_assignment d) as u) = u_Username u" "u_CreatedAt (fold (run_assignment d) as u) = u_CreatedAt u"
    by (induction as arbitrary: u) (simp_all add: 1)
qed

definition set_row :: "Draw \<Rightarrow> assignment list \<Rightarrow> gostring \<Rightarrow> UserRow \<Rightarrow> UserRow" where
  "set_row d as ident r = (if ur_ID r = ident then r\<lparr>ur_User := fold (run_assignment d) as (ur_User r)\<rparr> else r)"

lemma set_row_sel [simp]:
  "ur_ID (set_row d as ident r) = ur_ID r" "u_Email (ur_User (set_row d as ident r)) = u_Email (ur_User r)"
  "u_Username (ur_User (set_row d as ident r)) = u_Username (ur_User r)" "account (set_row d as ident r) = account r"
  by (simp_all add: set_row_def account_def run_assignments_sel)

lemma update_user_cases:
  obtains "snd (update_user pl d as ident db) = db"
  | r where "List.find (\<lambda>r. ur_ID r = ident) (map (set_row d as ident) (t_users db)) = Some r"
      "users_check pl (ur_User r) = None"
      "snd (update_user pl d as ident db) = db\<lparr>t_users := map (set_row d as ident) (t_users db)\<rparr>"
proof (cases "List.find (\<lambda>r. ur_ID r = ident) (map (set_row d as ident) (t_users db))")
  case None
  then have "snd (update_user pl d as ident db) = db"
    by (simp add: update_user_def set_row_def [symmetric])
  then show ?thesis by (rule that(1))
next
  case (Some r)
  then show ?thesis
    using that by (cases "users_check pl (ur_User r)") (simp_all add: update_user_def set_row_def [symmetric])
qed

lemma schema_update_user:
  assumes db: "schema_ok pl db"
  shows "schema_ok pl (snd (update_user pl d as ident db))"
proof (rule update_user_cases [of pl d as ident db])
  fix r
  assume found: "List.find (\<lambda>r. ur_ID r = ident) (map (set_row d as ident) (t_users db)) = Some r"
    and ok: "users_check pl (ur_User r) = None"
    and new: "snd (update_user pl d as ident db) = db\<lparr>t_users := map (set_row d as ident) (t_users db)\<rparr>"
  have "distinct (map ur_ID (map (set_row d as ident) (t_users db)))"
    using db by (simp add: schema_ok_def pg_users_ok_def comp_def)
  then have hit: "set_row d as ident x = r" if "x \<in> set (t_users db)" "ur_ID x = ident" for x
    using that found find_by_key [of ur_ID "map (set_row d as ident) (t_users db)" "set_row d as ident x"] by simp
  have miss: "set_row d as ident x = x" if "ur_ID x \<noteq> ident" for x
    using that by (simp add: set_row_def)
  have "users_check pl (ur_User (set_row d as ident x)) = None" if "x \<in> set (t_users db)" for x
    using that db ok hit miss by (cases "ur_ID x = ident") (simp_all add: schema_ok_def pg_users_ok_def)
  then show ?thesis
    using db by (simp add: new schema_ok_def pg_users_ok_def pg_tokens_ok_def pg_uploads_ok_def user_exists_def comp_def)
qed (simp add: db)

lemma schema_posts:
  assumes "schema_ok pl db"
  shows "schema_ok pl (snd (insert_post p db))" "schema_ok pl (snd (delete_post ident requester db))"
proof -
  show "schema_ok pl (snd (insert_post p db))"
    using assms
    by (auto simp: insert_post_def schema_ok_def pg_users_ok_def pg_tokens_ok_def pg_uploads_ok_def user_exists_def split: sum.split)
  show "schema_ok pl (snd (delete_post ident requester db))"
    using assms distinct_keys_filter
    by (auto simp: delete_post_def Let_def schema_ok_def pg_users_ok_def pg_tokens_ok_def pg_uploads_ok_def user_exists_def)
qed

lemma schema_tokens:
  assumes "schema_ok pl db"
  shows "schema_ok pl (snd (insert_token t db))"
    and "\<lbrakk>\<And>t. rt_ID (f t) = rt_ID t; \<And>t. rt_TokenHash (f t) = rt_TokenHash t; \<And>t. rt_UserID (f t) = rt_UserID t\<rbrakk>
      \<Longrightarrow> schema_ok pl (snd (update_tokens P f db))"
    and "schema_ok pl (db\<lparr>t_tokens := filter P (t_tokens db)\<rparr>)"
proof -
  show "schema_ok pl (snd (insert_token t db))"
    using assms
    by (auto simp: insert_token_def schema_ok_def pg_users_ok_def pg_tokens_ok_def pg_uploads_ok_def user_exists_def)
  show "schema_ok pl (db\<lparr>t_tokens := filter P (t_tokens db)\<rparr>)"
    using assms distinct_keys_filter
    by (auto simp: schema_ok_def pg_users_ok_def pg_tokens_ok_def pg_uploads_ok_def user_exists_def)
  assume f: "\<And>t. rt_ID (f t) = rt_ID t" "\<And>t. rt_TokenHash (f t) = rt_TokenHash t" "\<And>t. rt_UserID (f t) = rt_UserID t"
  have "rt_ID \<circ> (\<lambda>t. if P t then f t else t) = rt_ID" "rt_TokenHash \<circ> (\<lambda>t. if P t then f t else t) = rt_TokenHash"
    using f by (auto simp: fun_eq_iff)
  then show "schema_ok pl (snd (update_tokens P f db))"
    using assms f(3)
    by (auto simp: update_tokens_def schema_ok_def pg_users_ok_def pg_tokens_ok_def pg_uploads_ok_def user_exists_def)
qed

lemma schema_uploads:
  assumes "schema_ok pl db"
  shows "schema_ok pl (snd (insert_upload u db))" "schema_ok pl (snd (claim_upload key uid purpose time db))"
    "schema_ok pl (snd (release_uploads d time limit db))"
proof -
  show "schema_ok pl (snd (insert_upload u db))"
    using assms
    by (auto simp: insert_upload_def schema_ok_def pg_users_ok_def pg_tokens_ok_def pg_uploads_ok_def user_exists_def)
  have "ul_Key \<circ> (\<lambda>u. if P u then u\<lparr>ul_AttachedAt := Some time\<rparr> else u) = ul_Key" for P :: "Upload \<Rightarrow> bool"
    by (auto simp: fun_eq_iff)
  then show "schema_ok pl (snd (claim_upload key uid purpose time db))"
    using assms
    by (auto simp: claim_upload_def Let_def schema_ok_def pg_users_ok_def pg_tokens_ok_def pg_uploads_ok_def user_exists_def)
  show "schema_ok pl (snd (release_uploads d time limit db))"
    using assms distinct_keys_filter
    by (auto simp: release_uploads_def Let_def schema_ok_def pg_users_ok_def pg_tokens_ok_def pg_uploads_ok_def user_exists_def)
qed

section \<open>What they keep of the accounts\<close>

lemma accounts_users:
  "prefix (accounts db) (accounts (snd (insert_user pl r db)))" "accounts (snd (update_user pl d as ident db)) = accounts db"
proof -
  show "prefix (accounts db) (accounts (snd (insert_user pl r db)))"
    by (simp add: insert_user_def accounts_def split: option.split)
  show "accounts (snd (update_user pl d as ident db)) = accounts db"
    by (rule update_user_cases [of pl d as ident db]) (simp_all add: accounts_def comp_def)
qed

lemma accounts_cong: "t_users db' = t_users db \<Longrightarrow> accounts db' = accounts db"
  by (simp add: accounts_def)

lemma other_tables:
  "t_users (snd (insert_post p db)) = t_users db" "t_users (snd (delete_post ident requester db)) = t_users db"
  "t_users (snd (insert_token t db)) = t_users db" "t_users (snd (update_tokens P f db)) = t_users db"
  "t_users (snd (insert_upload u db)) = t_users db" "t_users (snd (claim_upload key uid purpose time db)) = t_users db"
  "t_users (snd (release_uploads d time limit db)) = t_users db"
  by (simp_all add: insert_post_def delete_post_def insert_token_def update_tokens_def insert_upload_def claim_upload_def
      release_uploads_def Let_def split: sum.split)

section \<open>The guarantee of the Postgres store\<close>

definition pg_guarantee :: "PgLib \<Rightarrow> PgDB \<Rightarrow> PgDB \<Rightarrow> bool" where
  "pg_guarantee pl db db' \<longleftrightarrow> (schema_ok pl db \<longrightarrow> schema_ok pl db') \<and> prefix (accounts db) (accounts db')"

lemma guarantee_refl: "pg_guarantee pl db db"
  by (simp add: pg_guarantee_def)

lemma guarantee_statement: "pg_guarantee pl db (snd run) \<Longrightarrow> pg_guarantee pl db (snd (statement d run db))"
  by (rule statement_inv [of "pg_guarantee pl db", OF guarantee_refl])

lemma guarantee_rows:
  "(schema_ok pl db \<Longrightarrow> schema_ok pl db') \<Longrightarrow> t_users db' = t_users db \<Longrightarrow> pg_guarantee pl db db'"
  using accounts_cong [of db' db] by (simp add: pg_guarantee_def)

lemma snd_case_result:
  "(\<And>a b. P (snd (f a b)) \<longleftrightarrow> P b) \<Longrightarrow> P (snd (case x of (a, b) \<Rightarrow> f a b)) \<longleftrightarrow> P (snd x)"
  by (cases x) simp

lemma guarantee_update_tokens:
  assumes "\<And>t. rt_ID (f t) = rt_ID t" "\<And>t. rt_TokenHash (f t) = rt_TokenHash t" "\<And>t. rt_UserID (f t) = rt_UserID t"
  shows "pg_guarantee pl db (snd (statement d (apfst Inr (update_tokens P f db)) db))"
  using assms by (intro guarantee_statement guarantee_rows) (simp_all add: schema_tokens other_tables)

interpretation pg: store_guarantee "pg_Store pl lp" "pg_guarantee pl" for pl lp
proof (unfold_locales, unfold pg_Store_sel pg_Users_def pg_Posts_def pg_Tokens_def pg_Uploads_def
    UserStore.simps PostStore.simps TokenStore.simps UploadStore.simps)
  fix db :: PgDB and d
  show "pg_guarantee pl db db" by (rule guarantee_refl)
  show "pg_guarantee pl db (snd (pg_user_Create pl d inp db))" for inp
    unfolding pg_user_Create_def
    by (rule guarantee_statement) (simp add: pg_guarantee_def schema_insert_user accounts_users)
  show "pg_guarantee pl db (snd (pg_user_Update pl d ident upd db))" for ident upd
    by (auto simp: pg_user_Update_def Let_def guarantee_refl pg_guarantee_def schema_update_user accounts_users
        intro: statement_inv)
  show "pg_guarantee pl db (snd (pg_post_Create d np db))" for np
    unfolding pg_post_Create_def by (intro guarantee_statement guarantee_rows schema_posts other_tables)
  show "pg_guarantee pl db (snd (pg_token_Issue pl d t db))" for t
    unfolding pg_token_Issue_def by (intro guarantee_statement guarantee_rows schema_tokens other_tables)
  show "pg_guarantee pl db (snd (pg_upload_Reserve d upload db))" for upload
    unfolding pg_upload_Reserve_def by (intro guarantee_statement guarantee_rows schema_uploads other_tables)
  show "pg_guarantee pl db (snd (pg_upload_ReleaseAbandoned pl d time limit db))" for time limit
    unfolding pg_upload_ReleaseAbandoned_def by (intro guarantee_statement guarantee_rows schema_uploads other_tables)
  show "pg_guarantee pl db (snd (pg_token_DeleteExpired pl d time db))" for time
    unfolding pg_token_DeleteExpired_def Let_def
    by (intro guarantee_statement guarantee_rows) (simp_all add: schema_tokens)
  show "pg_guarantee pl db (snd (pg_token_RevokeFamily pl d family time db))" for family time
    unfolding pg_token_RevokeFamily_def snd_apfst by (rule guarantee_update_tokens) simp_all
  show "pg_guarantee pl db (snd (pg_token_RevokeAllForUser pl d uid time db))" for uid time
    unfolding pg_token_RevokeAllForUser_def snd_apfst by (rule guarantee_update_tokens) simp_all
  show "pg_guarantee pl db (snd (pg_token_MarkUsed pl d ident time db))" for ident time
    unfolding pg_token_MarkUsed_def
    by (subst snd_case_result [where P = "pg_guarantee pl db"], simp split: sum.split, rule guarantee_update_tokens) simp_all
  show "pg_guarantee pl db (snd (pg_post_Delete d ident requester db))" for ident requester
    unfolding pg_post_Delete_def
    by (subst snd_case_result [where P = "pg_guarantee pl db"], simp split: sum.split prod.split,
        intro guarantee_statement guarantee_rows) (simp_all add: schema_posts other_tables)
  show "pg_guarantee pl db (snd (pg_upload_Claim pl d key uid purpose time db))" for key uid purpose time
    unfolding pg_upload_Claim_def
    by (subst snd_case_result [where P = "pg_guarantee pl db"], simp split: sum.split prod.split,
        intro guarantee_statement guarantee_rows) (simp_all add: schema_uploads other_tables)
next
  show "pg_guarantee pl db db' \<Longrightarrow> pg_guarantee pl db' db'' \<Longrightarrow> pg_guarantee pl db db''" for db db' db''
    by (auto simp: pg_guarantee_def intro: prefix_order.trans)
qed

end
