(* ===== verification/LifeProps.thy ===== *)
theory LifeProps
  imports SchemaLaws ApiInputs
begin

text \<open>What holds of the process as a whole, from its start to its exit.\<close>

section \<open>A process to start\<close>

definition lf_cfg :: Config where
  "lf_cfg = \<lparr>cf_Addr = '':8080'', cf_DatabaseURL = [], cf_Environment = EnvironmentDevelopment, cf_JWTSecret = ''s'',
     cf_AccessTokenTTL = 15 * minute, cf_RefreshTokenTTL = 24 * hour,
     cf_Storage = \<lparr>sc_Endpoint = [], sc_Region = [], sc_Bucket = ''b'', sc_AccessKey = [], sc_SecretKey = [],
       sc_UsePathStyle = False, sc_PublicBaseURL = [], sc_PresignTTL = hour\<rparr>,
     cf_UploadGCAfter = 24 * hour, cf_DocsEnabled = True,
     cf_SelfPing = \<lparr>sp_Enabled = False, sp_URL = [], sp_Interval = 0, sp_Timeout = 0\<rparr>,
     cf_RateLimitBurst = 10, cf_RateLimitPerMin = 60, cf_AuthRateLimitBurst = 5, cf_AuthRateLimitPerMin = 10,
     cf_TrustProxyHeader = False\<rparr>"

abbreviation lf_boot :: "gostring + PgDB Server \<times> PgDB World \<times> PgDB Janitor \<times> Pinger option" where
  "lf_boot \<equiv> start_server ax_lib (Inr (pg_Store sp_pl (\<lambda>_. None), sp_db)) None None sp_draw lf_cfg"

lemma lf_boots: "\<exists>srv w jan. lf_boot = Inr (srv, w, jan, None)"
  by (simp add: start_server_def New_server_def New_presigner_def lf_cfg_def Let_def)

lemma lf_schema: "schema_ok sp_pl sp_db"
  using sp_pg_inv
  by (auto simp: schema_ok_def pg_inv_def pg_posts_ok_def sp_db_def sp_post_def sp_upload_def rune_count_ascii is_ascii_def)

text \<open>After its first line of log the server answers requests.\<close>

lemma lf_serves:
  "runs lib srv jan [Internal, Request] (spawn w pinger)
     (upon (\<lambda>w. snd (snd (Handler lib srv dr r new_writer w)))
       (upon (append_log [listening_log lib (sr_cfg srv)]) ((spawn w pinger)\<lparr>pr_server := Serving\<rparr>)))"
proof -
  let ?p = "upon (append_log [listening_log lib (sr_cfg srv)]) ((spawn w pinger)\<lparr>pr_server := Serving\<rparr>)"
  have "runs lib srv jan [Internal] (spawn w pinger) ?p"
    by (rule runs_one [OF process_step.listen]) (simp_all add: running_def spawn_def)
  moreover have "process_step lib srv jan Request ?p (upon (\<lambda>w. snd (snd (Handler lib srv dr r new_writer w))) ?p)"
    by (rule process_step.request) (simp_all add: running_def spawn_def)
  ultimately show ?thesis
    using runs.more [of lib srv jan "[Internal]"] by simp
qed

text \<open>A signal at once, and the steps it takes to end.\<close>

lemma lf_signal: "runs lib srv jan [Signal] (spawn w pinger) ((spawn w pinger)\<lparr>pr_signalled := True\<rparr>)"
  by (rule runs_one [OF process_step.signal]) (simp add: running_def spawn_def)

lemma lf_ends:
  "\<exists>own p. runs lib srv jan own ((spawn w pinger)\<lparr>pr_signalled := True\<rparr>) p \<and> set own \<subseteq> {Internal} \<and> \<not> running p"
  by (rule can_finish [OF life_inv_runs [OF lf_signal]]) simp

section \<open>The tables at all times\<close>


text \<open>C18: An account stays: between any two moments of the process no account disappears, and none
  changes its identifier, address, name, password hash or creation time.\<close>

theorem accounts_permanent:
  assumes "start_server lib (Inr (pg_Store pl lp, db)) None aws_error d cfg = Inr (srv, w, jan, pinger)"
    and "runs lib srv jan evs (spawn w pinger) p" and "runs lib srv jan evs' p p'"
  shows "\<exists>created. accounts (wd_store (pr_world p')) = accounts (wd_store (pr_world p)) @ created"
  using pg.G_runs [OF start_server_wires(1,2) [OF assms(1)] assms(3)]
  by (simp add: pg_guarantee_def prefix_def)


lemma accounts_permanent_witness:
  "\<exists>srv w jan p created. lf_boot = Inr (srv, w, jan, None) \<and> runs ax_lib srv jan [Internal, Request] (spawn w None) p
     \<and> accounts (wd_store (pr_world p)) = accounts sp_db @ created"
proof -
  obtain srv w jan where b: "lf_boot = Inr (srv, w, jan, None)" using lf_boots by blast
  have "wd_store (pr_world (spawn w None)) = sp_db" using start_server_wires(3) [OF b] by (simp add: spawn_def)
  then show ?thesis using b accounts_permanent [OF b runs.stay lf_serves] lf_serves by metis
qed

section \<open>The end of the process\<close>





end
