(* ===== verification/ImageLaws.thy ===== *)
theory ImageLaws
  imports SchemaLaws HandlerLaws
begin

text \<open>
  What the tables of the Postgres store say about images: an image shown on a post or as an avatar is
  an upload of its owner, made for that purpose and attached, no two posts show the same one, and an
  attached upload is never touched again.  Unlike the constraints of the schema, this is not a fact of
  each statement: it holds because the handlers claim an upload before they name it.
\<close>

section \<open>Images and their uploads\<close>

definition attached :: "PgDB \<Rightarrow> Upload set" where
  "attached db = {u \<in> set (t_uploads db). ul_AttachedAt u \<noteq> None}"

definition backed :: "PgDB \<Rightarrow> gostring \<Rightarrow> gostring \<Rightarrow> gostring \<Rightarrow> bool" where
  "backed db key owner purpose \<longleftrightarrow> (\<exists>u \<in> attached db. ul_Key u = key \<and> ul_UserID u = owner \<and> ul_Purpose u = purpose)"

definition images_ok :: "PgLib \<Rightarrow> PgDB \<Rightarrow> bool" where
  "images_ok pl db \<longleftrightarrow> schema_ok pl db
     \<and> (\<forall>p \<in> set (t_posts db). \<forall>k. p_ImageKey p = Some k \<longrightarrow> backed db k (p_AuthorID p) PurposePost)
     \<and> (\<forall>p \<in> set (t_posts db). \<forall>q \<in> set (t_posts db). p_ImageKey p \<noteq> None \<longrightarrow> p_ImageKey p = p_ImageKey q \<longrightarrow> p = q)
     \<and> (\<forall>r \<in> set (t_users db). \<forall>k. u_AvatarKey (ur_User r) = Some k \<longrightarrow> backed db k (ur_ID r) PurposeAvatar)"

lemma images_okD:
  assumes "images_ok pl db"
  shows "schema_ok pl db"
    and "p \<in> set (t_posts db) \<Longrightarrow> p_ImageKey p = Some k \<Longrightarrow> backed db k (p_AuthorID p) PurposePost"
    and "p \<in> set (t_posts db) \<Longrightarrow> q \<in> set (t_posts db) \<Longrightarrow> p_ImageKey p = Some k \<Longrightarrow> p_ImageKey q = Some k \<Longrightarrow> p = q"
    and "r \<in> set (t_users db) \<Longrightarrow> u_AvatarKey (ur_User r) = Some k \<Longrightarrow> backed db k (ur_ID r) PurposeAvatar"
  using assms by (auto simp: images_ok_def)

lemma images_ok_empty: "images_ok pl pg_empty"
  by (simp add: images_ok_def schema_ok_empty) (simp add: pg_empty_def)

lemma backed_mono: "attached db \<subseteq> attached db' \<Longrightarrow> backed db k owner purpose \<Longrightarrow> backed db' k owner purpose"
  by (auto simp: backed_def)

lemma upload_keys: "schema_ok pl db \<Longrightarrow> u \<in> set (t_uploads db) \<Longrightarrow> v \<in> set (t_uploads db) \<Longrightarrow> ul_Key u = ul_Key v \<Longrightarrow> u = v"
  by (auto simp: schema_ok_def pg_uploads_ok_def distinct_map inj_on_def)

text \<open>What an operation may do to images: show fewer, and attach more uploads.\<close>

definition keeps_images :: "PgLib \<Rightarrow> PgDB \<Rightarrow> PgDB \<Rightarrow> bool" where
  "keeps_images pl db db' \<longleftrightarrow> (images_ok pl db \<longrightarrow> images_ok pl db' \<and> attached db \<subseteq> attached db')"

lemma keeps_refl: "keeps_images pl db db"
  by (simp add: keeps_images_def)

lemma keeps_trans: "keeps_images pl db db' \<Longrightarrow> keeps_images pl db' db'' \<Longrightarrow> keeps_images pl db db''"
  by (auto simp: keeps_images_def)

lemma keepsI:
  assumes "schema_ok pl db \<Longrightarrow> schema_ok pl db'" "schema_ok pl db \<Longrightarrow> attached db \<subseteq> attached db'" "set (t_posts db') \<subseteq> set (t_posts db)"
    and "\<And>r k. r \<in> set (t_users db') \<Longrightarrow> u_AvatarKey (ur_User r) = Some k \<Longrightarrow>
      \<exists>x \<in> set (t_users db). ur_ID x = ur_ID r \<and> u_AvatarKey (ur_User x) = Some k"
  shows "keeps_images pl db db'"
  unfolding keeps_images_def
proof
  assume ok: "images_ok pl db"
  have s: "schema_ok pl db'" and a: "attached db \<subseteq> attached db'"
    using assms(1,2) images_okD(1) [OF ok] by simp_all
  have "backed db' k (ur_ID r) PurposeAvatar" if "r \<in> set (t_users db')" "u_AvatarKey (ur_User r) = Some k" for r k
    using assms(4) [OF that] images_okD(4) [OF ok] backed_mono [OF a] by metis
  moreover have "backed db' k (p_AuthorID p) PurposePost" if "p \<in> set (t_posts db')" "p_ImageKey p = Some k" for p k
    using that assms(3) images_okD(2) [OF ok] backed_mono [OF a] by blast
  moreover have "p = q" if "p \<in> set (t_posts db')" "q \<in> set (t_posts db')" "p_ImageKey p \<noteq> None" "p_ImageKey p = p_ImageKey q" for p q
    using that assms(3) images_okD(3) [OF ok, of p q] by auto
  ultimately show "images_ok pl db' \<and> attached db \<subseteq> attached db'"
    using s a unfolding images_ok_def by blast
qed

lemma keeps_rows:
  assumes "schema_ok pl db \<Longrightarrow> schema_ok pl db'" "schema_ok pl db \<Longrightarrow> attached db \<subseteq> attached db'" "set (t_posts db') \<subseteq> set (t_posts db)"
    and "t_users db' = t_users db"
  shows "keeps_images pl db db'"
  by (rule keepsI [OF assms(1-3)]) (auto simp: assms(4))

lemma keeps_statement: "keeps_images pl db (snd run) \<Longrightarrow> keeps_images pl db (snd (statement d run db))"
  by (rule statement_inv [of "keeps_images pl db", OF keeps_refl])

section \<open>The statements\<close>

lemma keeps_insert_user: "u_AvatarKey (ur_User r) = None \<Longrightarrow> keeps_images pl db (snd (insert_user pl r db))"
  by (rule keepsI [OF schema_insert_user]) (auto simp: insert_user_def attached_def split: option.splits if_splits)

lemma keeps_delete_post: "keeps_images pl db (snd (delete_post ident requester db))"
  by (rule keeps_rows [OF schema_posts(2)]) (auto simp: delete_post_def attached_def Let_def)

lemma keeps_tokens: "schema_ok pl db \<longrightarrow> schema_ok pl (db\<lparr>t_tokens := ts\<rparr>) \<Longrightarrow> keeps_images pl db (db\<lparr>t_tokens := ts\<rparr>)"
  by (rule keeps_rows) (auto simp: attached_def)

lemma keeps_insert_upload: "ul_AttachedAt u = None \<Longrightarrow> keeps_images pl db (snd (insert_upload u db))"
  by (rule keeps_rows [OF schema_uploads(1)]) (auto simp: insert_upload_def attached_def)

lemma keeps_claim: "keeps_images pl db (snd (claim_upload key uid purpose time db))"
  by (rule keeps_rows [OF schema_uploads(2)]) (auto simp: claim_upload_def attached_def Let_def image_iff)

lemma keeps_release: "keeps_images pl db (snd (release_uploads d time limit db))"
proof (rule keeps_rows [OF schema_uploads(3)])
  assume s: "schema_ok pl db"
  have "ul_Key u \<notin> set (oldest_abandoned d time n db)" if "u \<in> attached db" for u n
  proof
    assume "ul_Key u \<in> set (oldest_abandoned d time n db)"
    then obtain v where "v \<in> set (t_uploads db)" "abandoned time v" "ul_Key v = ul_Key u"
      by (auto simp: oldest_abandoned_def dest!: in_set_takeD)
    then show False using that upload_keys [OF s, of v u] by (simp add: attached_def abandoned_def)
  qed
  then show "attached db \<subseteq> attached (snd (release_uploads d time limit db))"
    by (auto simp: release_uploads_def Let_def attached_def)
qed (auto simp: release_uploads_def Let_def)

text \<open>The two statements that name an upload: they must be given one of the owner's, attached, and new on posts.\<close>

lemma images_insert_post:
  assumes ok: "images_ok pl db"
    and k: "\<And>k. p_ImageKey p = Some k \<Longrightarrow> backed db k (p_AuthorID p) PurposePost \<and> (\<forall>q \<in> set (t_posts db). p_ImageKey q \<noteq> Some k)"
  shows "images_ok pl (snd (insert_post p db)) \<and> attached (snd (insert_post p db)) = attached db"
proof (cases "snd (insert_post p db) = db")
  case True
  then show ?thesis using ok by simp
next
  case False
  then have new: "snd (insert_post p db) = db\<lparr>t_posts := t_posts db @ [p]\<rparr>"
    by (auto simp: insert_post_def split: if_splits sum.splits)
  have a: "attached (snd (insert_post p db)) = attached db" by (simp add: new attached_def)
  have b: "backed (snd (insert_post p db)) = backed db" by (simp add: fun_eq_iff backed_def a)
  have "images_ok pl (snd (insert_post p db))"
    unfolding images_ok_def b
  proof (intro conjI ballI allI impI)
    show "schema_ok pl (snd (insert_post p db))" by (rule schema_posts [OF images_okD(1) [OF ok]])
    fix q k
    assume "q \<in> set (t_posts (snd (insert_post p db)))" "p_ImageKey q = Some k"
    then show "backed db k (p_AuthorID q) PurposePost" using k images_okD(2) [OF ok] by (auto simp: new)
  next
    fix q r
    assume *: "q \<in> set (t_posts (snd (insert_post p db)))" "r \<in> set (t_posts (snd (insert_post p db)))" "p_ImageKey q \<noteq> None"
      "p_ImageKey q = p_ImageKey r"
    then obtain key where "p_ImageKey q = Some key" "p_ImageKey r = Some key" by auto
    then show "q = r" using * k [of key] images_okD(3) [OF ok, of q r key] by (auto simp: new)
  next
    fix r k
    assume "r \<in> set (t_users (snd (insert_post p db)))" "u_AvatarKey (ur_User r) = Some k"
    then show "backed db k (ur_ID r) PurposeAvatar" using images_okD(4) [OF ok] by (simp add: new)
  qed
  then show ?thesis by (simp add: a)
qed

lemma run_assignments_avatar:
  "u_AvatarKey (fold (run_assignment d) as u) = Some k \<Longrightarrow> u_AvatarKey u = Some k \<or> SetAvatarKey k \<in> set as"
proof (induction as arbitrary: u)
  case (Cons a as)
  then show ?case by (cases a) fastforce+
qed simp

lemma images_update_user:
  assumes ok: "images_ok pl db" and k: "\<And>k. SetAvatarKey k \<in> set as \<Longrightarrow> backed db k ident PurposeAvatar"
  shows "images_ok pl (snd (update_user pl d as ident db)) \<and> attached (snd (update_user pl d as ident db)) = attached db"
proof (rule update_user_cases [of pl d as ident db])
  assume "snd (update_user pl d as ident db) = db"
  then show ?thesis using ok by simp
next
  let ?db = "snd (update_user pl d as ident db)"
  assume new: "?db = db\<lparr>t_users := map (set_row d as ident) (t_users db)\<rparr>"
  have a: "attached ?db = attached db" by (simp add: new attached_def)
  have b: "backed ?db = backed db" by (simp add: fun_eq_iff backed_def a)
  have "backed db key (ur_ID r) PurposeAvatar" if "r \<in> set (t_users ?db)" "u_AvatarKey (ur_User r) = Some key" for r key
  proof -
    have "r \<in> set (map (set_row d as ident) (t_users db))" using that(1) by (simp add: new)
    then obtain x where x: "x \<in> set (t_users db)" "r = set_row d as ident x" unfolding set_map by (rule imageE)
    then have "u_AvatarKey (ur_User x) = Some key \<or> ur_ID x = ident \<and> SetAvatarKey key \<in> set as"
      using that(2) run_assignments_avatar by (auto simp: set_row_def split: if_splits)
    then show ?thesis using x images_okD(4) [OF ok] k by auto
  qed
  moreover have "schema_ok pl ?db" by (rule schema_update_user [OF images_okD(1) [OF ok]])
  moreover have posts: "t_posts ?db = t_posts db" by (simp add: new)
  ultimately show ?thesis using ok unfolding images_ok_def a b posts by blast
qed

section \<open>The handlers\<close>

lemma pg_operations:
  "st_Users (pg_Store pl lp) = pg_Users pl" "st_Posts (pg_Store pl lp) = pg_Posts pl lp" "st_Tokens (pg_Store pl lp) = pg_Tokens pl"
  "st_Uploads (pg_Store pl lp) = pg_Uploads pl"
  by (simp_all add: pg_Store_def)

text \<open>Statements on the tokens leave the other tables alone.\<close>

definition other_than_tokens :: "PgDB \<Rightarrow> UserRow list \<times> Post list \<times> Upload list" where
  "other_than_tokens db = (t_users db, t_posts db, t_uploads db)"

lemma token_statements:
  "other_than_tokens (snd (pg_token_Issue pl d t db)) = other_than_tokens db"
  "other_than_tokens (snd (pg_token_MarkUsed pl d ident time db)) = other_than_tokens db"
  "other_than_tokens (snd (pg_token_RevokeFamily pl d family time db)) = other_than_tokens db"
  "other_than_tokens (snd (pg_token_RevokeAllForUser pl d uid time db)) = other_than_tokens db"
  "other_than_tokens (snd (pg_token_DeleteExpired pl d time db)) = other_than_tokens db"
  by (auto simp: pg_token_Issue_def pg_token_MarkUsed_def pg_token_RevokeFamily_def pg_token_RevokeAllForUser_def pg_token_DeleteExpired_def
      statement_def insert_token_def update_tokens_def other_than_tokens_def Let_def split: option.split sum.split prod.split)

lemma keeps_token_statement:
  assumes "pg_guarantee pl db db'" "other_than_tokens db' = other_than_tokens db"
  shows "keeps_images pl db db'"
  using assms by (intro keeps_rows) (simp_all add: pg_guarantee_def other_than_tokens_def attached_def)

interpretation img: store_relation "pg_Store pl lp" "keeps_images pl" for pl lp
proof (unfold_locales, unfold pg_operations pg_Users_def pg_Posts_def pg_Tokens_def pg_Uploads_def
    UserStore.simps PostStore.simps TokenStore.simps UploadStore.simps)
  fix db :: PgDB and d
  show "keeps_images pl db db" by (rule keeps_refl)
  show "keeps_images pl db (snd (pg_user_Create pl d inp db))" for inp
    unfolding pg_user_Create_def by (intro keeps_statement keeps_insert_user) (simp add: new_user_row_def)
  show "keeps_images pl db (snd (pg_upload_Reserve d upload db))" for upload
    unfolding pg_upload_Reserve_def by (intro keeps_statement keeps_insert_upload) simp
  show "keeps_images pl db (snd (pg_upload_ReleaseAbandoned pl d time limit db))" for time limit
    unfolding pg_upload_ReleaseAbandoned_def by (intro keeps_statement keeps_release)
  show "keeps_images pl db (snd (pg_post_Delete d ident requester db))" for ident requester
    unfolding pg_post_Delete_def
    by (subst snd_case_result [where P = "keeps_images pl db"], simp split: sum.split prod.split,
        intro keeps_statement) (simp add: keeps_delete_post)
  show "keeps_images pl db (snd (pg_upload_Claim pl d key uid purpose time db))" for key uid purpose time
    unfolding pg_upload_Claim_def
    by (subst snd_case_result [where P = "keeps_images pl db"], simp split: sum.split prod.split,
        intro keeps_statement) (simp add: keeps_claim)
  note tokens = keeps_token_statement [OF _ token_statements(1)] keeps_token_statement [OF _ token_statements(2)]
    keeps_token_statement [OF _ token_statements(3)] keeps_token_statement [OF _ token_statements(4)]
    keeps_token_statement [OF _ token_statements(5)]
  note pg_tokens = pg.G_Issue pg.G_MarkUsed pg.G_RevokeFamily pg.G_RevokeAll pg.G_DeleteExpired
  show "keeps_images pl db (snd (pg_token_Issue pl d t db))" "keeps_images pl db (snd (pg_token_MarkUsed pl d ident time db))"
    "keeps_images pl db (snd (pg_token_RevokeFamily pl d family time db))"
    "keeps_images pl db (snd (pg_token_RevokeAllForUser pl d uid time db))"
    "keeps_images pl db (snd (pg_token_DeleteExpired pl d time db))" for t ident family uid time
    by (rule tokens, rule pg_tokens [unfolded pg_operations pg_Tokens_def TokenStore.simps])+
next
  show "keeps_images pl db db' \<Longrightarrow> keeps_images pl db' db'' \<Longrightarrow> keeps_images pl db db''" for db db' db''
    by (rule keeps_trans)
qed

text \<open>A claim that succeeds backs the key for its caller, and no post shows it yet.\<close>

lemma claim_backs:
  assumes ok: "images_ok pl db" and run: "pg_upload_Claim pl d key uid purpose time db = (Inr (), db')"
  shows "backed db' key uid purpose" and "\<forall>q \<in> set (t_posts db'). p_ImageKey q \<noteq> Some key"
proof -
  let ?hit = "\<lambda>u. ul_Key u = key \<and> ul_UserID u = uid \<and> ul_Purpose u = purpose \<and> ul_AttachedAt u = None"
  have "snd (claim_upload key uid purpose (pg_timestamptz pl time) db) = db'" "filter ?hit (t_uploads db) \<noteq> []"
    using run by (auto simp: pg_upload_Claim_def statement_def claim_upload_def Let_def apfst_def map_prod_def split: option.splits if_splits)
  then obtain u where u: "u \<in> set (t_uploads db)" "?hit u"
    and db': "db' = db\<lparr>t_uploads := map (\<lambda>u. if ?hit u then u\<lparr>ul_AttachedAt := Some (pg_timestamptz pl time)\<rparr> else u) (t_uploads db)\<rparr>"
    by (auto simp: filter_empty_conv claim_upload_def Let_def)
  have "u\<lparr>ul_AttachedAt := Some (pg_timestamptz pl time)\<rparr> \<in> attached db'"
    using u unfolding db' attached_def by (auto simp: image_iff intro!: bexI [of _ u])
  then show "backed db' key uid purpose" unfolding backed_def using u(2) by (intro bexI) simp_all
  show "\<forall>q \<in> set (t_posts db'). p_ImageKey q \<noteq> Some key"
  proof (intro ballI notI)
    fix q
    assume "q \<in> set (t_posts db')" "p_ImageKey q = Some key"
    then have "backed db key (p_AuthorID q) PurposePost" using images_okD(2) [OF ok] by (simp add: db')
    then obtain v where "v \<in> set (t_uploads db)" "ul_Key v = key" "ul_AttachedAt v \<noteq> None" by (auto simp: backed_def attached_def)
    then show False using upload_keys [OF images_okD(1) [OF ok], of v u] u by auto
  qed
qed

lemma claim_first_images:
  assumes wired: "wired (pg_Store pl lp) srv" and run: "claim_first lib srv dr me key purpose s = (x, s')"
  shows "keeps_images pl (wd_store s) (wd_store s')"
    and "x = None \<Longrightarrow> images_ok pl (wd_store s) \<Longrightarrow> key = Some k \<Longrightarrow>
      backed (wd_store s') k (u_ID me) purpose \<and> (\<forall>q \<in> set (t_posts (wd_store s')). p_ImageKey q \<noteq> Some k)"
proof -
  show "keeps_images pl (wd_store s) (wd_store s')"
    using run img.G_claimUploadD [OF _ wired] keeps_refl by (cases key) (auto simp: claim_first_def)
  assume ok: "x = None" "images_ok pl (wd_store s)" "key = Some k"
  have "pg_upload_Claim pl (dr 2) k (u_ID me) purpose (d_now (dr 1)) (wd_store s) = (Inr (), wd_store s')"
    using run ok wiredD(1) [OF wired]
    by (auto simp: claim_first_def claimUpload_def on_store_def pg_Store_def pg_Uploads_def
        split: option.splits prod.splits sum.splits store_error.splits)
  from claim_backs [OF ok(2) this]
  show "backed (wd_store s') k (u_ID me) purpose \<and> (\<forall>q \<in> set (t_posts (wd_store s')). p_ImageKey q \<noteq> Some k)" by blast
qed

lemma images_Post:
  assumes "images_ok pl db"
    and "\<And>k. np_ImageKey np = Some k \<Longrightarrow> backed db k (np_AuthorID np) PurposePost \<and> (\<forall>q \<in> set (t_posts db). p_ImageKey q \<noteq> Some k)"
  shows "images_ok pl (snd (ps_Create (pg_Posts pl lp) d np db)) \<and> attached (snd (ps_Create (pg_Posts pl lp) d np db)) = attached db"
  using images_insert_post [OF assms(1), of "new_post_row d np"] assms
  by (auto simp: pg_Posts_def pg_post_Create_def new_post_row_def statement_def split: option.split prod.split sum.split)

lemma images_Update:
  assumes "images_ok pl db" and k: "\<And>k. uu_AvatarKey upd = Some k \<Longrightarrow> backed db k ident PurposeAvatar"
  shows "images_ok pl (snd (us_Update (pg_Users pl) d ident upd db)) \<and> attached (snd (us_Update (pg_Users pl) d ident upd db)) = attached db"
proof -
  have "images_ok pl (snd (update_user pl d (update_assignments upd @ [SetUpdatedAtNow]) ident db))
      \<and> attached (snd (update_user pl d (update_assignments upd @ [SetUpdatedAtNow]) ident db)) = attached db"
  proof (rule images_update_user [OF assms(1)])
    fix k' assume "SetAvatarKey k' \<in> set (update_assignments upd @ [SetUpdatedAtNow])"
    then have "uu_AvatarKey upd = Some k'" by (auto simp: update_assignments_def split: option.splits if_splits)
    then show "backed db k' ident PurposeAvatar" by (rule k)
  qed
  then show ?thesis
    using assms(1) by (cases "update_user pl d (update_assignments upd @ [SetUpdatedAtNow]) ident db")
      (simp add: pg_Users_def pg_user_Update_def statement_def Let_def split: option.split sum.split)
qed

text \<open>The shape both handlers have: claim first, then one statement that names the key.\<close>

lemma keeps_claim_then:
  assumes wired: "wired (pg_Store pl lp) srv"
    and f: "\<And>s'. images_ok pl (wd_store s') \<Longrightarrow>
      (\<And>k. key = Some k \<Longrightarrow> backed (wd_store s') k (u_ID me) purpose \<and> (\<forall>q \<in> set (t_posts (wd_store s')). p_ImageKey q \<noteq> Some k)) \<Longrightarrow>
      images_ok pl (wd_store (snd (snd (f s')))) \<and> attached (wd_store (snd (snd (f s')))) = attached (wd_store s')"
  shows "keeps_images pl (wd_store s) (wd_store (snd (snd
    (case claim_first lib srv dr me key purpose s of (Some e, s') \<Rightarrow> fail e w s' | (None, s') \<Rightarrow> f s'))))"
proof -
  obtain x s' where run: "claim_first lib srv dr me key purpose s = (x, s')" by fastforce
  note c = claim_first_images [OF wired run]
  show ?thesis
  proof (cases x)
    case None
    show ?thesis
      unfolding keeps_images_def
    proof
      assume ok: "images_ok pl (wd_store s)"
      have s': "images_ok pl (wd_store s')" "attached (wd_store s) \<subseteq> attached (wd_store s')"
        using c(1) ok by (simp_all add: keeps_images_def)
      show "images_ok pl (wd_store (snd (snd (case claim_first lib srv dr me key purpose s of (Some e, s') \<Rightarrow> fail e w s' | (None, s') \<Rightarrow> f s'))))
          \<and> attached (wd_store s) \<subseteq>
            attached (wd_store (snd (snd (case claim_first lib srv dr me key purpose s of (Some e, s') \<Rightarrow> fail e w s' | (None, s') \<Rightarrow> f s'))))"
        using f [OF s'(1) c(2) [OF None ok]] s'(2) by (simp add: run None)
    qed
  next
    case (Some e)
    then show ?thesis using c(1) by (simp add: run)
  qed
qed

text \<open>A call whose answer leaves the store as the call left it.\<close>

lemma call_then:
  assumes "\<And>e t. wd_store (snd (snd (F e t))) = wd_store t" "\<And>v t. wd_store (snd (snd (H v t))) = wd_store t"
  shows "wd_store (snd (snd (case on_store f s of (Inl e, t) \<Rightarrow> F e t | (Inr v, t) \<Rightarrow> H v t))) = snd (f (wd_store s))"
  by (auto simp: on_store_def assms split: prod.split sum.split)

lemma post_claimed:
  assumes wired: "wired (pg_Store pl lp) srv"
  shows "keeps_images pl (wd_store s) (wd_store (snd (snd
    (case claim_first lib srv dr1 me key PurposePost s of
       (Some e, s1) \<Rightarrow> fail e w s1
     | (None, s1) \<Rightarrow>
         (case on_store (ps_Create (st_Posts (sr_store srv)) (dr 0)
                 \<lparr>np_AuthorID = u_ID me, np_ImageKey = key, np_Caption = caption\<rparr>) s1 of
            (Inl e, s2) \<Rightarrow> fail (internal e) w s2
          | (Inr post, s2) \<Rightarrow>
              answer_opt 201 (map_option json_of_post (toPost (sr_presigner srv) post)) w s2)))))"
proof (rule keeps_claim_then [OF wired], unfold call_then [OF plumbing_store(1,3)] wiredD(1) [OF wired] pg_operations)
qed (intro images_Post; simp)

lemma create_post_keeps:
  assumes wired: "wired (pg_Store pl lp) srv"
  shows "api_within (keeps_images pl) (handleCreatePost lib srv)"
  unfolding api_within_def handleCreatePost_def with_current_user_def claim_first_def [symmetric]
proof (intro allI)
  fix dr :: "nat \<Rightarrow> Draw" and r :: "User Request" and w :: Writer and s :: "PgDB World"
  show "keeps_images pl (wd_store s) (wd_store (snd (snd
      (case rq_currentUser r of
         None \<Rightarrow> (Crashed nil_dereference, w, s)
       | Some me \<Rightarrow>
           (case DecodeJSON r create_post_fields zero_create_post of
              Inl e \<Rightarrow> fail e w s
            | Inr req \<Rightarrow>
                (case Caption [] ''caption'' (cq_Caption req) of (caption, errs) \<Rightarrow>
                   if Errors_Any errs then fail (ErrValidation check_highlighted errs) w s
                   else (case claim_first lib srv (shift_draws 1 dr) me (image_key_of req) PurposePost s of
                       (Some e, s1) \<Rightarrow> fail e w s1
                     | (None, s1) \<Rightarrow>
                         (case on_store (ps_Create (st_Posts (sr_store srv)) (dr 0)
                                 \<lparr>np_AuthorID = u_ID me, np_ImageKey = image_key_of req, np_Caption = caption\<rparr>) s1 of
                            (Inl e, s2) \<Rightarrow> fail (internal e) w s2
                          | (Inr post, s2) \<Rightarrow>
                              answer_opt 201 (map_option json_of_post (toPost (sr_presigner srv) post)) w s2))))))))"
  proof (cases "rq_currentUser r")
    case (Some me)
    show ?thesis
    proof (cases "DecodeJSON r create_post_fields zero_create_post")
      case (Inr req)
      obtain caption errs where "Caption [] ''caption'' (cq_Caption req) = (caption, errs)" by fastforce
      then show ?thesis
        unfolding Some Inr option.case sum.case using post_claimed [OF wired] keeps_refl
        by (cases "Errors_Any errs") (simp_all only: prod.case if_True if_False plumbing_store)
    qed (simp add: Some keeps_refl)
  qed (simp add: keeps_refl)
qed

lemma avatar_claimed:
  assumes wired: "wired (pg_Store pl lp) srv"
  shows "keeps_images pl (wd_store s) (wd_store (snd (snd
    (case claim_first lib srv dr1 me (uu_AvatarKey upd) PurposeAvatar s of
       (Some e, s1) \<Rightarrow> fail e w s1
     | (None, s1) \<Rightarrow>
         (case on_store (us_Update (st_Users (sr_store srv)) (dr 0) (u_ID me) upd) s1 of
            (Inl e, s2) \<Rightarrow> fail (conflictOrInternal e) w s2
          | (Inr user, s2) \<Rightarrow> answer 200 (json_of_user (toUser (sr_presigner srv) user)) w s2)))))"
proof (rule keeps_claim_then [OF wired], unfold call_then [OF plumbing_store(1,2)] wiredD(1) [OF wired] pg_operations)
qed (intro images_Update; simp)

lemma update_me_keeps:
  assumes wired: "wired (pg_Store pl lp) srv"
  shows "api_within (keeps_images pl) (handleUpdateMe lib srv)"
  unfolding api_within_def handleUpdateMe_def with_current_user_def claim_first_def [symmetric]
proof (intro allI)
  fix dr :: "nat \<Rightarrow> Draw" and r :: "User Request" and w :: Writer and s :: "PgDB World"
  show "keeps_images pl (wd_store s) (wd_store (snd (snd
      (case rq_currentUser r of
         None \<Rightarrow> (Crashed nil_dereference, w, s)
       | Some me \<Rightarrow>
           (case DecodeJSON r update_me_fields zero_update_me of
              Inl e \<Rightarrow> fail e w s
            | Inr req \<Rightarrow>
                (case update_of req of (upd, errs) \<Rightarrow>
                   if Errors_Any errs then fail (ErrValidation check_highlighted errs) w s
                   else (case claim_first lib srv (shift_draws 1 dr) me (uu_AvatarKey upd) PurposeAvatar s of
                       (Some e, s1) \<Rightarrow> fail e w s1
                     | (None, s1) \<Rightarrow>
                         (case on_store (us_Update (st_Users (sr_store srv)) (dr 0) (u_ID me) upd) s1 of
                            (Inl e, s2) \<Rightarrow> fail (conflictOrInternal e) w s2
                          | (Inr user, s2) \<Rightarrow> answer 200 (json_of_user (toUser (sr_presigner srv) user)) w s2))))))))"
  proof (cases "rq_currentUser r")
    case (Some me)
    show ?thesis
    proof (cases "DecodeJSON r update_me_fields zero_update_me")
      case (Inr req)
      obtain upd errs where "update_of req = (upd, errs)" by fastforce
      then show ?thesis
        unfolding Some Inr option.case sum.case using avatar_claimed [OF wired] keeps_refl
        by (cases "Errors_Any errs") (simp_all only: prod.case if_True if_False plumbing_store)
    qed (simp add: Some keeps_refl)
  qed (simp add: keeps_refl)
qed

interpretation img_srv: server_guarantee "pg_Store pl lp" "keeps_images pl" for pl lp
  by unfold_locales (rule update_me_keeps create_post_keeps; assumption)+

end
