(* ===== verification/ImageProps.thy ===== *)
theory ImageProps
  imports ImageLaws LifeProps
begin

text \<open>The images the running process shows, over the Postgres store.\<close>

text \<open>The tables of the examples show no image yet.\<close>

lemma sp_images: "images_ok sp_pl sp_db"
  using lf_schema by (simp add: images_ok_def sp_db_def sp_post_def sp_user_def)

text \<open>C7: At every moment of the process, whatever the requests, the clock and the failures of the driver:
  an image shown on a post or as an avatar is an upload that its owner reserved for that purpose and that
  is attached, no two posts show the same image, and from then on an attached upload is neither changed
  nor released.\<close>

theorem images_belong:
  assumes "start_server lib (Inr (pg_Store pl lp, db)) None aws_error d cfg = Inr (srv, w, jan, pinger)"
    and "images_ok pl db" and "runs lib srv jan evs (spawn w pinger) p" and "runs lib srv jan evs' p p'"
  shows "(post \<in> set (t_posts (wd_store (pr_world p))) \<longrightarrow> p_ImageKey post = Some key \<longrightarrow>
        (\<exists>u \<in> attached (wd_store (pr_world p)). ul_Key u = key \<and> ul_UserID u = p_AuthorID post \<and> ul_Purpose u = PurposePost)
        \<and> (\<forall>q \<in> set (t_posts (wd_store (pr_world p))). p_ImageKey q = Some key \<longrightarrow> q = post))
    \<and> (row \<in> set (t_users (wd_store (pr_world p))) \<longrightarrow> u_AvatarKey (ur_User row) = Some key \<longrightarrow>
        (\<exists>u \<in> attached (wd_store (pr_world p)). ul_Key u = key \<and> ul_UserID u = ur_ID row \<and> ul_Purpose u = PurposeAvatar))
    \<and> attached (wd_store (pr_world p)) \<subseteq> attached (wd_store (pr_world p'))"
proof -
  note runs_keep = img_srv.G_runs [OF start_server_wires(1,2) [OF assms(1)]]
  have now: "images_ok pl (wd_store (pr_world p))"
    using runs_keep [OF assms(3)] assms(2) start_server_wires(3) [OF assms(1)] by (simp add: keeps_images_def spawn_def)
  then show ?thesis
    using runs_keep [OF assms(4)] images_okD [OF now] unfolding keeps_images_def backed_def by blast
qed

lemma images_belong_witness:
  "\<exists>srv w jan p. lf_boot = Inr (srv, w, jan, None) \<and> runs ax_lib srv jan [Internal, Request] (spawn w None) p
     \<and> attached (wd_store (pr_world (spawn w None))) \<subseteq> attached (wd_store (pr_world p))"
proof -
  obtain srv w jan where b: "lf_boot = Inr (srv, w, jan, None)" using lf_boots by blast
  then show ?thesis using images_belong [OF b sp_images runs.stay lf_serves] lf_serves by blast
qed

end
