(* ===== verification/FuelProps.thy ===== *)
theory FuelProps
  imports Cursor Config Body
begin

text \<open>
  The loops whose model counts its rounds: the JSON parser behind cursors and request bodies, the
  terms of a duration, the groups of an address.  The rounds they are given are always enough, so no
  input is refused for want of them.
\<close>

section \<open>Every step of the JSON parser consumes input\<close>

lemma length_skip_ws: "length (skip_ws s) \<le> length s"
  by (simp add: skip_ws_def length_dropWhile_le)

lemma skip_ws_Cons: "skip_ws s = c # cs \<Longrightarrow> length cs < length s"
  using length_skip_ws [of s] by simp

lemma scan_string_length: "scan_string s = Some (raw, rest) \<Longrightarrow> length rest < length s"
proof (induction "length s" arbitrary: s raw rest rule: less_induct)
  case less
  have IH: "scan_string u = Some (x, rest) \<Longrightarrow> length u < length s \<Longrightarrow> length rest < length s" for u x
    using less.hyps [of u] by fastforce
  show ?case
    using less.prems by (cases s) (auto split: if_splits list.splits dest!: IH)
qed

lemma scan_digits_length: "length (snd (scan_digits s)) \<le> length s"
  by (simp add: scan_digits_def length_dropWhile_le)

lemma scan_int_length: "scan_int s = Some (ds, rest) \<Longrightarrow> length rest < length s"
  by (auto simp: scan_int_def scan_digits_def length_dropWhile_le less_Suc_eq_le split: list.splits if_splits)

lemma scan_frac_length: "scan_frac s = Some (ds, rest) \<Longrightarrow> length rest \<le> length s"
  by (auto simp: scan_frac_def scan_digits_def length_dropWhile_le le_SucI split: list.splits if_splits)

lemma scan_exp_length:
  assumes "scan_exp s = Some (ds, rest)"
  shows "length rest \<le> length s"
proof (cases s)
  case (Cons c cs)
  define ds0 where "ds0 = snd (case cs of g # gs \<Rightarrow> if g = CHR ''+'' \<or> g = CHR ''-'' then ([g], gs) else ([], cs) | [] \<Rightarrow> ([], []))"
  have "length ds0 \<le> length cs"
    by (simp add: ds0_def split: list.split)
  moreover have "rest = s \<or> rest = snd (scan_digits ds0)"
    using assms by (auto simp: Cons scan_exp_def Let_def ds0_def split: if_splits prod.splits)
  ultimately show ?thesis
    using scan_digits_length [of ds0] Cons by auto
qed (use assms in \<open>simp add: scan_exp_def\<close>)

lemma scan_number_length: "scan_number s = Some (raw, rest) \<Longrightarrow> length rest < length s"
  by (auto simp: scan_number_def Let_def split: list.splits if_splits option.splits
      dest!: scan_int_length scan_frac_length scan_exp_length)

text \<open>What a value, the elements or the members leave is shorter than what they were given.\<close>

lemma json_length_all:
  "(\<forall>d s v rest. json_value n d s = Some (v, rest) \<longrightarrow> length rest < length s)
   \<and> (\<forall>d s vs rest. json_elems n d s = Some (vs, rest) \<longrightarrow> length rest < length s)
   \<and> (\<forall>d s ms rest. json_members n d s = Some (ms, rest) \<longrightarrow> length rest < length s)"
proof (induction n)
  case (Suc n)
  then have IH: "json_value n d s = Some (v, rest) \<Longrightarrow> length rest < length s"
    "json_elems n d s = Some (vs, rest) \<Longrightarrow> length rest < length s"
    "json_members n d s = Some (ms, rest) \<Longrightarrow> length rest < length s" for d s v vs ms rest
    by blast+
  have "json_value (Suc n) d s = Some (v, rest) \<Longrightarrow> length rest < length s" for d s v rest
    by (auto split: if_splits list.splits dest!: IH scan_string_length scan_number_length skip_ws_Cons)
  moreover have "json_elems (Suc n) d s = Some (vs, rest) \<Longrightarrow> length rest < length s" for d s vs rest
    by (fastforce split: if_splits list.splits option.splits dest!: IH skip_ws_Cons)
  moreover have "json_members (Suc n) d s = Some (ms, rest) \<Longrightarrow> length rest < length s" for d s ms rest
    by (fastforce split: if_splits list.splits option.splits dest!: IH skip_ws_Cons scan_string_length)
  ultimately show ?case by blast
qed simp

lemmas json_length = json_length_all [THEN conjunct1, rule_format] json_length_all [THEN conjunct2, THEN conjunct1, rule_format]
  json_length_all [THEN conjunct2, THEN conjunct2, rule_format]

section \<open>More rounds change nothing\<close>

text \<open>One more round each, given that the rounds below are enough.\<close>

lemma json_value_more:
  assumes "\<And>m d s. 2 * length s + 3 \<le> n \<Longrightarrow> 2 * length s + 3 \<le> m \<Longrightarrow> json_elems n d s = json_elems m d s"
    and "\<And>m d s. 2 * length s + 2 \<le> n \<Longrightarrow> 2 * length s + 2 \<le> m \<Longrightarrow> json_members n d s = json_members m d s"
    and n: "2 * length s + 1 \<le> n" "2 * length s + 1 \<le> m"
  shows "json_value (Suc n) d s = json_value (Suc m) d s"
proof (cases "skip_ws s")
  case (Cons c cs)
  then have "length cs < length s" by (rule skip_ws_Cons)
  then have "json_members n d' cs = json_members m d' cs" "json_elems n d' cs = json_elems m d' cs" for d'
    using n by (intro assms; simp)+
  then show ?thesis by (simp add: Cons split: list.split)
qed simp

lemma json_elems_more:
  assumes V: "\<And>m d s. 2 * length s + 2 \<le> n \<Longrightarrow> 2 * length s + 2 \<le> m \<Longrightarrow> json_value n d s = json_value m d s"
    and E: "\<And>m d s. 2 * length s + 3 \<le> n \<Longrightarrow> 2 * length s + 3 \<le> m \<Longrightarrow> json_elems n d s = json_elems m d s"
    and n: "2 * length s + 2 \<le> n" "2 * length s + 2 \<le> m"
  shows "json_elems (Suc n) d s = json_elems (Suc m) d s"
proof -
  have elem: "json_value n d s = json_value m d s" using n by (intro V)
  have "json_elems n d cs = json_elems m d cs" if "json_value m d s = Some (v, rest)" "skip_ws rest = c # cs" for v rest c cs
    using json_length(1) [OF that(1)] skip_ws_Cons [OF that(2)] n by (intro E) simp_all
  then show ?thesis by (auto simp: elem split: option.split list.split)
qed

lemma json_members_more:
  assumes V: "\<And>m d s. 2 * length s + 2 \<le> n \<Longrightarrow> 2 * length s + 2 \<le> m \<Longrightarrow> json_value n d s = json_value m d s"
    and M: "\<And>m d s. 2 * length s + 2 \<le> n \<Longrightarrow> 2 * length s + 2 \<le> m \<Longrightarrow> json_members n d s = json_members m d s"
    and n: "2 * length s + 1 \<le> n" "2 * length s + 1 \<le> m"
  shows "json_members (Suc n) d s = json_members (Suc m) d s"
proof (cases "\<exists>q qs k rest c cs. skip_ws s = q # qs \<and> scan_string qs = Some (k, rest) \<and> skip_ws rest = c # cs")
  case False
  then show ?thesis by (auto split: list.split option.split)
next
  case True
  then obtain q qs k rest c cs where *: "skip_ws s = q # qs" "scan_string qs = Some (k, rest)" "skip_ws rest = c # cs" by blast
  have cs: "length cs < length s"
    using skip_ws_Cons [OF *(1)] scan_string_length [OF *(2)] skip_ws_Cons [OF *(3)] by simp
  have member: "json_value n d cs = json_value m d cs" using cs n by (intro V) simp_all
  have "json_members n d es = json_members m d es" if "json_value m d cs = Some (v, rest2)" "skip_ws rest2 = e # es" for v rest2 e es
    using json_length(1) [OF that(1)] skip_ws_Cons [OF that(2)] cs n by (intro M) simp_all
  then show ?thesis by (auto simp: * member split: option.split list.split)
qed

lemma json_fuel_all:
  "(\<forall>m d s. 2 * length s + 2 \<le> n \<longrightarrow> 2 * length s + 2 \<le> m \<longrightarrow> json_value n d s = json_value m d s)
   \<and> (\<forall>m d s. 2 * length s + 3 \<le> n \<longrightarrow> 2 * length s + 3 \<le> m \<longrightarrow> json_elems n d s = json_elems m d s)
   \<and> (\<forall>m d s. 2 * length s + 2 \<le> n \<longrightarrow> 2 * length s + 2 \<le> m \<longrightarrow> json_members n d s = json_members m d s)"
proof (induction n)
  case (Suc n)
  then have IH: "2 * length s + 2 \<le> n \<Longrightarrow> 2 * length s + 2 \<le> m \<Longrightarrow> json_value n d s = json_value m d s"
    "2 * length s + 3 \<le> n \<Longrightarrow> 2 * length s + 3 \<le> m \<Longrightarrow> json_elems n d s = json_elems m d s"
    "2 * length s + 2 \<le> n \<Longrightarrow> 2 * length s + 2 \<le> m \<Longrightarrow> json_members n d s = json_members m d s" for m d s
    by blast+
  note step = json_value_more [OF IH(2,3)] json_elems_more [OF IH(1,2)] json_members_more [OF IH(1,3)]
  have "2 * length s + 2 \<le> Suc n \<Longrightarrow> 2 * length s + 2 \<le> m \<Longrightarrow> json_value (Suc n) d s = json_value m d s"
    "2 * length s + 3 \<le> Suc n \<Longrightarrow> 2 * length s + 3 \<le> m \<Longrightarrow> json_elems (Suc n) d s = json_elems m d s"
    "2 * length s + 2 \<le> Suc n \<Longrightarrow> 2 * length s + 2 \<le> m \<Longrightarrow> json_members (Suc n) d s = json_members m d s" for m d s
    using step [of s "m - 1" d] by (cases m; simp del: json_value.simps json_elems.simps json_members.simps)+
  then show ?case by blast
qed simp

lemmas json_fuel = json_fuel_all [THEN conjunct1, rule_format]

lemma duration_term_length:
  assumes "duration_term rnd s = Some (v, rest)"
  shows "length rest < length s"
proof -
  define s1 where "s1 = dropWhile is_digit s"
  define dot where "dot = (s1 \<noteq> [] \<and> hd s1 = CHR ''.'')"
  define s2 where "s2 = (if dot then dropWhile is_digit (tl s1) else s1)"
  have rest: "rest = dropWhile (\<lambda>c. c \<noteq> CHR ''.'' \<and> \<not> is_digit c) s2"
    and num: "takeWhile is_digit s \<noteq> [] \<or> dot"
    using assms by (auto simp: duration_term_def Let_def s1_def dot_def s2_def split: if_splits prod.splits option.splits)
  have "length s = length (takeWhile is_digit s) + length s1"
    by (metis s1_def length_append takeWhile_dropWhile_id)
  moreover have "length s2 \<le> length s1 - (if dot then 1 else 0)"
    by (auto simp: s2_def intro: length_dropWhile_le [THEN le_trans])
  moreover have "dot \<Longrightarrow> s1 \<noteq> []" by (simp add: dot_def)
  ultimately have "length s2 < length s"
    using num by (cases dot) (auto simp: neq_Nil_conv)
  then show ?thesis
    using rest length_dropWhile_le [of "\<lambda>c. c \<noteq> CHR ''.'' \<and> \<not> is_digit c" s2] by simp
qed

lemma duration_fuel:
  "length s \<le> n \<Longrightarrow> length s \<le> m \<Longrightarrow> duration_terms rnd n acc s = duration_terms rnd m acc s"
proof (induction n arbitrary: m acc s)
  case 0
  then show ?case by (cases m) simp_all
next
  case (Suc n)
  show ?case
  proof (cases "s = []")
    case True
    then show ?thesis by (cases m) simp_all
  next
    case False
    then obtain m' where m: "m = Suc m'" using Suc.prems by (cases m) simp_all
    have "duration_terms rnd n a rest = duration_terms rnd m' a rest" if "duration_term rnd s = Some (v, rest)" for v rest a
      using duration_term_length [OF that] Suc.prems m by (intro Suc.IH) simp_all
    then show ?thesis by (simp add: m split: option.split)
  qed
qed

lemma ipv6_fuel:
  "16 \<le> i + 2 * n \<Longrightarrow> 16 \<le> i + 2 * m \<Longrightarrow> ipv6_groups n i e s = ipv6_groups m i e s"
proof (induction n arbitrary: m i e s)
  case 0
  then show ?case by (simp add: ipv6_groups.simps)
next
  case (Suc n)
  show ?case
  proof (cases "16 \<le> i")
    case False
    then obtain m' where m: "m = Suc m'" using Suc.prems by (cases m) simp_all
    have "ipv6_groups n (i + 2) b t = ipv6_groups m' (i + 2) b t" for b t
      using Suc.prems m by (intro Suc.IH) simp_all
    then show ?thesis by (subst (1 2) ipv6_groups.simps) (simp only: m nat.case)
  qed (simp add: ipv6_groups.simps)
qed

text \<open>The loops that parse outside text never stop for want of rounds: the JSON parser finishes within
two rounds for each byte plus two, a duration has no more terms than bytes, and an IPv6 address is
read in eight groups; more rounds never change an answer.\<close>

theorem parsers_never_run_dry:
  "json_value (2 * length s + 2 + k) d s = json_value (2 * length s + 2) d s
   \<and> duration_terms rnd (length s + k) acc s = duration_terms rnd (length s) acc s
   \<and> ipv6_groups (8 + k) 0 e s = ipv6_groups 8 0 e s"
  by (intro conjI json_fuel duration_fuel ipv6_fuel) simp_all

end
