(* ===== verification/Twins.thy ===== *)
theory Twins
  imports HandlerLaws StoreProps
begin

text \<open>
  The in-memory store as a stand-in for Postgres: a relation between the two states, that every
  operation of the store interface answers alike over related states and keeps them related, and
  that the server then answers every request alike over either.
\<close>

section \<open>Two stores with the same contents\<close>

text \<open>
  Each table holds the same rows.  The creation time of a refresh token is left out: the memory store
  takes the caller's, Postgres its own, and no code reads it.
\<close>

definition undated :: "RefreshToken \<Rightarrow> RefreshToken" where
  "undated t = t\<lparr>rt_CreatedAt := 0\<rparr>"

definition twins :: "PgLib \<Rightarrow> MemStore \<Rightarrow> PgDB \<Rightarrow> bool" where
  "twins pl m db \<longleftrightarrow> mem_inv m \<and> pg_inv pl db
     \<and> map_of (m_users m) = pg_users db \<and> (\<lambda>i. go_index (m_passwords m) i []) = pg_hash_of db
     \<and> map_of (m_posts m) = pg_posts db \<and> map_of (m_uploads m) = pg_upls db
     \<and> (\<lambda>i. map_option undated (map_of (m_tokens m) i)) = (\<lambda>i. map_option undated (pg_toks db i))"

lemma twinsD:
  assumes "twins pl m db"
  shows "mem_inv m" "pg_inv pl db" "map_of (m_users m) = pg_users db" "(\<lambda>i. go_index (m_passwords m) i []) = pg_hash_of db"
    "map_of (m_posts m) = pg_posts db" "map_of (m_uploads m) = pg_upls db"
    "map_option undated (map_of (m_tokens m) i) = map_option undated (pg_toks db i)"
  using assms by (simp_all add: twins_def fun_eq_iff)

lemma undated_sel [simp]:
  "rt_ID (undated t) = rt_ID t" "rt_UserID (undated t) = rt_UserID t" "rt_FamilyID (undated t) = rt_FamilyID t"
  "rt_TokenHash (undated t) = rt_TokenHash t" "rt_ExpiresAt (undated t) = rt_ExpiresAt t"
  "rt_UsedAt (undated t) = rt_UsedAt t" "rt_RevokedAt (undated t) = rt_RevokedAt t"
  by (simp_all add: undated_def)

text \<open>Rows that agree up to their creation time agree in everything else.\<close>

lemma undatedD:
  assumes "undated t = undated u"
  shows "rt_ID t = rt_ID u" "rt_UserID t = rt_UserID u" "rt_FamilyID t = rt_FamilyID u" "rt_TokenHash t = rt_TokenHash u"
    "rt_ExpiresAt t = rt_ExpiresAt u" "rt_UsedAt t = rt_UsedAt u" "rt_RevokedAt t = rt_RevokedAt u"
  using assms by (metis undated_sel)+

lemma twin_token:
  assumes "twins pl m db"
  shows "pg_toks db i = Some t \<Longrightarrow> \<exists>u. map_of (m_tokens m) i = Some u \<and> undated u = undated t"
    and "map_of (m_tokens m) i = Some u \<Longrightarrow> \<exists>t. pg_toks db i = Some t \<and> undated u = undated t"
    and "map_of (m_tokens m) i = None \<longleftrightarrow> pg_toks db i = None"
  using twinsD(7) [OF assms, of i] by (cases "map_of (m_tokens m) i"; cases "pg_toks db i"; simp)+

text \<open>What an operation on one table leaves alone.\<close>

lemma mem_frames:
  "m'\<lparr>m_tokens := []\<rparr> = m\<lparr>m_tokens := []\<rparr> \<Longrightarrow>
    m_users m' = m_users m \<and> m_passwords m' = m_passwords m \<and> m_posts m' = m_posts m \<and> m_uploads m' = m_uploads m"
  "m'\<lparr>m_uploads := []\<rparr> = m\<lparr>m_uploads := []\<rparr> \<Longrightarrow>
    m_users m' = m_users m \<and> m_passwords m' = m_passwords m \<and> m_posts m' = m_posts m \<and> m_tokens m' = m_tokens m"
  "m'\<lparr>m_posts := []\<rparr> = m\<lparr>m_posts := []\<rparr> \<Longrightarrow>
    m_users m' = m_users m \<and> m_passwords m' = m_passwords m \<and> m_tokens m' = m_tokens m \<and> m_uploads m' = m_uploads m"
  "m'\<lparr>m_users := [], m_passwords := []\<rparr> = m\<lparr>m_users := [], m_passwords := []\<rparr> \<Longrightarrow>
    m_posts m' = m_posts m \<and> m_tokens m' = m_tokens m \<and> m_uploads m' = m_uploads m"
  by (cases m; cases m'; simp)+

lemma pg_frames:
  "db'\<lparr>t_tokens := []\<rparr> = db\<lparr>t_tokens := []\<rparr> \<Longrightarrow>
    pg_users db' = pg_users db \<and> pg_hash_of db' = pg_hash_of db \<and> t_posts db' = t_posts db \<and> t_uploads db' = t_uploads db"
  "db'\<lparr>t_uploads := []\<rparr> = db\<lparr>t_uploads := []\<rparr> \<Longrightarrow>
    pg_users db' = pg_users db \<and> pg_hash_of db' = pg_hash_of db \<and> t_posts db' = t_posts db \<and> t_tokens db' = t_tokens db"
  "db'\<lparr>t_posts := []\<rparr> = db\<lparr>t_posts := []\<rparr> \<Longrightarrow>
    pg_users db' = pg_users db \<and> pg_hash_of db' = pg_hash_of db \<and> t_tokens db' = t_tokens db \<and> t_uploads db' = t_uploads db"
  "db'\<lparr>t_users := []\<rparr> = db\<lparr>t_users := []\<rparr> \<Longrightarrow>
    t_posts db' = t_posts db \<and> t_tokens db' = t_tokens db \<and> t_uploads db' = t_uploads db"
  by (cases db; cases db'; simp add: pg_users_def pg_hash_of_def fun_eq_iff)+

section \<open>Users\<close>

lemma twin_ByID:
  "twins pl m db \<Longrightarrow> pg_ok pl d \<Longrightarrow> us_ByID (mem_Users uni) d i m = us_ByID (pg_Users pl) d i db"
  using mem_usr.ByID [where uni = uni and s = m and d = d and i = i] pg_usr.ByID [of pl db d i] by (simp add: twinsD)

lemma twin_ByUsername:
  assumes "twins pl m db" "pg_ok pl d"
  shows "us_ByUsername (mem_Users uni) d name m = us_ByUsername (pg_Users pl) d name db"
proof (cases "\<exists>i u. pg_users db i = Some u \<and> u_Username u = name")
  case True
  then obtain i u where u: "pg_users db i = Some u" "u_Username u = name" by blast
  show ?thesis
    using mem_usr.ByUsername_hit [OF twinsD(1) [OF assms(1)] TrueI, where uni = uni and d = d and i = i and u = u] pg_usr.ByUsername_hit [OF twinsD(2) [OF assms(1)] assms(2) u(1)]
      u twinsD(3) [OF assms(1)] by simp
next
  case False
  then show ?thesis
    using mem_usr.ByUsername_miss [OF twinsD(1) [OF assms(1)] TrueI, where uni = uni and d = d and name = name] pg_usr.ByUsername_miss [OF twinsD(2) [OF assms(1)] assms(2), of name]
      twinsD(3) [OF assms(1)] by metis
qed

lemma twin_Credentials:
  assumes "twins pl m db" "pg_ok pl d" and e: "to_lower uni e = e"
  shows "us_CredentialsByEmail (mem_Users uni) d e m = us_CredentialsByEmail (pg_Users pl) d e db"
proof (cases "\<exists>i u. pg_users db i = Some u \<and> u_Email u = e")
  case True
  then obtain i u where u: "pg_users db i = Some u" "u_Email u = e" by blast
  then show ?thesis
    using mem_usr.Credentials_hit [OF twinsD(1) [OF assms(1)] TrueI, where uni = uni and d = d and i = i and u = u] pg_usr.Credentials_hit [OF twinsD(2) [OF assms(1)] assms(2) TrueI u(1)]
      e twinsD(3) [OF assms(1)] fun_cong [OF twinsD(4) [OF assms(1)], of i] by simp
next
  case False
  then show ?thesis
    using mem_usr.Credentials_miss [OF twinsD(1) [OF assms(1)] TrueI e, of d] pg_usr.Credentials_miss [OF twinsD(2) [OF assms(1)] assms(2) TrueI, of e]
      twinsD(3) [OF assms(1)] by metis
qed

text \<open>A new account: the same row, or a conflict in both (which of two clashing fields is named may differ).\<close>

lemma twin_Create:
  assumes "twins pl m db" "pg_ok pl d" "pg_admits pl inp" and new: "pg_users db (NewID d) = None"
  shows "(\<exists>m' db'. us_Create (mem_Users uni) d inp m = (Inr (new_user_row d inp), m')
        \<and> us_Create (pg_Users pl) d inp db = (Inr (new_user_row d inp), db') \<and> twins pl m' db'
        \<and> db'\<lparr>t_users := []\<rparr> = db\<lparr>t_users := []\<rparr> \<and> user_exists db' (NewID d))
    \<or> (\<exists>f f' r r'. us_Create (mem_Users uni) d inp m = (Inl (ConflictError f r), m)
        \<and> us_Create (pg_Users pl) d inp db = (Inl (ConflictError f' r'), db) \<and> {f, f'} \<subseteq> {''email'', ''username''})"
proof (cases "\<exists>i u. pg_users db i = Some u \<and> (u_Email u = nu_Email inp \<or> u_Username u = nu_Username inp)")
  case True
  then obtain i u where u: "pg_users db i = Some u" "u_Email u = nu_Email inp \<or> u_Username u = nu_Username inp" by blast
  have mu: "map_of (m_users m) (NewID d) = None" "map_of (m_users m) i = Some u"
    using new u(1) twinsD(3) [OF assms(1)] by simp_all
  show ?thesis
    using mem_usr.Create_conflict [OF twinsD(1) [OF assms(1)] TrueI TrueI mu u(2), where uni = uni]
      pg_usr.Create_conflict [OF twinsD(2) [OF assms(1)] assms(2,3) new u] by blast
next
  case False
  have mu: "map_of (m_users m) (NewID d) = None"
    "\<And>i u. map_of (m_users m) i = Some u \<Longrightarrow> u_Email u \<noteq> nu_Email inp \<and> u_Username u \<noteq> nu_Username inp"
    and pu: "\<And>i u. pg_users db i = Some u \<Longrightarrow> u_Email u \<noteq> nu_Email inp \<and> u_Username u \<noteq> nu_Username inp"
    using new False twinsD(3) [OF assms(1)] by auto
  obtain m' where m': "us_Create (mem_Users uni) d inp m = (Inr (new_user_row d inp), m')" "mem_inv m'"
    "m'\<lparr>m_users := [], m_passwords := []\<rparr> = m\<lparr>m_users := [], m_passwords := []\<rparr>"
    "map_of (m_users m') = (map_of (m_users m))(NewID d := Some (new_user_row d inp))"
    "(\<lambda>i. go_index (m_passwords m') i []) = (\<lambda>i. go_index (m_passwords m) i [])(NewID d := nu_PasswordHash inp)"
    using mem_usr.Create_ok [OF twinsD(1) [OF assms(1)] TrueI TrueI mu(1), where uni = uni] mu(2) by blast
  obtain db' where db': "us_Create (pg_Users pl) d inp db = (Inr (new_user_row d inp), db')" "pg_inv pl db'"
    "db'\<lparr>t_users := []\<rparr> = db\<lparr>t_users := []\<rparr>"
    "pg_users db' = (pg_users db)(NewID d := Some (new_user_row d inp))"
    "pg_hash_of db' = (pg_hash_of db)(NewID d := nu_PasswordHash inp)"
    using pg_usr.Create_ok [OF twinsD(2) [OF assms(1)] assms(2,3) new] pu by blast
  have "twins pl m' db'"
    using twinsD(3-6) [OF assms(1)] twinsD(7) [OF assms(1)] m'(2,4,5) db'(2,4,5) mem_frames(4) [OF m'(3)] pg_frames(4) [OF db'(3)]
    by (simp add: twins_def)
  moreover have "user_exists db' (NewID d)" by (simp add: pg_users_exists db'(4))
  ultimately show ?thesis using m'(1) db'(1,3) by blast
qed

text \<open>An update that carries a field; an empty one stamps the row in memory only.\<close>

lemma twin_Update:
  assumes tw: "twins pl m db" and d: "pg_ok pl d" and adm: "pg_admits_update upd" and known: "pg_users db i = Some u"
    and ne: "update_assignments upd \<noteq> []"
  shows "\<exists>v m' db'. us_Update (mem_Users uni) d i upd m = (Inr v, m') \<and> us_Update (pg_Users pl) d i upd db = (Inr v, db')
    \<and> twins pl m' db' \<and> db'\<lparr>t_users := []\<rparr> = db\<lparr>t_users := []\<rparr>"
proof -
  let ?v = "(apply_update upd u)\<lparr>u_UpdatedAt := d_now d\<rparr>"
  obtain db' where db': "pg_user_Update pl d i upd db = (Inr ?v, db')" "pg_inv pl db'" "db'\<lparr>t_users := []\<rparr> = db\<lparr>t_users := []\<rparr>"
    "pg_users db' = (pg_users db)(i := Some ?v)" "pg_hash_of db' = pg_hash_of db"
    using pg_Update_run [OF d twinsD(2) [OF tw] known adm ne] by blast
  have mu: "map_of (m_users m) i = Some u" using known twinsD(3) [OF tw] by simp
  obtain m' c where m': "mem_user_Update d i upd m = (Inr ((apply_update upd u)\<lparr>u_UpdatedAt := c\<rparr>), m')" "mem_inv m'"
    "m'\<lparr>m_users := [], m_passwords := []\<rparr> = m\<lparr>m_users := [], m_passwords := []\<rparr>"
    "map_of (m_users m') = (map_of (m_users m))(i := Some ((apply_update upd u)\<lparr>u_UpdatedAt := c\<rparr>))"
    "(\<lambda>i. go_index (m_passwords m') i []) = (\<lambda>i. go_index (m_passwords m) i [])"
    using mem_usr.Update_ok [OF twinsD(1) [OF tw] TrueI TrueI mu, where d = d and upd = upd] unfolding mem_Users_def UserStore.simps by blast
  have "u_UpdatedAt ((apply_update upd u)\<lparr>u_UpdatedAt := c\<rparr>) = d_now d"
    using m'(1) mu by (auto simp: mem_user_Update_def Let_def dest: arg_cong [of _ _ u_UpdatedAt])
  then have c: "c = d_now d" by simp
  have "twins pl m' db'"
    using twinsD(3-6) [OF tw] twinsD(7) [OF tw] m'(2,4,5) db'(2,4,5) mem_frames(4) [OF m'(3)] pg_frames(4) [OF db'(3)]
    by (simp add: twins_def c)
  then show ?thesis using m'(1) db'(1,3) by (simp add: mem_Users_def pg_Users_def c)
qed

section \<open>Posts\<close>

lemma twin_author: "map_of (m_users (m\<lparr>m_posts := []\<rparr>)) = map_of (m_users m)" "pg_users (db\<lparr>t_posts := []\<rparr>) = pg_users db"
  by (simp_all add: pg_users_def fun_eq_iff)

lemma twin_Post:
  assumes tw: "twins pl m db" and d: "pg_ok pl d" and adm: "rune_count (np_Caption np) \<le> 2200"
    and new: "pg_posts db (NewID d) = None" and known: "pg_users db (np_AuthorID np) = Some a"
  shows "\<exists>v m' db'. ps_Create (mem_Posts lp) d np m = (Inr v, m') \<and> ps_Create (pg_Posts pl lp) d np db = (Inr v, db') \<and> twins pl m' db'"
proof -
  have mn: "map_of (m_posts m) (NewID d) = None" and ma: "map_of (m_users (m\<lparr>m_posts := []\<rparr>)) (np_AuthorID np) = Some a"
    and pa: "pg_users (db\<lparr>t_posts := []\<rparr>) (np_AuthorID np) = Some a"
    using new known twinsD(3,5) [OF tw] by (simp_all add: twin_author)
  obtain m' where m': "ps_Create (mem_Posts lp) d np m = (Inr (hydrate (new_post_row d np) (Some a)), m')" "mem_inv m'"
    "m'\<lparr>m_posts := []\<rparr> = m\<lparr>m_posts := []\<rparr>" "map_of (m_posts m') = (map_of (m_posts m))(NewID d := Some (new_post_row d np))"
    using mem_pst.Create_ok [OF twinsD(1) [OF tw] TrueI TrueI mn ma, where layout_parse = lp] by blast
  obtain db' where db': "ps_Create (pg_Posts pl lp) d np db = (Inr (hydrate (new_post_row d np) (Some a)), db')" "pg_inv pl db'"
    "db'\<lparr>t_posts := []\<rparr> = db\<lparr>t_posts := []\<rparr>" "pg_posts db' = (pg_posts db)(NewID d := Some (new_post_row d np))"
    using pg_pst.Create_ok [OF twinsD(2) [OF tw] d adm new pa, where layout_parse = lp] by blast
  have "twins pl m' db'"
    using twinsD(3-6) [OF tw] twinsD(7) [OF tw] m'(2,4) db'(2,4) mem_frames(3) [OF m'(3)] pg_frames(3) [OF db'(3)]
    by (simp add: twins_def)
  then show ?thesis using m'(1) db'(1) by blast
qed

lemma twin_post_ByID:
  "twins pl m db \<Longrightarrow> pg_ok pl d \<Longrightarrow> ps_ByID (mem_Posts lp) d i m = ps_ByID (pg_Posts pl lp) d i db"
  using mem_pst.ByID [where s = m and d = d and i = i and layout_parse = lp] pg_pst.ByID [where s = db and d = d and i = i and pl = pl and layout_parse = lp]
  by (simp add: twinsD twin_author split: option.split)

lemma twin_Delete:
  assumes tw: "twins pl m db" and d: "pg_ok pl d"
  shows "fst (ps_Delete (mem_Posts lp) d i requester m) = fst (ps_Delete (pg_Posts pl lp) d i requester db)
    \<and> twins pl (snd (ps_Delete (mem_Posts lp) d i requester m)) (snd (ps_Delete (pg_Posts pl lp) d i requester db))"
proof (cases "pg_posts db i")
  case None
  then have "map_of (m_posts m) i = None" using twinsD(5) [OF tw] by simp
  then show ?thesis
    using None tw mem_pst.Delete_missing [OF twinsD(1) [OF tw] TrueI, where layout_parse = lp]
      pg_pst.Delete_missing [OF twinsD(2) [OF tw] d, where layout_parse = lp] by simp
next
  case (Some p)
  then have mp: "map_of (m_posts m) i = Some p" using twinsD(5) [OF tw] by simp
  show ?thesis
  proof (cases "p_AuthorID p = requester")
    case True
    obtain m' where m': "ps_Delete (mem_Posts lp) d i requester m = (Inr (), m')" "mem_inv m'"
      "m'\<lparr>m_posts := []\<rparr> = m\<lparr>m_posts := []\<rparr>" "map_of (m_posts m') = (map_of (m_posts m))(i := None)"
      using mem_pst.Delete_ok [OF twinsD(1) [OF tw] TrueI mp True, where layout_parse = lp] by blast
    obtain db' where db': "ps_Delete (pg_Posts pl lp) d i requester db = (Inr (), db')" "pg_inv pl db'"
      "db'\<lparr>t_posts := []\<rparr> = db\<lparr>t_posts := []\<rparr>" "pg_posts db' = (pg_posts db)(i := None)"
      using pg_pst.Delete_ok [OF twinsD(2) [OF tw] d Some True, where layout_parse = lp] by blast
    have "twins pl m' db'"
      using twinsD(3-6) [OF tw] twinsD(7) [OF tw] m'(2,4) db'(2,4) mem_frames(3) [OF m'(3)] pg_frames(3) [OF db'(3)]
      by (simp add: twins_def)
    then show ?thesis using m'(1) db'(1) by simp
  next
    case False
    then show ?thesis
      using tw mem_pst.Delete_forbidden [OF twinsD(1) [OF tw] TrueI mp, where layout_parse = lp]
        pg_pst.Delete_forbidden [OF twinsD(2) [OF tw] d Some, where layout_parse = lp] by simp
  qed
qed

text \<open>Pages: alike when the position the cursor carries has the precision of the database.\<close>

definition precise_page :: "PgLib \<Rightarrow> (gostring \<Rightarrow> time option) \<Rightarrow> PageRequest \<Rightarrow> bool" where
  "precise_page pl lp req \<longleftrightarrow>
     request_cursor (pg_timestamptz pl) lp (Normalise req) = request_cursor (\<lambda>t. t) lp (Normalise req)"

lemma twin_pages:
  assumes tw: "twins pl m db" and d: "pg_ok pl d" and "precise_page pl lp req"
  shows "ps_Feed (mem_Posts lp) d req m = ps_Feed (pg_Posts pl lp) d req db"
    and "ps_ByAuthor (mem_Posts lp) d uid req m = ps_ByAuthor (pg_Posts pl lp) d uid req db"
proof -
  have same: "page_of (\<lambda>t. t) lp req L = page_of (pg_timestamptz pl) lp req L" for L
    using assms(3) by (simp add: page_of_def Let_def precise_page_def)
  have sets: "mem_pst.feed_set m keep = pg_pst.feed_set db keep" for keep
    unfolding mem_pst.feed_set_def pg_pst.feed_set_def twin_author twinsD(3) [OF tw] twinsD(5) [OF tw] ..
  obtain L where L: "feed_list L" "set L = mem_pst.feed_set m (\<lambda>_. True)"
    using mem_pst.feed_ordered [OF twinsD(1) [OF tw]] .
  show "ps_Feed (mem_Posts lp) d req m = ps_Feed (pg_Posts pl lp) d req db"
    using mem_pst.Feed [OF twinsD(1) [OF tw] TrueI L(1), of lp d req] pg_pst.Feed [OF twinsD(2) [OF tw] d L(1), of lp req] L(2) sets [of "\<lambda>_. True"] same
    by (simp add: mem_pst.feed_set_def pg_pst.feed_set_def)
  obtain K where K: "feed_list K" "set K = mem_pst.feed_set m (\<lambda>p. p_AuthorID p = uid)"
    using mem_pst.feed_ordered [OF twinsD(1) [OF tw]] .
  show "ps_ByAuthor (mem_Posts lp) d uid req m = ps_ByAuthor (pg_Posts pl lp) d uid req db"
    using mem_pst.ByAuthor [OF twinsD(1) [OF tw] TrueI K(1), where authorID = uid and d = d and layout_parse = lp and req = req] pg_pst.ByAuthor [OF twinsD(2) [OF tw] d K(1), where authorID = uid and layout_parse = lp and req = req] K(2)
      sets [of "\<lambda>p. p_AuthorID p = uid"] same
    by (simp add: mem_pst.feed_set_def pg_pst.feed_set_def)
qed

section \<open>Refresh tokens\<close>

lemma twin_ByHash:
  assumes tw: "twins pl m db" and d: "pg_ok pl d"
  obtains (unknown) "ts_ByHash mem_Tokens d h m = Inl ErrNotFound" "ts_ByHash (pg_Tokens pl) d h db = Inl ErrNotFound"
    | (known) i t u where "ts_ByHash mem_Tokens d h m = Inr u" "ts_ByHash (pg_Tokens pl) d h db = Inr t" "undated u = undated t"
      "pg_toks db i = Some t" "rt_ID t = i"
proof (cases "\<exists>i t. pg_toks db i = Some t \<and> rt_TokenHash t = h")
  case True
  then obtain i t where t: "pg_toks db i = Some t" "rt_TokenHash t = h" by blast
  then obtain u where u: "map_of (m_tokens m) i = Some u" "undated u = undated t" using twin_token(1) [OF tw] by blast
  show thesis
    using known [of u t i] mem_tok.ByHash_hit [OF twinsD(1) [OF tw] TrueI u(1), of d] pg_tok.ByHash_hit [OF twinsD(2) [OF tw] d t(1)] t u
      undatedD(4) [OF u(2)] pg_tok.toks_ID [OF twinsD(2) [OF tw] t(1)] by simp
next
  case False
  have "rt_TokenHash u \<noteq> h" if "map_of (m_tokens m) i = Some u" for i u
    using that False twin_token(2) [OF tw that] undatedD(4) by metis
  then show thesis
    using unknown False mem_tok.ByHash_miss [OF twinsD(1) [OF tw] TrueI, of h d] pg_tok.ByHash_miss [OF twinsD(2) [OF tw] d, of h] by blast
qed

text \<open>An operation that touches only the tokens, alike in both.\<close>

lemma twins_tokens:
  assumes tw: "twins pl m db" and "mem_inv m'" "pg_inv pl db'" "m'\<lparr>m_tokens := []\<rparr> = m\<lparr>m_tokens := []\<rparr>"
    "db'\<lparr>t_tokens := []\<rparr> = db\<lparr>t_tokens := []\<rparr>"
    and "\<And>i. map_option undated (map_of (m_tokens m') i) = map_option undated (pg_toks db' i)"
  shows "twins pl m' db'"
  using twinsD(3-6) [OF tw] assms(2,3,6) mem_frames(1) [OF assms(4)] pg_frames(1) [OF assms(5)] by (simp add: twins_def)

lemma twin_MarkUsed:
  assumes tw: "twins pl m db" and d: "pg_ok pl d" and p: "pg_timestamptz pl time = time"
  shows "fst (ts_MarkUsed mem_Tokens d i time m) = fst (ts_MarkUsed (pg_Tokens pl) d i time db)
    \<and> fst (ts_MarkUsed (pg_Tokens pl) d i time db) \<in> {Inr (), Inl ErrNotFound}
    \<and> twins pl (snd (ts_MarkUsed mem_Tokens d i time m)) (snd (ts_MarkUsed (pg_Tokens pl) d i time db))
    \<and> (snd (ts_MarkUsed (pg_Tokens pl) d i time db))\<lparr>t_tokens := []\<rparr> = db\<lparr>t_tokens := []\<rparr>
    \<and> (fresh_draws (pg_toks db) dr \<longrightarrow> fresh_draws (pg_toks (snd (ts_MarkUsed (pg_Tokens pl) d i time db))) dr)"
proof (cases "\<exists>t. pg_toks db i = Some t \<and> rt_UsedAt t = None")
  case True
  then obtain t where t: "pg_toks db i = Some t" "rt_UsedAt t = None" by blast
  then obtain u where u: "map_of (m_tokens m) i = Some u" "undated u = undated t" using twin_token(1) [OF tw] by blast
  have uu: "rt_UsedAt u = None" using undatedD(6) [OF u(2)] t(2) by simp
  obtain m' where m': "ts_MarkUsed mem_Tokens d i time m = (Inr (), m')" "mem_inv m'" "m'\<lparr>m_tokens := []\<rparr> = m\<lparr>m_tokens := []\<rparr>"
    "map_of (m_tokens m') = (map_of (m_tokens m))(i := Some (u\<lparr>rt_UsedAt := Some time\<rparr>))"
    using mem_tok.MarkUsed_hit [OF twinsD(1) [OF tw] TrueI u(1) uu] by blast
  obtain db' where db': "ts_MarkUsed (pg_Tokens pl) d i time db = (Inr (), db')" "pg_inv pl db'" "db'\<lparr>t_tokens := []\<rparr> = db\<lparr>t_tokens := []\<rparr>"
    "pg_toks db' = (pg_toks db)(i := Some (t\<lparr>rt_UsedAt := Some time\<rparr>))"
    using pg_tok.MarkUsed_hit [OF twinsD(2) [OF tw] d t, of time] unfolding p by blast
  have "undated (u\<lparr>rt_UsedAt := Some time\<rparr>) = undated (t\<lparr>rt_UsedAt := Some time\<rparr>)"
    using u(2) by (cases u; cases t) (simp add: undated_def)
  then have "twins pl m' db'"
    using twinsD(7) [OF tw] m'(4) db'(4) by (intro twins_tokens [OF tw m'(2) db'(2) m'(3) db'(3)]) simp
  then show ?thesis
    using m'(1) db'(1,3,4) pg_tok.fresh_draws_use [of "pg_toks db" dr i t, OF _ t(1)] by simp
next
  case False
  have "\<And>u. map_of (m_tokens m) i = Some u \<Longrightarrow> rt_UsedAt u \<noteq> None"
    using False twin_token(2) [OF tw] undatedD(6) by metis
  then show ?thesis
    using False tw mem_tok.MarkUsed_miss [OF twinsD(1) [OF tw] TrueI, of i d time] pg_tok.MarkUsed_miss [OF twinsD(2) [OF tw] d, of i time] by simp
qed

lemma undated_revoke: "undated u = undated t \<Longrightarrow> undated (revoke_if (\<lambda>t. rt_FamilyID t = f) time u) = undated (revoke_if (\<lambda>t. rt_FamilyID t = f) time t)"
  by (cases u; cases t) (auto simp: undated_def revoke_if_def)

lemma twin_RevokeFamily:
  assumes tw: "twins pl m db" and d: "pg_ok pl d" and p: "pg_timestamptz pl time = time"
  shows "\<exists>m' db'. ts_RevokeFamily mem_Tokens d f time m = (Inr (), m') \<and> ts_RevokeFamily (pg_Tokens pl) d f time db = (Inr (), db')
    \<and> twins pl m' db'"
proof -
  obtain m' where m': "ts_RevokeFamily mem_Tokens d f time m = (Inr (), m')" "mem_inv m'" "m'\<lparr>m_tokens := []\<rparr> = m\<lparr>m_tokens := []\<rparr>"
    "map_of (m_tokens m') = (\<lambda>i. map_option (revoke_if (\<lambda>t. rt_FamilyID t = f) time) (map_of (m_tokens m) i))"
    using mem_tok.RevokeFamily [OF twinsD(1) [OF tw] TrueI, of d f time] by blast
  obtain db' where db': "ts_RevokeFamily (pg_Tokens pl) d f time db = (Inr (), db')" "pg_inv pl db'" "db'\<lparr>t_tokens := []\<rparr> = db\<lparr>t_tokens := []\<rparr>"
    "pg_toks db' = (\<lambda>i. map_option (revoke_if (\<lambda>t. rt_FamilyID t = f) time) (pg_toks db i))"
    using pg_tok.RevokeFamily [OF twinsD(2) [OF tw] d, of f time] unfolding p by blast
  have "twins pl m' db'"
  proof (rule twins_tokens [OF tw m'(2) db'(2) m'(3) db'(3)])
    fix i
    show "map_option undated (map_of (m_tokens m') i) = map_option undated (pg_toks db' i)"
      using twinsD(7) [OF tw, of i]
      by (cases "map_of (m_tokens m) i"; cases "pg_toks db i") (auto simp: m'(4) db'(4) intro: undated_revoke)
  qed
  then show ?thesis using m'(1) db'(1) by blast
qed

lemma twin_Issue:
  assumes tw: "twins pl m db" and d: "pg_ok pl d" and p: "pg_timestamptz pl (rt_ExpiresAt t) = rt_ExpiresAt t"
    and known: "user_exists db (rt_UserID t)" and new: "pg_toks db (rt_ID t) = None"
    and hash: "\<And>i u. pg_toks db i = Some u \<Longrightarrow> rt_TokenHash u \<noteq> rt_TokenHash t"
    and live: "rt_UsedAt t = None" "rt_RevokedAt t = None"
  shows "\<exists>m' db'. ts_Issue mem_Tokens d t m = (Inr (), m') \<and> ts_Issue (pg_Tokens pl) d t db = (Inr (), db') \<and> twins pl m' db'
    \<and> db'\<lparr>t_tokens := []\<rparr> = db\<lparr>t_tokens := []\<rparr>"
proof -
  have mn: "map_of (m_tokens m) (rt_ID t) = None" using new twin_token(3) [OF tw] by simp
  have mh: "\<And>i u. map_of (m_tokens m) i = Some u \<Longrightarrow> rt_TokenHash u \<noteq> rt_TokenHash t"
    using hash twin_token(2) [OF tw] undatedD(4) by metis
  obtain m' c where m': "ts_Issue mem_Tokens d t m = (Inr (), m')" "mem_inv m'" "m'\<lparr>m_tokens := []\<rparr> = m\<lparr>m_tokens := []\<rparr>"
    "map_of (m_tokens m') = (map_of (m_tokens m))(rt_ID t := Some (t\<lparr>rt_ExpiresAt := rt_ExpiresAt t, rt_CreatedAt := c\<rparr>))"
    using mem_tok.Issue [OF twinsD(1) [OF tw] TrueI TrueI mn _ live, where d = d] mh by blast
  have k: "user_exists (db\<lparr>t_tokens := []\<rparr>) (rt_UserID t)" using known by (simp add: user_exists_def)
  obtain db' c' where db': "ts_Issue (pg_Tokens pl) d t db = (Inr (), db')" "pg_inv pl db'" "db'\<lparr>t_tokens := []\<rparr> = db\<lparr>t_tokens := []\<rparr>"
    "pg_toks db' = (pg_toks db)(rt_ID t := Some (t\<lparr>rt_ExpiresAt := rt_ExpiresAt t, rt_CreatedAt := c'\<rparr>))"
    using pg_tok.Issue [OF twinsD(2) [OF tw] d k new _ live] hash unfolding p by blast
  have "twins pl m' db'"
    using twinsD(7) [OF tw] m'(4) db'(4) by (intro twins_tokens [OF tw m'(2) db'(2) m'(3) db'(3)]) (simp add: undated_def)
  then show ?thesis using m'(1) db'(1,3) by blast
qed

section \<open>Uploads\<close>

lemma twins_uploads:
  assumes tw: "twins pl m db" and "mem_inv m'" "pg_inv pl db'" "m'\<lparr>m_uploads := []\<rparr> = m\<lparr>m_uploads := []\<rparr>"
    "db'\<lparr>t_uploads := []\<rparr> = db\<lparr>t_uploads := []\<rparr>" and "map_of (m_uploads m') = pg_upls db'"
  shows "twins pl m' db'"
  using twinsD(3-5) [OF tw] twinsD(7) [OF tw] assms(2,3,6) mem_frames(2) [OF assms(4)] pg_frames(2) [OF assms(5)] by (simp add: twins_def)

lemma twin_Reserve:
  assumes tw: "twins pl m db" and d: "pg_ok pl d" and known: "user_exists db (ul_UserID u)" and new: "pg_upls db (ul_Key u) = None"
    and u: "ul_Purpose u \<in> {''avatar'', ''post''}" "ul_CreatedAt u = 0" "ul_AttachedAt u = None"
  shows "\<exists>m' db'. up_Reserve mem_Uploads d u m = (Inr (), m') \<and> up_Reserve (pg_Uploads pl) d u db = (Inr (), db') \<and> twins pl m' db'"
proof -
  have mn: "map_of (m_uploads m) (ul_Key u) = None" using new twinsD(6) [OF tw] by simp
  have k: "user_exists (db\<lparr>t_uploads := []\<rparr>) (ul_UserID u)" using known by (simp add: user_exists_def)
  obtain m' where m': "up_Reserve mem_Uploads d u m = (Inr (), m')" "mem_inv m'" "m'\<lparr>m_uploads := []\<rparr> = m\<lparr>m_uploads := []\<rparr>"
    "map_of (m_uploads m') = (map_of (m_uploads m))(ul_Key u := Some (u\<lparr>ul_CreatedAt := d_now d\<rparr>))"
    using mem_upl.Reserve [OF twinsD(1) [OF tw] TrueI TrueI mn u] by blast
  obtain db' where db': "up_Reserve (pg_Uploads pl) d u db = (Inr (), db')" "pg_inv pl db'" "db'\<lparr>t_uploads := []\<rparr> = db\<lparr>t_uploads := []\<rparr>"
    "pg_upls db' = (pg_upls db)(ul_Key u := Some (u\<lparr>ul_CreatedAt := d_now d\<rparr>))"
    using pg_upl.Reserve [OF twinsD(2) [OF tw] d k new u] by blast
  have "twins pl m' db'"
    using twinsD(6) [OF tw] m'(4) db'(4) by (intro twins_uploads [OF tw m'(2) db'(2) m'(3) db'(3)]) simp
  then show ?thesis using m'(1) db'(1) by blast
qed

lemma twin_Claim:
  assumes tw: "twins pl m db" and d: "pg_ok pl d" and p: "pg_timestamptz pl time = time"
  shows "fst (up_Claim mem_Uploads d key uid purpose time m) = fst (up_Claim (pg_Uploads pl) d key uid purpose time db)
    \<and> twins pl (snd (up_Claim mem_Uploads d key uid purpose time m)) (snd (up_Claim (pg_Uploads pl) d key uid purpose time db))
    \<and> (snd (up_Claim (pg_Uploads pl) d key uid purpose time db))\<lparr>t_uploads := []\<rparr> = db\<lparr>t_uploads := []\<rparr>"
proof (cases "pg_upls db key")
  case None
  then have "map_of (m_uploads m) key = None" using twinsD(6) [OF tw] by simp
  then show ?thesis
    using None tw mem_upl.Claim_missing [OF twinsD(1) [OF tw] TrueI] pg_upl.Claim_missing [OF twinsD(2) [OF tw] d] by simp
next
  case (Some u)
  then have mu: "map_of (m_uploads m) key = Some u" using twinsD(6) [OF tw] by simp
  show ?thesis
  proof (cases "ul_UserID u = uid \<and> ul_Purpose u = purpose \<and> ul_AttachedAt u = None")
    case True
    then have t: "ul_UserID u = uid" "ul_Purpose u = purpose" "ul_AttachedAt u = None" by simp_all
    obtain m' where m': "up_Claim mem_Uploads d key uid purpose time m = (Inr (), m')" "mem_inv m'" "m'\<lparr>m_uploads := []\<rparr> = m\<lparr>m_uploads := []\<rparr>"
      "map_of (m_uploads m') = (map_of (m_uploads m))(key := Some (u\<lparr>ul_AttachedAt := Some time\<rparr>))"
      using mem_upl.Claim_ok [OF twinsD(1) [OF tw] TrueI mu t] by blast
    obtain db' where db': "up_Claim (pg_Uploads pl) d key uid purpose time db = (Inr (), db')" "pg_inv pl db'" "db'\<lparr>t_uploads := []\<rparr> = db\<lparr>t_uploads := []\<rparr>"
      "pg_upls db' = (pg_upls db)(key := Some (u\<lparr>ul_AttachedAt := Some time\<rparr>))"
      using pg_upl.Claim_ok [OF twinsD(2) [OF tw] d Some t, of time] unfolding p by blast
    have "twins pl m' db'"
      using twinsD(6) [OF tw] m'(4) db'(4) by (intro twins_uploads [OF tw m'(2) db'(2) m'(3) db'(3)]) simp
    then show ?thesis using m'(1) db'(1,3) by simp
  next
    case False
    then have f: "ul_UserID u \<noteq> uid \<or> ul_Purpose u \<noteq> purpose \<or> ul_AttachedAt u \<noteq> None" by blast
    show ?thesis
      using tw mem_upl.Claim_forbidden [OF twinsD(1) [OF tw] TrueI mu f] pg_upl.Claim_forbidden [OF twinsD(2) [OF tw] d Some f] by simp
  qed
qed

end
