(* ===== verification/LowerCase.thy ===== *)
theory LowerCase
  imports GoStrings
begin

text \<open>
  What UTF-8 encoding writes, decoding reads back; so lower-casing a text twice is lower-casing it
  once, for every table of lower-case mappings that maps a rune to one it leaves alone.
\<close>

section \<open>Encoding, then decoding\<close>

text \<open>The rune that \<open>utf8.AppendRune\<close> really writes: a surrogate or a number out of range is replaced.\<close>

definition clean_rune :: "nat \<Rightarrow> nat" where
  "clean_rune r = (if r > 0x10FFFF \<or> in_range 0xD800 0xDFFF r then rune_error else r)"

text \<open>Decoding two, three and four well-formed bytes.\<close>

lemma decode_two:
  assumes "byte_at s 0 = 0xC0 + a" "byte_at s 1 = 0x80 + b" and "2 \<le> a" "a < 32" "b < 64"
  shows "decode_rune s = (a * 64 + b, 2)"
  unfolding decode_rune_def Let_def assms(1,2) using assms(3-) by (simp add: in_range_def)

lemma decode_three:
  assumes "byte_at s 0 = 0xE0 + a" "byte_at s 1 = 0x80 + b" "byte_at s 2 = 0x80 + c"
    and "a < 16" "b < 64" "c < 64" "a = 0 \<Longrightarrow> 32 \<le> b" "a = 13 \<Longrightarrow> b < 32"
  shows "decode_rune s = (a * 4096 + b * 64 + c, 3)"
  unfolding decode_rune_def Let_def assms(1-3) using assms(4-) by (auto simp: in_range_def)

lemma decode_four:
  assumes "byte_at s 0 = 0xF0 + a" "byte_at s 1 = 0x80 + b" "byte_at s 2 = 0x80 + c" "byte_at s 3 = 0x80 + d"
    and "a < 5" "b < 64" "c < 64" "d < 64" "a = 0 \<Longrightarrow> 16 \<le> b" "a = 4 \<Longrightarrow> b < 16"
  shows "decode_rune s = (a * 262144 + b * 4096 + c * 64 + d, 4)"
  unfolding decode_rune_def Let_def assms(1-4) using assms(5-) by (auto simp: in_range_def)

lemma byte_at_char:
  "n < 256 \<Longrightarrow> byte_at (char_of n # s) 0 = n" "byte_at (c # s) 1 = byte_at s 0" "byte_at (c # s) 2 = byte_at s 1"
  "byte_at (c # s) 3 = byte_at s 2"
  by (simp_all add: byte_at_def numeral_2_eq_2 numeral_3_eq_3)

lemma encode_rune_digits:
  fixes r :: nat
  defines "u \<equiv> clean_rune r"
  defines "q1 \<equiv> u div 64" and "q2 \<equiv> u div 4096" and "q3 \<equiv> u div 262144"
  shows "encode_rune r =
      (if u < 0x80 then [char_of u]
       else if u < 0x800 then [char_of (0xC0 + q1), char_of (0x80 + u mod 64)]
       else if u < 0x10000 then [char_of (0xE0 + q2), char_of (0x80 + q1 mod 64), char_of (0x80 + u mod 64)]
       else [char_of (0xF0 + q3), char_of (0x80 + q2 mod 64), char_of (0x80 + q1 mod 64), char_of (0x80 + u mod 64)])"
    and "u = q1 * 64 + u mod 64" and "q1 = q2 * 64 + q1 mod 64" and "q2 = q3 * 64 + q2 mod 64"
proof -
  show "encode_rune r =
      (if u < 0x80 then [char_of u]
       else if u < 0x800 then [char_of (0xC0 + q1), char_of (0x80 + u mod 64)]
       else if u < 0x10000 then [char_of (0xE0 + q2), char_of (0x80 + q1 mod 64), char_of (0x80 + u mod 64)]
       else [char_of (0xF0 + q3), char_of (0x80 + q2 mod 64), char_of (0x80 + q1 mod 64), char_of (0x80 + u mod 64)])"
    unfolding encode_rune_def u_def clean_rune_def Let_def q1_def q2_def q3_def ..
  have "q2 = q1 div 64" "q3 = q2 div 64" by (simp_all add: q1_def q2_def q3_def div_mult2_eq [symmetric])
  then show "u = q1 * 64 + u mod 64" "q1 = q2 * 64 + q1 mod 64" "q2 = q3 * 64 + q2 mod 64"
    by (simp_all add: q1_def)
qed

lemma decode_encode_rune:
  "decode_rune (encode_rune r @ t) = (clean_rune r, length (encode_rune r)) \<and> encode_rune r \<noteq> []"
proof -
  define u where "u = clean_rune r"
  have u: "u \<le> 0x10FFFF" "\<not> (0xD800 \<le> u \<and> u \<le> 0xDFFF)"
    by (simp_all add: u_def clean_rune_def rune_error_def in_range_def)
  define q1 q2 q3 where "q1 = u div 64" and "q2 = u div 4096" and "q3 = u div 262144"
  define r0 r1 r2 where "r0 = u mod 64" and "r1 = q1 mod 64" and "r2 = q2 mod 64"
  note enc = encode_rune_digits(1) [of r, folded u_def, folded q1_def q2_def q3_def, folded r0_def r1_def r2_def]
  note eqs = encode_rune_digits(2-4) [of r, folded u_def, folded q1_def q2_def q3_def, folded r0_def r1_def r2_def]
  have "r0 < 64" "r1 < 64" "r2 < 64" by (simp_all add: r0_def r1_def r2_def)
  note digits = this eqs
  consider (1) "u < 0x80" | (2) "0x80 \<le> u" "u < 0x800" | (3) "0x800 \<le> u" "u < 0x10000" | (4) "0x10000 \<le> u" by linarith
  then have "decode_rune (encode_rune r @ t) = (u, length (encode_rune r)) \<and> encode_rune r \<noteq> []"
  proof cases
    case 1
    then show ?thesis by (simp add: enc decode_rune_def byte_at_def)
  next
    case 2
    then have e: "encode_rune r @ t = char_of (0xC0 + q1) # char_of (0x80 + r0) # t" "length (encode_rune r) = 2" by (simp_all add: enc)
    have "2 \<le> q1" "q1 < 32" using 2 digits by linarith+
    then have "decode_rune (encode_rune r @ t) = (q1 * 64 + r0, 2)"
      unfolding e(1) using digits by (intro decode_two) (simp_all only: byte_at_char)
    then show ?thesis using e digits by auto
  next
    case 3
    then have e: "encode_rune r @ t = char_of (0xE0 + q2) # char_of (0x80 + r1) # char_of (0x80 + r0) # t" "length (encode_rune r) = 3"
      by (simp_all add: enc)
    have "q2 < 16" "q2 = 0 \<Longrightarrow> 32 \<le> r1" "q2 = 13 \<Longrightarrow> r1 < 32" using 3 digits u(2) by linarith+
    then have "decode_rune (encode_rune r @ t) = (q2 * 4096 + r1 * 64 + r0, 3)"
      unfolding e(1) using digits by (intro decode_three) (simp_all only: byte_at_char)
    then show ?thesis using e digits by auto
  next
    case 4
    then have e: "encode_rune r @ t = char_of (0xF0 + q3) # char_of (0x80 + r2) # char_of (0x80 + r1) # char_of (0x80 + r0) # t"
      "length (encode_rune r) = 4"
      by (simp_all add: enc)
    have "q3 < 5" "q3 = 0 \<Longrightarrow> 16 \<le> r2" "q3 = 4 \<Longrightarrow> r2 < 16" using 4 digits u(1) by linarith+
    then have "decode_rune (encode_rune r @ t) = (q3 * 262144 + r2 * 4096 + r1 * 64 + r0, 4)"
      unfolding e(1) using digits by (intro decode_four) (simp_all only: byte_at_char)
    then show ?thesis using e digits by auto
  qed
  then show ?thesis by (simp add: u_def)
qed

lemma runes_encode_Cons: "runes (encode_rune r @ t) = (clean_rune r, encode_rune r) # runes t"
proof -
  obtain b bs where b: "encode_rune r = b # bs" using decode_encode_rune [of r t] by (cases "encode_rune r") auto
  show ?thesis using decode_encode_rune [of r t] by (simp add: b)
qed

lemma clean_rune_idem [simp]: "clean_rune (clean_rune r) = clean_rune r"
  by (simp add: clean_rune_def rune_error_def in_range_def)

lemma encode_clean [simp]: "encode_rune (clean_rune r) = encode_rune r"
  unfolding encode_rune_def Let_def clean_rune_def by (simp add: rune_error_def in_range_def)

lemma runes_encode: "runes (concat (map encode_rune rs)) = map (\<lambda>r. (clean_rune r, encode_rune r)) rs"
  by (induction rs) (simp_all add: runes_encode_Cons del: runes.simps(2))

section \<open>Lower-casing\<close>

text \<open>A table that maps every rune beyond ASCII to one it leaves alone, as Unicode's does.\<close>

definition lower_table :: "(nat \<Rightarrow> nat) \<Rightarrow> bool" where
  "lower_table uni \<longleftrightarrow> (\<forall>r\<ge>128. let u = clean_rune (uni r) in if u < 128 then \<not> in_range 65 90 u else clean_rune (uni u) = u)"

definition lower_rune :: "(nat \<Rightarrow> nat) \<Rightarrow> nat \<Rightarrow> nat" where
  "lower_rune uni r = (if r < 128 then of_char (lower_byte (char_of r)) else clean_rune (uni r))"

lemma encode_ascii: "r < 128 \<Longrightarrow> encode_rune r = [char_of r]"
  by (simp add: encode_rune_def in_range_def)

lemma to_lower_runes: "to_lower uni s = concat (map (\<lambda>(r, _). encode_rune (lower_rune uni r)) (runes s))"
proof (cases "is_ascii s")
  case True
  then have "concat (map (\<lambda>(r, _). encode_rune (lower_rune uni r)) (runes s)) = map lower_byte s"
  proof (induction s)
    case (Cons c s)
    then show ?case
      using lower_byte_ascii [of c]
      by (simp add: is_ascii_def runes_ascii_Cons lower_rune_def encode_ascii del: runes.simps(2))
  qed simp
  then show ?thesis using True by simp
next
  case False
  have "encode_rune (lower_rune uni r) = (if r < 128 then [lower_byte (char_of r)] else encode_rune (uni r))" for r
    using lower_byte_ascii [of "char_of r"] by (simp add: lower_rune_def encode_ascii)
  then show ?thesis
    using False unfolding to_lower_def if_not_P [OF False] by (simp only: split_def)
qed

lemma lower_rune_idem:
  assumes "lower_table uni"
  shows "lower_rune uni (clean_rune (lower_rune uni r)) = clean_rune (lower_rune uni r)"
proof (cases "r < 128")
  case True
  then have l: "lower_rune uni r < 128" "lower_rune uni r = of_char (lower_byte (char_of r))"
    using lower_byte_ascii [of "char_of r"] by (simp_all add: lower_rune_def)
  then have "clean_rune (lower_rune uni r) = lower_rune uni r" by (simp add: clean_rune_def in_range_def)
  moreover have "lower_rune uni (lower_rune uni r) = lower_rune uni r"
    using l(1) unfolding l(2) by (simp add: lower_rune_def)
  ultimately show ?thesis by simp
next
  case False
  then have l: "lower_rune uni r = clean_rune (uni r)" by (simp add: lower_rune_def)
  have t: "let u = clean_rune (uni r) in if u < 128 then \<not> in_range 65 90 u else clean_rune (uni u) = u"
    using assms False by (simp add: lower_table_def)
  show ?thesis
  proof (cases "clean_rune (uni r) < 128")
    case True
    moreover have "lower_rune uni u = u" if "u < 128" "\<not> in_range 65 90 u" for u
      using that by (simp add: lower_rune_def lower_byte_def)
    ultimately show ?thesis using t by (simp add: l Let_def)
  next
    case False
    moreover have "lower_rune uni u = clean_rune (uni u)" if "\<not> u < 128" for u
      using that by (simp add: lower_rune_def)
    ultimately show ?thesis using t by (simp add: l Let_def)
  qed
qed

text \<open>\<open>strings.ToLower\<close> is idempotent.\<close>

lemma to_lower_idem:
  assumes "lower_table uni"
  shows "to_lower uni (to_lower uni s) = to_lower uni s"
proof -
  have "runes (to_lower uni s) = map (\<lambda>r. (clean_rune r, encode_rune r)) (map (\<lambda>(r, _). lower_rune uni r) (runes s))"
    unfolding to_lower_runes [of uni s] runes_encode [symmetric] by (simp add: split_def comp_def)
  then have "to_lower uni (to_lower uni s) =
      concat (map (\<lambda>(r, _). encode_rune (lower_rune uni (clean_rune (lower_rune uni r)))) (runes s))"
    unfolding to_lower_runes [of uni "to_lower uni s"] by (simp add: split_def comp_def)
  then show ?thesis
    unfolding lower_rune_idem [OF assms] to_lower_runes [of uni s] by simp
qed

end
