(* ===== verification/TwinServers.thy ===== *)
theory TwinServers
  imports Twins Contract LowerCase
begin

text \<open>
  Two servers over twin stores: the session service and every handler answer alike.  The one thing
  left open is which of two clashing fields a 409 names when they belong to different accounts.
\<close>

section \<open>What is compared\<close>

definition same_service :: "PgLib \<Rightarrow> MemStore Service \<Rightarrow> PgDB Service \<Rightarrow> bool" where
  "same_service pl sv1 sv2 \<longleftrightarrow> sv_tokens sv1 = mem_Tokens \<and> sv_tokens sv2 = pg_Tokens pl
     \<and> sv_issuer sv1 = sv_issuer sv2 \<and> sv_refreshTTL sv1 = sv_refreshTTL sv2"

text \<open>The servers differ in their store only; what Go lower-cased, Go and Postgres leave alone.\<close>

definition twin_servers ::
    "Lib \<Rightarrow> PgLib \<Rightarrow> (gostring \<Rightarrow> time option) \<Rightarrow> MemStore Server \<Rightarrow> PgDB Server \<Rightarrow> bool" where
  "twin_servers lib pl lp srv1 srv2 \<longleftrightarrow>
     sr_cfg srv1 = sr_cfg srv2 \<and> sr_issuer srv1 = sr_issuer srv2 \<and> sr_presigner srv1 = sr_presigner srv2
     \<and> sr_startedAt srv1 = sr_startedAt srv2 \<and> same_service pl (sr_sessions srv1) (sr_sessions srv2)
     \<and> sr_store srv1 = mem_Store (lb_uni lib) lp \<and> sr_store srv2 = pg_Store pl lp
     \<and> lower_table (lb_uni lib)
     \<and> (\<forall>s. pg_lower pl (to_lower (lb_uni lib) s) = to_lower (lb_uni lib) s)"

definition twin_worlds :: "PgLib \<Rightarrow> MemStore World \<Rightarrow> PgDB World \<Rightarrow> bool" where
  "twin_worlds pl s1 s2 \<longleftrightarrow> twins pl (wd_store s1) (wd_store s2) \<and> wd_limiter s1 = wd_limiter s2
     \<and> wd_authLimiter s1 = wd_authLimiter s2"

text \<open>
  What the environment gives: no fault of the driver, times at the precision of the database, and
  identifiers, hashes and keys that are not in use.
\<close>

definition smooth_draws :: "PgLib \<Rightarrow> duration \<Rightarrow> PgDB \<Rightarrow> (nat \<Rightarrow> Draw) \<Rightarrow> bool" where
  "smooth_draws pl ttl db dr \<longleftrightarrow> (\<forall>k. pg_ok pl (dr k) \<and> pg_timestamptz pl (d_now (dr k) + ttl) = d_now (dr k) + ttl
     \<and> pg_users db (NewID (dr k)) = None \<and> pg_posts db (NewID (dr k)) = None \<and> pg_toks db (NewID (dr k)) = None
     \<and> (\<forall>i t. pg_toks db i = Some t \<longrightarrow> rt_TokenHash t \<noteq> snd (NewRefreshToken (dr k)))
     \<and> (\<forall>purpose ext. pg_upls db (newKey (dr k) purpose ext) = None))"

text \<open>What the client sends: a cursor of that precision, an update that carries a field.\<close>

definition smooth_request :: "PgLib \<Rightarrow> (gostring \<Rightarrow> time option) \<Rightarrow> 'u Request \<Rightarrow> bool" where
  "smooth_request pl lp r \<longleftrightarrow>
     (\<forall>limit. precise_page pl lp \<lparr>pr_Cursor = rq_Query r ''cursor'', pr_Limit = limit\<rparr>)
     \<and> (rq_Method r = MethodPatch \<longrightarrow> (\<forall>req. DecodeJSON r update_me_fields zero_update_me = Inr req \<longrightarrow>
          update_assignments (fst (update_of req)) \<noteq> []))"

definition known_caller :: "PgDB \<Rightarrow> User Request \<Rightarrow> bool" where
  "known_caller db r \<longleftrightarrow> (\<forall>me. rq_currentUser r = Some me \<longrightarrow> pg_users db (u_ID me) = Some me)"

definition conflict :: "verdict \<Rightarrow> bool" where
  "conflict v \<longleftrightarrow> (\<exists>e. v = Failed (APIErr e) \<and> ae_Status e = 409)"

definition same_result ::
    "PgLib \<Rightarrow> verdict \<times> Writer \<times> MemStore World \<Rightarrow> verdict \<times> Writer \<times> PgDB World \<Rightarrow> bool" where
  "same_result pl res1 res2 \<longleftrightarrow>
     (case res1 of (v1, w1, s1) \<Rightarrow> case res2 of (v2, w2, s2) \<Rightarrow>
        (v1 = v2 \<or> conflict v1 \<and> conflict v2 \<and> wr_Status w1 = 0) \<and> w1 = w2 \<and> twin_worlds pl s1 s2)"

section \<open>The session service\<close>

lemma smooth_dr:
  assumes "smooth_draws pl ttl db dr"
  shows "\<forall>k. pg_ok pl (dr k)" "pg_ok pl (dr k)" "pg_timestamptz pl (d_now (dr k)) = d_now (dr k)" "fresh_draws (pg_toks db) dr"
    "pg_users db (NewID (dr k)) = None" "pg_posts db (NewID (dr k)) = None" "pg_upls db (newKey (dr k) purpose ext) = None"
    "pg_timestamptz pl (d_now (dr k) + ttl) = d_now (dr k) + ttl"
  using assms by (auto simp: smooth_draws_def pg_ok_def fresh_draws_def)

lemma smooth_sub [intro]:
  "smooth_draws pl ttl db dr \<Longrightarrow> smooth_draws pl ttl db (shift_draws n dr)"
  "smooth_draws pl ttl db dr \<Longrightarrow> smooth_draws pl ttl db (own_draw dr)"
  "smooth_draws pl ttl db dr \<Longrightarrow> smooth_draws pl ttl db (next_draws dr)"
  by (simp_all add: smooth_draws_def shift_draws_def own_draw_def next_draws_def)

lemma user_exists_frame_tokens: "db'\<lparr>t_tokens := []\<rparr> = db\<lparr>t_tokens := []\<rparr> \<Longrightarrow> user_exists db' i = user_exists db i"
  using pg_frames(1) [of db' db] by (simp add: pg_users_exists)

lemma twin_issue:
  assumes tw: "twins pl m db" and sv: "same_service pl sv1 sv2" and ok: "\<forall>k. pg_ok pl (dr k)"
    and p: "pg_timestamptz pl (d_now (dr 2) + sv_refreshTTL sv2) = d_now (dr 2) + sv_refreshTTL sv2"
    and known: "user_exists db uid" and fresh: "fresh_draws (pg_toks db) dr"
  shows "fst (issue jw sv1 dr uid family m) = fst (issue jw sv2 dr uid family db)
    \<and> twins pl (snd (issue jw sv1 dr uid family m)) (snd (issue jw sv2 dr uid family db))"
proof (cases "IssueAccess jw (sv_issuer sv2) (dr 0) uid")
  case (Inl e)
  then show ?thesis using tw sv by (simp add: issue_def same_service_def)
next
  case (Inr ax)
  let ?t = "new_token sv2 dr uid family"
  have t: "new_token sv1 dr uid family = ?t" using sv by (simp add: new_token_def same_service_def)
  have "\<exists>m' db'. ts_Issue mem_Tokens (dr 4) ?t m = (Inr (), m') \<and> ts_Issue (pg_Tokens pl) (dr 4) ?t db = (Inr (), db') \<and> twins pl m' db'
      \<and> db'\<lparr>t_tokens := []\<rparr> = db\<lparr>t_tokens := []\<rparr>"
    using ok known fresh p by (intro twin_Issue [OF tw]) (auto simp: new_token_def fresh_draws_def)
  then show ?thesis using Inr sv t by (auto simp: issue_def same_service_def split: prod.split)
qed

lemma twin_Start:
  assumes "twins pl m db" "same_service pl sv1 sv2" "smooth_draws pl (sv_refreshTTL sv2) db dr" "user_exists db uid"
  shows "fst (Start jw sv1 dr uid m) = fst (Start jw sv2 dr uid db) \<and> twins pl (snd (Start jw sv1 dr uid m)) (snd (Start jw sv2 dr uid db))"
  unfolding Start_def using assms smooth_dr [OF assms(3)] by (intro twin_issue) auto

text \<open>The last part of \<open>Rotate\<close>, for a token that is active: consume it, then issue its successor.\<close>

definition exchange :: "JwtLib \<Rightarrow> 's Service \<Rightarrow> (nat \<Rightarrow> Draw) \<Rightarrow> RefreshToken \<Rightarrow> 's \<Rightarrow> (auth_error + Session) \<times> 's" where
  "exchange jw sv dr token s =
     (case ts_MarkUsed (sv_tokens sv) (dr 7) (rt_ID token) (d_now (dr 6)) s of
        (Inl ErrNotFound, s') \<Rightarrow>
          (case ts_RevokeFamily (sv_tokens sv) (dr 8) (rt_FamilyID token) (d_now (dr 6)) s' of
             (Inl e, s'') \<Rightarrow> (Inl (AuthStore ''revoking raced token family'' e), s'')
           | (Inr _, s'') \<Rightarrow> (Inl ErrTokenInvalid, s''))
      | (Inl e, s') \<Rightarrow> (Inl (AuthStore ''consuming refresh token'' e), s')
      | (Inr _, s') \<Rightarrow> issue jw sv dr (rt_UserID token) (rt_FamilyID token) s')"

lemma exchange_undated:
  assumes "undated u = undated t"
  shows "exchange jw sv dr u s = exchange jw sv dr t s"
  unfolding exchange_def undatedD [OF assms] ..

lemma twin_exchange:
  assumes tw: "twins pl m db" and sv: "same_service pl sv1 sv2" and sm: "smooth_draws pl (sv_refreshTTL sv2) db dr"
    and row: "pg_toks db i = Some t"
  shows "fst (exchange jw sv1 dr t m) = fst (exchange jw sv2 dr t db) \<and> twins pl (snd (exchange jw sv1 dr t m)) (snd (exchange jw sv2 dr t db))"
proof -
  let ?now = "d_now (dr 6)"
  note ok = smooth_dr(2) [OF sm]
  have p: "pg_timestamptz pl ?now = ?now" by (rule smooth_dr(3) [OF sm])
  have T: "sv_tokens sv1 = mem_Tokens" "sv_tokens sv2 = pg_Tokens pl" using sv by (simp_all add: same_service_def)
  obtain a m1 where m1: "ts_MarkUsed mem_Tokens (dr 7) (rt_ID t) ?now m = (a, m1)" by fastforce
  obtain b db1 where db1: "ts_MarkUsed (pg_Tokens pl) (dr 7) (rt_ID t) ?now db = (b, db1)" by fastforce
  have mu: "a = b" "b \<in> {Inr (), Inl ErrNotFound}" "twins pl m1 db1" "db1\<lparr>t_tokens := []\<rparr> = db\<lparr>t_tokens := []\<rparr>" "fresh_draws (pg_toks db1) dr"
    using twin_MarkUsed [OF tw ok [of 7] p, of "rt_ID t" dr] smooth_dr(4) [OF sm] by (simp_all add: m1 db1)
  have known: "user_exists db1 (rt_UserID t)"
    using pg_tok.toks_known [OF twinsD(2) [OF tw] row] user_exists_frame_tokens [OF mu(4)] by (simp add: user_exists_def)
  show ?thesis
  proof (cases "b = Inr ()")
    case True
    then show ?thesis
      using twin_issue [OF mu(3) sv smooth_dr(1) [OF sm] smooth_dr(8) [OF sm] known mu(5)] mu(1) by (simp add: exchange_def T m1 db1)
  next
    case False
    then have "b = Inl ErrNotFound" using mu(2) by simp
    then show ?thesis
      using twin_RevokeFamily [OF mu(3) ok [of 8] p, of "rt_FamilyID t"] mu(1) by (auto simp: exchange_def T m1 db1)
  qed
qed

lemma Rotate_cases:
  assumes "presented \<noteq> []" "ts_ByHash (sv_tokens sv) (dr 5) (HashRefreshToken presented) s = Inr t"
  shows "Rotate jw sv dr presented s =
    (if rt_UsedAt t \<noteq> None then
       (case ts_RevokeFamily (sv_tokens sv) (dr 7) (rt_FamilyID t) (d_now (dr 6)) s of
          (Inl e, s') \<Rightarrow> (Inl (AuthStore ''revoking replayed token family'' e), s') | (Inr _, s') \<Rightarrow> (Inl ErrTokenInvalid, s'))
     else if rt_RevokedAt t \<noteq> None then (Inl ErrTokenInvalid, s)
     else if \<not> d_now (dr 6) < rt_ExpiresAt t then (Inl ErrTokenExpired, s)
     else exchange jw sv dr t s)"
  using assms(1) unfolding Rotate_def Let_def assms(2) sum.case exchange_def by simp

lemma twin_Rotate:
  assumes tw: "twins pl m db" and sv: "same_service pl sv1 sv2" and sm: "smooth_draws pl (sv_refreshTTL sv2) db dr"
  shows "fst (Rotate jw sv1 dr presented m) = fst (Rotate jw sv2 dr presented db)
    \<and> twins pl (snd (Rotate jw sv1 dr presented m)) (snd (Rotate jw sv2 dr presented db))"
proof (cases "presented = []")
  case True
  then show ?thesis using tw by (simp add: Rotate_def)
next
  case False
  note ok = smooth_dr(2) [OF sm]
  have T: "sv_tokens sv1 = mem_Tokens" "sv_tokens sv2 = pg_Tokens pl" using sv by (simp_all add: same_service_def)
  show ?thesis
  proof (rule twin_ByHash [OF tw ok [of 5], of "HashRefreshToken presented", folded T])
    assume "ts_ByHash (sv_tokens sv1) (dr 5) (HashRefreshToken presented) m = Inl ErrNotFound"
      "ts_ByHash (sv_tokens sv2) (dr 5) (HashRefreshToken presented) db = Inl ErrNotFound"
    then show ?thesis using False tw by (simp add: Rotate_def)
  next
    fix i t u
    assume hit: "ts_ByHash (sv_tokens sv1) (dr 5) (HashRefreshToken presented) m = Inr u"
      "ts_ByHash (sv_tokens sv2) (dr 5) (HashRefreshToken presented) db = Inr t"
      and same: "undated u = undated t" and row: "pg_toks db i = Some t"
    show ?thesis
      unfolding Rotate_cases [where dr = dr, OF False hit(1)] Rotate_cases [where dr = dr, OF False hit(2)] undatedD [OF same] exchange_undated [OF same]
      using tw twin_exchange [OF tw sv sm row] twin_RevokeFamily [OF tw ok [of 7] smooth_dr(3) [OF sm], of "rt_FamilyID t" 6]
      by (auto simp: T)
  qed
qed

lemma twin_Revoke:
  assumes tw: "twins pl m db" and sv: "same_service pl sv1 sv2" and sm: "smooth_draws pl ttl db dr"
  shows "fst (Revoke sv1 dr presented m) = fst (Revoke sv2 dr presented db)
    \<and> twins pl (snd (Revoke sv1 dr presented m)) (snd (Revoke sv2 dr presented db))"
proof (cases "presented = []")
  case True
  then show ?thesis using tw by (simp add: Revoke_def)
next
  case False
  note ok = smooth_dr(2) [OF sm]
  have T: "sv_tokens sv1 = mem_Tokens" "sv_tokens sv2 = pg_Tokens pl" using sv by (simp_all add: same_service_def)
  show ?thesis
  proof (rule twin_ByHash [OF tw ok [of 0], of "HashRefreshToken presented"])
    assume "ts_ByHash mem_Tokens (dr 0) (HashRefreshToken presented) m = Inl ErrNotFound"
      "ts_ByHash (pg_Tokens pl) (dr 0) (HashRefreshToken presented) db = Inl ErrNotFound"
    then show ?thesis using False tw by (simp add: Revoke_def T)
  next
    fix i t u
    assume m: "ts_ByHash mem_Tokens (dr 0) (HashRefreshToken presented) m = Inr u"
      and db: "ts_ByHash (pg_Tokens pl) (dr 0) (HashRefreshToken presented) db = Inr t" and same: "undated u = undated t"
    have f: "rt_FamilyID u = rt_FamilyID t" by (rule undatedD(3) [OF same])
    show ?thesis
      using twin_RevokeFamily [OF tw ok [of 1] smooth_dr(3) [OF sm], of "rt_FamilyID t" 2] False
      unfolding Revoke_def T m db sum.case f by auto
  qed
qed

section \<open>The handlers\<close>

text \<open>Two handlers over twin stores that answer a request of method \<open>meth\<close> alike.\<close>

definition twin_handlers ::
    "PgLib \<Rightarrow> (gostring \<Rightarrow> time option) \<Rightarrow> duration \<Rightarrow> gostring \<Rightarrow> (MemStore, User) api_handler \<Rightarrow> (PgDB, User) api_handler \<Rightarrow> bool" where
  "twin_handlers pl lp ttl meth h1 h2 \<longleftrightarrow>
     (\<forall>dr r w s1 s2. match_method meth (rq_Method r) \<longrightarrow> twin_worlds pl s1 s2 \<longrightarrow> smooth_draws pl ttl (wd_store s2) dr \<longrightarrow>
        smooth_request pl lp r \<longrightarrow> known_caller (wd_store s2) r \<longrightarrow> wr_Status w = 0 \<longrightarrow> same_result pl (h1 dr r w s1) (h2 dr r w s2))"

lemma twin_handlersI:
  assumes "\<And>dr r w s1 s2. match_method meth (rq_Method r) \<Longrightarrow> twin_worlds pl s1 s2 \<Longrightarrow> smooth_draws pl ttl (wd_store s2) dr \<Longrightarrow>
      smooth_request pl lp r \<Longrightarrow> known_caller (wd_store s2) r \<Longrightarrow> wr_Status w = 0 \<Longrightarrow> same_result pl (h1 dr r w s1) (h2 dr r w s2)"
  shows "twin_handlers pl lp ttl meth h1 h2"
  using assms by (simp add: twin_handlers_def)

lemma same_plumbing [simp]:
  "same_result pl (fail e w s1) (fail e w s2) \<longleftrightarrow> twin_worlds pl s1 s2"
  "same_result pl (answer c v w s1) (answer c v w s2) \<longleftrightarrow> twin_worlds pl s1 s2"
  "same_result pl (answer_opt c v' w s1) (answer_opt c v' w s2) \<longleftrightarrow> twin_worlds pl s1 s2"
  "same_result pl (v'', w, s1) (v'', w, s2) \<longleftrightarrow> twin_worlds pl s1 s2"
  by (simp_all add: same_result_def fail_def answer_def answer_opt_def split: option.split)

lemma twin_worlds_store [simp]:
  "twin_worlds pl (s1\<lparr>wd_store := m\<rparr>) (s2\<lparr>wd_store := db\<rparr>) \<longleftrightarrow>
     twins pl m db \<and> wd_limiter s1 = wd_limiter s2 \<and> wd_authLimiter s1 = wd_authLimiter s2"
  by (simp add: twin_worlds_def)

lemma twin_worldsD:
  assumes "twin_worlds pl s1 s2"
  shows "twins pl (wd_store s1) (wd_store s2)" "wd_limiter s1 = wd_limiter s2" "wd_authLimiter s1 = wd_authLimiter s2"
  using assms by (simp_all add: twin_worlds_def)

lemma on_store_eq: "on_store f s = (fst (f (wd_store s)), s\<lparr>wd_store := snd (f (wd_store s))\<rparr>)"
  by (simp add: on_store_def split: prod.split)

lemma twin_serversD:
  assumes "twin_servers lib pl lp srv1 srv2"
  shows "sr_cfg srv1 = sr_cfg srv2" "sr_issuer srv1 = sr_issuer srv2" "sr_presigner srv1 = sr_presigner srv2"
    "sr_startedAt srv1 = sr_startedAt srv2" "same_service pl (sr_sessions srv1) (sr_sessions srv2)"
    "sr_store srv1 = mem_Store (lb_uni lib) lp" "sr_store srv2 = pg_Store pl lp"
    "to_lower (lb_uni lib) (to_lower (lb_uni lib) s) = to_lower (lb_uni lib) s"
    "pg_lower pl (to_lower (lb_uni lib) s) = to_lower (lb_uni lib) s"
  using assms by (simp_all add: twin_servers_def to_lower_idem)

lemma conflict_register:
  "{f, f'} \<subseteq> {''email'', ''username''} \<Longrightarrow> twin_worlds pl s1 s2 \<Longrightarrow> wr_Status w = 0 \<Longrightarrow>
    same_result pl (fail (conflictOrInternal (ConflictError f x)) w s1) (fail (conflictOrInternal (ConflictError f' x')) w s2)"
  by (auto simp: same_result_def fail_def conflict_def conflictOrInternal_def ErrConflict_def)

text \<open>The end of the register and login handlers: a session for a stored user.\<close>

lemma twin_session:
  assumes srv: "twin_servers lib pl lp srv1 srv2" and W: "twin_worlds pl s1 s2"
    and known: "user_exists (wd_store s2) uid" and ok: "\<forall>k. pg_ok pl (dr k)" and fresh: "fresh_draws (pg_toks (wd_store s2)) dr"
    and ttl: "pg_timestamptz pl (d_now (dr 2) + sv_refreshTTL (sr_sessions srv2)) = d_now (dr 2) + sv_refreshTTL (sr_sessions srv2)"
  shows "same_result pl
      (case on_store (Start (lb_jwt lib) (sr_sessions srv1) dr uid) s1 of
         (Inl e, s2) \<Rightarrow> fail (ErrInternal (auth_error_text e)) w s2
       | (Inr session, s2) \<Rightarrow> answer code (json_of_auth (toAuthResponse (sr_presigner srv1) session user)) w s2)
      (case on_store (Start (lb_jwt lib) (sr_sessions srv2) dr uid) s2 of
         (Inl e, s2) \<Rightarrow> fail (ErrInternal (auth_error_text e)) w s2
       | (Inr session, s2) \<Rightarrow> answer code (json_of_auth (toAuthResponse (sr_presigner srv2) session user)) w s2)"
proof -
  have "fst (Start (lb_jwt lib) (sr_sessions srv1) dr uid (wd_store s1)) = fst (Start (lb_jwt lib) (sr_sessions srv2) dr uid (wd_store s2))"
    "twins pl (snd (Start (lb_jwt lib) (sr_sessions srv1) dr uid (wd_store s1))) (snd (Start (lb_jwt lib) (sr_sessions srv2) dr uid (wd_store s2)))"
    using twin_issue [OF twin_worldsD(1) [OF W] twin_serversD(5) [OF srv] ok ttl known fresh] unfolding Start_def by blast+
  then show ?thesis
    using twin_worldsD [OF W] twin_serversD(3) [OF srv] by (simp add: on_store_eq split: sum.split)
qed

lemma found_user:
  assumes "pg_inv pl db" "pg_ok pl d" "us_ByID (pg_Users pl) d i db = Inr u"
  shows "pg_users db i = Some u" "u_ID u = i" "user_exists db (u_ID u)"
proof -
  show u: "pg_users db i = Some u" using pg_usr.ByID [OF assms(1,2), of i] assms(3) by (simp split: option.splits)
  show "u_ID u = i" by (rule pg_usr.users_ID [OF assms(1) u])
  then show "user_exists db (u_ID u)" using u by (simp add: pg_users_exists)
qed

text \<open>Runs that branch on a common result, and runs that make a call both stores answer alike.\<close>

lemma same_sum:
  assumes "\<And>e. x = Inl e \<Longrightarrow> same_result pl (f1 e) (f2 e)" "\<And>v. x = Inr v \<Longrightarrow> same_result pl (g1 v) (g2 v)"
  shows "same_result pl (case x of Inl e \<Rightarrow> f1 e | Inr v \<Rightarrow> g1 v) (case x of Inl e \<Rightarrow> f2 e | Inr v \<Rightarrow> g2 v)"
  using assms by (cases x) simp_all

lemma same_prod:
  assumes "\<And>a b. x = (a, b) \<Longrightarrow> same_result pl (f1 a b) (f2 a b)"
  shows "same_result pl (case x of (a, b) \<Rightarrow> f1 a b) (case x of (a, b) \<Rightarrow> f2 a b)"
  using assms by (cases x) simp

lemma same_if:
  assumes "c \<Longrightarrow> same_result pl a1 a2" "\<not> c \<Longrightarrow> same_result pl b1 b2"
  shows "same_result pl (if c then a1 else b1) (if c then a2 else b2)"
  using assms by simp

lemma same_call:
  assumes "twin_worlds pl s1 s2"
    and "fst (f1 (wd_store s1)) = fst (f2 (wd_store s2)) \<and> twins pl (snd (f1 (wd_store s1))) (snd (f2 (wd_store s2)))"
    and "\<And>x t1 t2. twin_worlds pl t1 t2 \<Longrightarrow> f2 (wd_store s2) = (x, wd_store t2) \<Longrightarrow> same_result pl (k1 x t1) (k2 x t2)"
  shows "same_result pl (case on_store f1 s1 of (x, t) \<Rightarrow> k1 x t) (case on_store f2 s2 of (x, t) \<Rightarrow> k2 x t)"
  unfolding on_store_eq prod.case assms(2) [THEN conjunct1]
  by (rule assms(3)) (use assms(2) twin_worldsD [OF assms(1)] in simp_all)

lemmas same_intros = same_sum same_prod same_if

text \<open>A handler that creates an account, then goes on with it; or answers the conflict.\<close>

lemma same_create:
  assumes W: "twin_worlds pl s1 s2" and d: "pg_ok pl d" and adm: "pg_admits pl inp" and new: "pg_users (wd_store s2) (NewID d) = None"
    and w: "wr_Status w = 0"
    and k: "\<And>t1 t2. twin_worlds pl t1 t2 \<Longrightarrow> (wd_store t2)\<lparr>t_users := []\<rparr> = (wd_store s2)\<lparr>t_users := []\<rparr> \<Longrightarrow>
      user_exists (wd_store t2) (NewID d) \<Longrightarrow> same_result pl (k1 (new_user_row d inp) t1) (k2 (new_user_row d inp) t2)"
  shows "same_result pl
    (case on_store (us_Create (mem_Users uni) d inp) s1 of (Inl e, t) \<Rightarrow> fail (conflictOrInternal e) w t | (Inr user, t) \<Rightarrow> k1 user t)
    (case on_store (us_Create (pg_Users pl) d inp) s2 of (Inl e, t) \<Rightarrow> fail (conflictOrInternal e) w t | (Inr user, t) \<Rightarrow> k2 user t)"
  using twin_Create [OF twin_worldsD(1) [OF W] d adm new, of uni]
proof (elim disjE exE conjE)
  fix m' db'
  assume run: "us_Create (mem_Users uni) d inp (wd_store s1) = (Inr (new_user_row d inp), m')"
    "us_Create (pg_Users pl) d inp (wd_store s2) = (Inr (new_user_row d inp), db')"
    and "twins pl m' db'" "db'\<lparr>t_users := []\<rparr> = (wd_store s2)\<lparr>t_users := []\<rparr>" "user_exists db' (NewID d)"
  then show ?thesis
    unfolding on_store_eq run prod.case fst_conv snd_conv sum.case by (intro k) (simp_all add: twin_worldsD [OF W])
next
  fix f f' x x'
  assume "us_Create (mem_Users uni) d inp (wd_store s1) = (Inl (ConflictError f x), wd_store s1)"
    "us_Create (pg_Users pl) d inp (wd_store s2) = (Inl (ConflictError f' x'), wd_store s2)" "{f, f'} \<subseteq> {''email'', ''username''}"
  then show ?thesis using W w by (simp add: on_store_eq conflict_register)
qed

lemma twin_register:
  assumes srv: "twin_servers lib pl lp srv1 srv2"
  shows "twin_handlers pl lp (sv_refreshTTL (sr_sessions srv2)) meth (handleRegister lib srv1) (handleRegister lib srv2)"
proof (rule twin_handlersI)
  fix dr and r :: "User Request" and w :: Writer and s1 s2
  assume W: "twin_worlds pl s1 s2" and D: "smooth_draws pl (sv_refreshTTL (sr_sessions srv2)) (wd_store s2) dr" and w: "wr_Status w = 0"
  show "same_result pl (handleRegister lib srv1 dr r w s1) (handleRegister lib srv2 dr r w s2)"
    unfolding handleRegister_def twin_serversD(6,7) [OF srv] mem_Store_sel pg_Store_sel
  proof (intro same_sum same_prod same_if same_create [OF W smooth_dr(2) [OF D] _ smooth_dr(5) [OF D] w], goal_cases)
    case (4 req _ errs email rest username displayName h)
    have v: "validate_register (lb_uni lib) req = ((email, username, displayName), [])" using 4 by (simp add: Errors_Any_def)
    have "pg_lower pl email = email" using validate_registerD(1) [OF v] twin_serversD(9) [OF srv] by simp
    then show ?case by (rule validated_admits [OF v])
  next
    case (5 req _ errs email rest username displayName h t1 t2)
    have "fresh_draws (pg_toks (wd_store t2)) (shift_draws 2 dr)"
      using smooth_dr(4) [OF smooth_sub(1) [OF D]] pg_frames(4) [OF 5(8)] by simp
    then show ?case
      using 5(9) smooth_dr(1) [OF smooth_sub(1) [OF D]] smooth_dr(8) [OF smooth_sub(1) [OF D]]
      by (intro twin_session [OF srv 5(7)]) (simp_all add: new_user_row_def)
  qed (use W in simp_all)
qed

text \<open>The stores' answers, for the server of a handler.\<close>

lemma twin_reads:
  assumes srv: "twin_servers lib pl lp srv1 srv2" and W: "twin_worlds pl s1 s2" and d: "pg_ok pl d"
  shows "us_ByID (st_Users (sr_store srv1)) d i (wd_store s1) = us_ByID (st_Users (sr_store srv2)) d i (wd_store s2)"
    "us_ByUsername (st_Users (sr_store srv1)) d name (wd_store s1) = us_ByUsername (st_Users (sr_store srv2)) d name (wd_store s2)"
    "to_lower (lb_uni lib) e = e \<Longrightarrow>
      us_CredentialsByEmail (st_Users (sr_store srv1)) d e (wd_store s1) = us_CredentialsByEmail (st_Users (sr_store srv2)) d e (wd_store s2)"
    "ps_ByID (st_Posts (sr_store srv1)) d i (wd_store s1) = ps_ByID (st_Posts (sr_store srv2)) d i (wd_store s2)"
    "precise_page pl lp req \<Longrightarrow> ps_Feed (st_Posts (sr_store srv1)) d req (wd_store s1) = ps_Feed (st_Posts (sr_store srv2)) d req (wd_store s2)"
    "precise_page pl lp req \<Longrightarrow>
      ps_ByAuthor (st_Posts (sr_store srv1)) d i req (wd_store s1) = ps_ByAuthor (st_Posts (sr_store srv2)) d i req (wd_store s2)"
  using twin_ByID [OF twin_worldsD(1) [OF W] d] twin_ByUsername [OF twin_worldsD(1) [OF W] d] twin_Credentials [OF twin_worldsD(1) [OF W] d]
    twin_post_ByID [OF twin_worldsD(1) [OF W] d] twin_pages [OF twin_worldsD(1) [OF W] d]
  by (simp_all add: twin_serversD(6,7) [OF srv] mem_Store_sel pg_Store_sel)

lemma twin_login:
  assumes srv: "twin_servers lib pl lp srv1 srv2"
  shows "twin_handlers pl lp (sv_refreshTTL (sr_sessions srv2)) meth (handleLogin lib srv1) (handleLogin lib srv2)"
proof (rule twin_handlersI)
  fix dr and r :: "User Request" and w :: Writer and s1 s2
  assume W: "twin_worlds pl s1 s2" and D: "smooth_draws pl (sv_refreshTTL (sr_sessions srv2)) (wd_store s2) dr"
  have low: "to_lower (lb_uni lib) email = email" if "Email (lb_uni lib) [] ''email'' x = (email, errs)" for x email errs
    using that twin_serversD(8) [OF srv] by (auto simp: Email_def Let_def)
  note reads = twin_reads [OF srv W smooth_dr(2) [OF D]]
  show "same_result pl (handleLogin lib srv1 dr r w s1) (handleLogin lib srv2 dr r w s2)"
    unfolding handleLogin_def Let_def
  proof (intro same_sum same_prod, goal_cases)
    case (1 e)
    then show ?case using W by simp
  next
    case (2 req email errs)
    show ?case
      unfolding reads(3) [OF low [OF 2(2)]] reads(1)
    proof (intro same_sum same_if, goal_cases)
      case (1 e)
      then show ?case using W by (simp split: store_error.split)
    next
      case (4 c user)
      have u: "user_exists (wd_store s2) (u_ID user)"
        using found_user(3) [OF twinsD(2) [OF twin_worldsD(1) [OF W]] smooth_dr(2) [OF D, of 1]] 4
        by (simp add: twin_serversD(7) [OF srv] pg_Store_sel)
      show ?case
        by (rule twin_session [OF srv W u smooth_dr(1) [OF smooth_sub(1) [OF D]] smooth_dr(4) [OF smooth_sub(1) [OF D]]
              smooth_dr(8) [OF smooth_sub(1) [OF D]]])
    qed (use W in simp_all)
  qed
qed

end
