(* ===== verification/TwinHandlers.thy ===== *)
theory TwinHandlers
  imports TwinServers
begin

text \<open>
  Two servers over twin stores, handler by handler: sessions, profiles, posts, uploads, health and
  documentation.
\<close>

section \<open>Sessions\<close>

lemma twin_refresh:
  assumes srv: "twin_servers lib pl lp srv1 srv2"
  shows "twin_handlers pl lp (sv_refreshTTL (sr_sessions srv2)) meth (handleRefresh lib srv1) (handleRefresh lib srv2)"
proof (rule twin_handlersI)
  fix dr and r :: "User Request" and w :: Writer and s1 s2
  assume W: "twin_worlds pl s1 s2" and D: "smooth_draws pl (sv_refreshTTL (sr_sessions srv2)) (wd_store s2) dr"
  show "same_result pl (handleRefresh lib srv1 dr r w s1) (handleRefresh lib srv2 dr r w s2)"
    unfolding handleRefresh_def
  proof (intro same_sum same_if, goal_cases)
    case (3 token)
    note rot = twin_Rotate [OF twin_worldsD(1) [OF W] twin_serversD(5) [OF srv] smooth_sub(1) [OF D]]
    show ?case
    proof (rule same_call [OF W], rule rot, rule same_sum, goal_cases)
      case (1 x t1 t2 e)
      then show ?case by (simp split: auth_error.split)
    next
      case (2 x t1 t2 session)
      then show ?case
        unfolding twin_reads(1) [OF srv 2(1) smooth_dr(2) [OF D]] twin_serversD(3) [OF srv]
        by (intro same_sum) simp_all
    qed
  qed (use W in simp_all)
qed

lemma twin_logout:
  assumes srv: "twin_servers lib pl lp srv1 srv2"
  shows "twin_handlers pl lp (sv_refreshTTL (sr_sessions srv2)) meth (handleLogout lib srv1) (handleLogout lib srv2)"
proof (rule twin_handlersI)
  fix dr and r :: "User Request" and w :: Writer and s1 s2
  assume W: "twin_worlds pl s1 s2" and D: "smooth_draws pl (sv_refreshTTL (sr_sessions srv2)) (wd_store s2) dr"
  note rev = twin_Revoke [OF twin_worldsD(1) [OF W] twin_serversD(5) [OF srv] D]
  show "same_result pl (handleLogout lib srv1 dr r w s1) (handleLogout lib srv2 dr r w s2)"
    unfolding handleLogout_def
    by (intro same_sum same_call [OF W] rev) (use W in simp_all)
qed

section \<open>Profiles\<close>

text \<open>Behind \<open>currentUser\<close> the handler sees a row of the database.\<close>

lemma twin_current:
  assumes "\<And>me dr r w s1 s2. match_method meth (rq_Method r) \<Longrightarrow> twin_worlds pl s1 s2 \<Longrightarrow> smooth_draws pl ttl (wd_store s2) dr \<Longrightarrow>
      smooth_request pl lp r \<Longrightarrow> pg_users (wd_store s2) (u_ID me) = Some me \<Longrightarrow> same_result pl (h1 me dr r w s1) (h2 me dr r w s2)"
  shows "twin_handlers pl lp ttl meth (with_current_user h1) (with_current_user h2)"
  using assms by (intro twin_handlersI) (simp add: with_current_user_def known_caller_def split: option.split)

lemma twin_get_me:
  assumes srv: "twin_servers lib pl lp srv1 srv2"
  shows "twin_handlers pl lp ttl meth (handleGetMe srv1) (handleGetMe srv2)"
  unfolding handleGetMe_def twin_serversD(3) [OF srv] by (rule twin_current) simp

lemma twin_inspect:
  "twin_servers lib pl lp srv1 srv2 \<Longrightarrow> inspectUpload lib srv1 d key purpose = inspectUpload lib srv2 d key purpose"
  by (simp add: inspectUpload_def twin_serversD(3))

lemma twin_claim:
  assumes srv: "twin_servers lib pl lp srv1 srv2" and W: "twin_worlds pl s1 s2" and D: "smooth_draws pl ttl (wd_store s2) dr"
  shows "fst (claim_first lib srv1 dr me key purpose s1) = fst (claim_first lib srv2 dr me key purpose s2)
    \<and> twin_worlds pl (snd (claim_first lib srv1 dr me key purpose s1)) (snd (claim_first lib srv2 dr me key purpose s2))
    \<and> (wd_store (snd (claim_first lib srv2 dr me key purpose s2)))\<lparr>t_uploads := []\<rparr> = (wd_store s2)\<lparr>t_uploads := []\<rparr>"
proof (cases "\<exists>k. key = Some k \<and> inspectUpload lib srv2 (dr 0) k purpose = None")
  case False
  then show ?thesis
    using W by (cases key) (auto simp: claim_first_def claimUpload_def twin_inspect [OF srv])
next
  case True
  then obtain k where k: "key = Some k" "inspectUpload lib srv2 (dr 0) k purpose = None" by blast
  have run: "claim_first lib srv dr me key purpose s =
      (case up_Claim (st_Uploads (sr_store srv)) (dr 2) k (u_ID me) purpose (d_now (dr 1)) (wd_store s) of
         (x, t) \<Rightarrow>
           (case x of
              Inr _ \<Rightarrow> None
            | Inl ErrNotFound \<Rightarrow>
                Some (ErrValidation ''That upload could not be found. It may have expired.''
                  [(keyFieldFor purpose, ''is not a valid upload key'')])
            | Inl ErrForbidden \<Rightarrow> Some (APIForbidden ''That upload cannot be used here.'')
            | Inl e \<Rightarrow> Some (internal e), s\<lparr>wd_store := t\<rparr>))"
    if "inspectUpload lib srv (dr 0) k purpose = None" for srv :: "'s Server" and s
    using that by (simp add: claim_first_def claimUpload_def k(1) on_store_def split: prod.split sum.split store_error.split)
  note c = twin_Claim [OF twin_worldsD(1) [OF W] smooth_dr(2) [OF D] smooth_dr(3) [OF D], of 2 k "u_ID me" purpose 1]
  show ?thesis
    unfolding run [OF k(2)] run [OF trans [OF twin_inspect [OF srv] k(2)]] twin_serversD(6,7) [OF srv] mem_Store_sel pg_Store_sel
    using c twin_worldsD [OF W] by (simp add: case_prod_beta)
qed

text \<open>A handler that claims, then writes.\<close>

lemma same_claim:
  assumes srv: "twin_servers lib pl lp srv1 srv2" and W: "twin_worlds pl s1 s2" and D: "smooth_draws pl ttl (wd_store s2) dr"
    and k: "\<And>t1 t2. twin_worlds pl t1 t2 \<Longrightarrow> (wd_store t2)\<lparr>t_uploads := []\<rparr> = (wd_store s2)\<lparr>t_uploads := []\<rparr> \<Longrightarrow> same_result pl (k1 t1) (k2 t2)"
  shows "same_result pl
    (case claim_first lib srv1 dr me key purpose s1 of (None, t) \<Rightarrow> k1 t | (Some e, t) \<Rightarrow> fail e w t)
    (case claim_first lib srv2 dr me key purpose s2 of (None, t) \<Rightarrow> k2 t | (Some e, t) \<Rightarrow> fail e w t)"
  using twin_claim [OF srv W D, of me key purpose] k by (auto simp: case_prod_beta split: option.split)

lemma match_patch: "match_method MethodPatch m \<Longrightarrow> m = MethodPatch"
  by (auto simp: match_method_def MethodPatch_def MethodGet_def)

lemma twin_update_me:
  assumes srv: "twin_servers lib pl lp srv1 srv2"
  shows "twin_handlers pl lp ttl MethodPatch (handleUpdateMe lib srv1) (handleUpdateMe lib srv2)"
  unfolding handleUpdateMe_def claim_first_def [symmetric]
proof (rule twin_current)
  fix me dr and r :: "User Request" and w s1 s2
  assume m: "match_method MethodPatch (rq_Method r)" and W: "twin_worlds pl s1 s2" and D: "smooth_draws pl ttl (wd_store s2) dr"
    and R: "smooth_request pl lp r" and me: "pg_users (wd_store s2) (u_ID me) = Some me"
  show "same_result pl
      (case DecodeJSON r update_me_fields zero_update_me of
         Inl e \<Rightarrow> fail e w s1
       | Inr req \<Rightarrow> (case update_of req of (upd, errs) \<Rightarrow>
           if Errors_Any errs then fail (ErrValidation check_highlighted errs) w s1
           else (case claim_first lib srv1 (shift_draws 1 dr) me (uu_AvatarKey upd) PurposeAvatar s1 of
               (Some e, s1) \<Rightarrow> fail e w s1
             | (None, s1) \<Rightarrow>
                 (case on_store (us_Update (st_Users (sr_store srv1)) (dr 0) (u_ID me) upd) s1 of
                    (Inl e, s2) \<Rightarrow> fail (conflictOrInternal e) w s2
                  | (Inr user, s2) \<Rightarrow> answer 200 (json_of_user (toUser (sr_presigner srv1) user)) w s2))))
      (case DecodeJSON r update_me_fields zero_update_me of
         Inl e \<Rightarrow> fail e w s2
       | Inr req \<Rightarrow> (case update_of req of (upd, errs) \<Rightarrow>
           if Errors_Any errs then fail (ErrValidation check_highlighted errs) w s2
           else (case claim_first lib srv2 (shift_draws 1 dr) me (uu_AvatarKey upd) PurposeAvatar s2 of
               (Some e, s1) \<Rightarrow> fail e w s1
             | (None, s1) \<Rightarrow>
                 (case on_store (us_Update (st_Users (sr_store srv2)) (dr 0) (u_ID me) upd) s1 of
                    (Inl e, s2) \<Rightarrow> fail (conflictOrInternal e) w s2
                  | (Inr user, s2) \<Rightarrow> answer 200 (json_of_user (toUser (sr_presigner srv2) user)) w s2))))"
  proof (intro same_sum same_prod same_if same_claim [OF srv W smooth_sub(1) [OF D]], goal_cases)
    case (3 req upd errs t1 t2)
    have upd: "update_of req = (upd, [])" using 3(2,3) by (simp add: Errors_Any_def)
    have ne: "update_assignments upd \<noteq> []" using R match_patch [OF m] 3(1) upd by (fastforce simp: smooth_request_def)
    have known: "pg_users (wd_store t2) (u_ID me) = Some me" using me frame_tables [OF 3(5)] by simp
    obtain v m' db' where v: "us_Update (mem_Users (lb_uni lib)) (dr 0) (u_ID me) upd (wd_store t1) = (Inr v, m')"
      "us_Update (pg_Users pl) (dr 0) (u_ID me) upd (wd_store t2) = (Inr v, db')" "twins pl m' db'"
      using twin_Update [OF twin_worldsD(1) [OF 3(4)] smooth_dr(2) [OF D] update_of_accepted(5) [OF upd] known ne] by blast
    show ?case
      unfolding twin_serversD(3,6,7) [OF srv] mem_Store_sel pg_Store_sel
      by (rule same_call) (use v 3(4) in simp_all)
  qed (use W in simp_all)
qed

lemma twin_byUsername:
  assumes srv: "twin_servers lib pl lp srv1 srv2" and W: "twin_worlds pl s1 s2" and D: "smooth_draws pl ttl (wd_store s2) dr"
  shows "userByUsername srv1 (dr k) r s1 = userByUsername srv2 (dr k) r s2"
  unfolding userByUsername_def twin_reads(2) [OF srv W smooth_dr(2) [OF D]] ..

lemma twin_get_user:
  assumes srv: "twin_servers lib pl lp srv1 srv2"
  shows "twin_handlers pl lp ttl meth (handleGetUser srv1) (handleGetUser srv2)"
proof (rule twin_handlersI)
  fix dr and r :: "User Request" and w :: Writer and s1 s2
  assume W: "twin_worlds pl s1 s2" and D: "smooth_draws pl ttl (wd_store s2) dr"
  show "same_result pl (handleGetUser srv1 dr r w s1) (handleGetUser srv2 dr r w s2)"
    unfolding handleGetUser_def twin_byUsername [OF srv W D] twin_serversD(3) [OF srv]
    by (intro same_sum) (use W in simp_all)
qed

section \<open>Posts\<close>

lemma pageRequest_precise:
  assumes "smooth_request pl lp r" "pageRequest r = Inr req"
  shows "precise_page pl lp req"
proof -
  have "req = \<lparr>pr_Cursor = rq_Query r ''cursor'', pr_Limit = pr_Limit req\<rparr>"
    using assms(2) by (auto simp: pageRequest_def Let_def Normalise_def split: if_splits option.splits)
  then show ?thesis using assms(1) by (metis smooth_request_def)
qed

lemma same_page: "sr_presigner srv1 = sr_presigner srv2 \<Longrightarrow> twin_worlds pl s1 s2 \<Longrightarrow>
    same_result pl (answer_page srv1 res w s1) (answer_page srv2 res w s2)"
  by (cases res) (simp_all add: answer_page_def)

lemma twin_user_posts:
  assumes srv: "twin_servers lib pl lp srv1 srv2"
  shows "twin_handlers pl lp ttl meth (handleUserPosts srv1) (handleUserPosts srv2)"
proof (rule twin_handlersI)
  fix dr and r :: "User Request" and w :: Writer and s1 s2
  assume W: "twin_worlds pl s1 s2" and D: "smooth_draws pl ttl (wd_store s2) dr" and R: "smooth_request pl lp r"
  show "same_result pl (handleUserPosts srv1 dr r w s1) (handleUserPosts srv2 dr r w s2)"
    unfolding handleUserPosts_def twin_byUsername [OF srv W D]
  proof (intro same_sum, goal_cases)
    case (3 user req)
    show ?case
      unfolding twin_reads(6) [OF srv W smooth_dr(2) [OF D] pageRequest_precise [OF R 3(2)]]
      by (rule same_page [OF twin_serversD(3) [OF srv] W])
  qed (use W in simp_all)
qed

lemma twin_feed:
  assumes srv: "twin_servers lib pl lp srv1 srv2"
  shows "twin_handlers pl lp ttl meth (handleFeed srv1) (handleFeed srv2)"
proof (rule twin_handlersI)
  fix dr and r :: "User Request" and w :: Writer and s1 s2
  assume W: "twin_worlds pl s1 s2" and D: "smooth_draws pl ttl (wd_store s2) dr" and R: "smooth_request pl lp r"
  show "same_result pl (handleFeed srv1 dr r w s1) (handleFeed srv2 dr r w s2)"
    unfolding handleFeed_def
  proof (intro same_sum, goal_cases)
    case (2 req)
    show ?case
      unfolding twin_reads(5) [OF srv W smooth_dr(2) [OF D] pageRequest_precise [OF R 2]]
      by (rule same_page [OF twin_serversD(3) [OF srv] W])
  qed (use W in simp_all)
qed

lemma twin_create_post:
  assumes srv: "twin_servers lib pl lp srv1 srv2"
  shows "twin_handlers pl lp ttl meth (handleCreatePost lib srv1) (handleCreatePost lib srv2)"
  unfolding handleCreatePost_def claim_first_def [symmetric]
proof (rule twin_current, intro same_sum same_prod same_if, goal_cases)
  case (1 me dr r w s1 s2 e)
  then show ?case by simp
next
  case (2 me dr r w s1 s2 req caption errs)
  then show ?case by simp
next
  case (3 me dr r w s1 s2 req caption errs)
  note W = 3(2) and D = 3(3) and me = 3(5)
  show ?case
  proof (rule same_claim [OF srv W smooth_sub(1) [OF D]])
    fix t1 t2
    assume T: "twin_worlds pl t1 t2" and frame: "(wd_store t2)\<lparr>t_uploads := []\<rparr> = (wd_store s2)\<lparr>t_uploads := []\<rparr>"
    let ?np = "\<lparr>np_AuthorID = u_ID me, np_ImageKey = image_key_of req, np_Caption = caption\<rparr>"
    have cap: "rune_count (np_Caption ?np) \<le> 2200"
      using 3(7,8) Caption_ok_iff [of "[]" "''caption''" "cq_Caption req"] by (simp add: Errors_Any_def)
    have new: "pg_posts (wd_store t2) (NewID (dr 0)) = None"
      using smooth_dr(6) [OF D, of 0] frame_tables [OF frame] by simp
    have known: "pg_users (wd_store t2) (np_AuthorID ?np) = Some me" using me frame_tables [OF frame] by simp
    obtain v m' db' where v: "ps_Create (mem_Posts lp) (dr 0) ?np (wd_store t1) = (Inr v, m')"
      "ps_Create (pg_Posts pl lp) (dr 0) ?np (wd_store t2) = (Inr v, db')" "twins pl m' db'"
      using twin_Post [OF twin_worldsD(1) [OF T] smooth_dr(2) [OF D] cap new known] by blast
    show "same_result pl
        (case on_store (ps_Create (st_Posts (sr_store srv1)) (dr 0) ?np) t1 of
           (Inl e, s2) \<Rightarrow> fail (internal e) w s2
         | (Inr post, s2) \<Rightarrow> answer_opt 201 (map_option json_of_post (toPost (sr_presigner srv1) post)) w s2)
        (case on_store (ps_Create (st_Posts (sr_store srv2)) (dr 0) ?np) t2 of
           (Inl e, s2) \<Rightarrow> fail (internal e) w s2
         | (Inr post, s2) \<Rightarrow> answer_opt 201 (map_option json_of_post (toPost (sr_presigner srv2) post)) w s2)"
      unfolding twin_serversD(3,6,7) [OF srv] mem_Store_sel pg_Store_sel
      by (rule same_call [OF T]) (use v in simp_all)
  qed
qed

lemma twin_get_post:
  assumes srv: "twin_servers lib pl lp srv1 srv2"
  shows "twin_handlers pl lp ttl meth (handleGetPost srv1) (handleGetPost srv2)"
proof (rule twin_handlersI)
  fix dr and r :: "User Request" and w :: Writer and s1 s2
  assume W: "twin_worlds pl s1 s2" and D: "smooth_draws pl ttl (wd_store s2) dr"
  show "same_result pl (handleGetPost srv1 dr r w s1) (handleGetPost srv2 dr r w s2)"
    unfolding handleGetPost_def twin_reads(4) [OF srv W smooth_dr(2) [OF D]] twin_serversD(3) [OF srv]
    by (intro same_sum) (use W in \<open>simp_all split: store_error.split\<close>)
qed

lemma twin_delete_post:
  assumes srv: "twin_servers lib pl lp srv1 srv2"
  shows "twin_handlers pl lp ttl meth (handleDeletePost srv1) (handleDeletePost srv2)"
  unfolding handleDeletePost_def
proof (rule twin_current, rule same_call, goal_cases)
  case (2 me dr r w s1 s2)
  show ?case
    unfolding twin_serversD(6,7) [OF srv] mem_Store_sel pg_Store_sel
    by (rule twin_Delete [OF twin_worldsD(1) [OF 2(2)] smooth_dr(2) [OF 2(3)]])
next
  case (3 me dr r w s1 s2 x t1 t2)
  then show ?case by (cases x) (simp_all split: store_error.split)
qed simp

section \<open>Uploads\<close>

lemma ParsePurpose_known: "ParsePurpose raw = Inr purpose \<Longrightarrow> purpose \<in> {''avatar'', ''post''}"
  by (auto simp: ParsePurpose_def Let_def constraintsByPurpose_def PurposeAvatar_def PurposePost_def split: if_splits)

lemma twin_presign:
  assumes srv: "twin_servers lib pl lp srv1 srv2"
  shows "twin_handlers pl lp ttl meth (handlePresign lib srv1) (handlePresign lib srv2)"
  unfolding handlePresign_def Let_def twin_serversD(3) [OF srv]
proof (rule twin_current, intro same_sum same_if, goal_cases)
  case (7 me dr r w s1 s2 req purpose presigned)
  note W = 7(2) and D = 7(3)
  let ?u = "\<lparr>ul_Key = pd_Key presigned, ul_UserID = u_ID me, ul_Purpose = purpose, ul_ContentType = pq_ContentType req,
    ul_ContentLength = pq_ContentLength req, ul_CreatedAt = 0, ul_AttachedAt = None\<rparr>"
  obtain ext where "pd_Key presigned = newKey (shift_draws 1 dr 0) purpose ext"
    using 7(11) by (auto simp: Presign_def Let_def split: prod.splits if_splits sum.splits)
  then have new: "pg_upls (wd_store s2) (ul_Key ?u) = None"
    using smooth_dr(7) [OF smooth_sub(1) [OF D, of 1], of 0 purpose ext] by simp
  have known: "user_exists (wd_store s2) (ul_UserID ?u)" using 7(5) by (simp add: pg_users_exists)
  obtain m' db' where v: "up_Reserve mem_Uploads (dr 0) ?u (wd_store s1) = (Inr (), m')"
    "up_Reserve (pg_Uploads pl) (dr 0) ?u (wd_store s2) = (Inr (), db')" "twins pl m' db'"
    using twin_Reserve [OF twin_worldsD(1) [OF W] smooth_dr(2) [OF D, of 0] known new] ParsePurpose_known [OF 7(7)] by auto
  show ?case
    unfolding twin_serversD(6,7) [OF srv] mem_Store_sel pg_Store_sel
    by (rule same_call [OF W]) (use v in simp_all)
qed simp_all

section \<open>Health and documentation\<close>

lemma twin_health:
  assumes srv: "twin_servers lib pl lp srv1 srv2"
  shows "twin_handlers pl lp ttl meth (handleHealth lib srv1) (handleHealth lib srv2)"
  by (rule twin_handlersI) (simp add: handleHealth_def newHealthResponse_def twin_serversD(1,4) [OF srv])

lemma twin_ready:
  assumes srv: "twin_servers lib pl lp srv1 srv2"
  shows "twin_handlers pl lp ttl meth (handleReady lib srv1) (handleReady lib srv2)"
proof (rule twin_handlersI)
  fix dr and r :: "User Request" and w :: Writer and s1 s2
  assume W: "twin_worlds pl s1 s2" and D: "smooth_draws pl ttl (wd_store s2) dr"
  have "d_fault (shift_draws 2 dr 1) = None" using smooth_dr(2) [OF smooth_sub(1) [OF D]] by (simp add: pg_ok_def)
  then have "checkDatabase srv1 (shift_draws 2 dr) (wd_store s1) = checkDatabase srv2 (shift_draws 2 dr) (wd_store s2)"
    by (simp add: checkDatabase_def twin_serversD(6,7) [OF srv] mem_Store_def pg_Store_def mem_Ping_def pg_Ping_def query_def)
  then show "same_result pl (handleReady lib srv1 dr r w s1) (handleReady lib srv2 dr r w s2)"
    using W by (simp add: handleReady_def Let_def newHealthResponse_def twin_serversD(1,4) [OF srv])
qed

lemma twin_static:
  "twin_handlers pl lp ttl meth handleDocs handleDocs" "twin_handlers pl lp ttl meth (handleOpenAPISpec lib) (handleOpenAPISpec lib)"
  "twin_handlers pl lp ttl meth handleUnmatched handleUnmatched"
  by (rule twin_handlersI; simp add: handleDocs_def handleOpenAPISpec_def handleUnmatched_def)+

end
