(* ===== verification/TwinProps.thy ===== *)
theory TwinProps
  imports TwinHandlers ApiInputs
begin

text \<open>
  Two servers over twin stores, from the handlers through the middleware and the router to whole
  sequences of requests.
\<close>

section \<open>Middleware\<close>

text \<open>Two HTTP handlers that respond alike: the same response, or a 409 from both.\<close>

definition same_response ::
    "PgLib \<Rightarrow> outcome \<times> Writer \<times> MemStore World \<Rightarrow> outcome \<times> Writer \<times> PgDB World \<Rightarrow> bool" where
  "same_response pl res1 res2 \<longleftrightarrow>
     (case res1 of (o1, w1, s1) \<Rightarrow> case res2 of (o2, w2, s2) \<Rightarrow>
        o1 = o2 \<and> (w1 = w2 \<or> o1 = Completed \<and> wr_Status w1 = 409 \<and> wr_Status w2 = 409) \<and> twin_worlds pl s1 s2)"

definition twin_https ::
    "PgLib \<Rightarrow> (gostring \<Rightarrow> time option) \<Rightarrow> duration \<Rightarrow> gostring \<Rightarrow> (MemStore, User) http_handler \<Rightarrow> (PgDB, User) http_handler \<Rightarrow> bool" where
  "twin_https pl lp ttl meth h1 h2 \<longleftrightarrow>
     (\<forall>dr r w s1 s2. match_method meth (rq_Method r) \<longrightarrow> twin_worlds pl s1 s2 \<longrightarrow> smooth_draws pl ttl (wd_store s2) dr \<longrightarrow>
        smooth_request pl lp r \<longrightarrow> known_caller (wd_store s2) r \<longrightarrow> wr_Status w = 0 \<longrightarrow> same_response pl (h1 dr r w s1) (h2 dr r w s2))"

lemma twin_httpsI:
  assumes "\<And>dr r w s1 s2. match_method meth (rq_Method r) \<Longrightarrow> twin_worlds pl s1 s2 \<Longrightarrow> smooth_draws pl ttl (wd_store s2) dr \<Longrightarrow>
      smooth_request pl lp r \<Longrightarrow> known_caller (wd_store s2) r \<Longrightarrow> wr_Status w = 0 \<Longrightarrow> same_response pl (h1 dr r w s1) (h2 dr r w s2)"
  shows "twin_https pl lp ttl meth h1 h2"
  using assms by (simp add: twin_https_def)

lemma twin_httpsD:
  assumes "twin_https pl lp ttl meth h1 h2" "match_method meth (rq_Method r)" "twin_worlds pl s1 s2" "smooth_draws pl ttl (wd_store s2) dr"
    "smooth_request pl lp r" "known_caller (wd_store s2) r" "wr_Status w = 0"
  shows "same_response pl (h1 dr r w s1) (h2 dr r w s2)"
  using assms by (simp add: twin_https_def)

lemma DecodeJSON_upd [simp]:
  "DecodeJSON (r\<lparr>rq_requestID := x\<rparr>) fs z = DecodeJSON r fs z" "DecodeJSON (r\<lparr>rq_PathValue := v\<rparr>) fs z = DecodeJSON r fs z"
  "DecodeJSON (r\<lparr>rq_currentUser := u\<rparr>) fs z = DecodeJSON r fs z"
  by (simp_all add: DecodeJSON_def Let_def)

lemma request_plumbing [simp]:
  "smooth_request pl lp (r\<lparr>rq_requestID := x\<rparr>) = smooth_request pl lp r"
  "smooth_request pl lp (r\<lparr>rq_PathValue := v\<rparr>) = smooth_request pl lp r"
  "smooth_request pl lp (r\<lparr>rq_currentUser := u\<rparr>) = smooth_request pl lp r"
  "known_caller db (r\<lparr>rq_requestID := x\<rparr>) = known_caller db r" "known_caller db (r\<lparr>rq_PathValue := v\<rparr>) = known_caller db r"
  by (simp_all add: smooth_request_def known_caller_def)

lemma twin_worlds_log [simp]:
  "twin_worlds pl (s1\<lparr>wd_log := l1\<rparr>) (s2\<lparr>wd_log := l2\<rparr>) = twin_worlds pl s1 s2"
  "twin_worlds pl (log_entry e1 s1) (log_entry e2 s2) = twin_worlds pl s1 s2"
  by (simp_all add: twin_worlds_def log_entry_def)

lemma twin_serve:
  assumes "twin_handlers pl lp ttl meth h1 h2"
  shows "twin_https pl lp ttl meth (ServeHTTP h1) (ServeHTTP h2)"
proof (rule twin_httpsI)
  fix dr and r :: "User Request" and w :: Writer and s1 s2
  assume "match_method meth (rq_Method r)" "twin_worlds pl s1 s2" "smooth_draws pl ttl (wd_store s2) dr" "smooth_request pl lp r"
    "known_caller (wd_store s2) r" "wr_Status w = 0"
  then have same: "same_result pl (h1 dr r w s1) (h2 dr r w s2)" using assms by (simp add: twin_handlers_def)
  obtain v1 w1 t1 v2 w2 t2 where h: "h1 dr r w s1 = (v1, w1, t1)" "h2 dr r w s2 = (v2, w2, t2)" by (metis prod.exhaust)
  have eq: "w1 = w2" "twin_worlds pl t1 t2" "v1 = v2 \<or> conflict v1 \<and> conflict v2 \<and> wr_Status w2 = 0"
    using same by (auto simp: same_result_def h)
  show "same_response pl (ServeHTTP h1 dr r w s1) (ServeHTTP h2 dr r w s2)"
  proof (cases "v1 = v2")
    case True
    then show ?thesis
      by (cases v2) (simp_all add: ServeHTTP_def h eq(1,2) same_response_def WriteError_def Let_def)
  next
    case False
    then obtain e1 e2 where "v1 = Failed (APIErr e1)" "v2 = Failed (APIErr e2)" "ae_Status e1 = 409" "ae_Status e2 = 409" "wr_Status w2 = 0"
      using eq(3) by (auto simp: conflict_def)
    then show ?thesis
      by (simp add: ServeHTTP_def h eq(1,2) same_response_def WriteError_def Let_def AsAPIError_def)
  qed
qed

text \<open>Behind \<open>protected\<close> the caller is a stored user.\<close>

lemma twin_protected:
  assumes srv: "twin_servers lib pl lp srv1 srv2" and h: "twin_handlers pl lp ttl meth h1 h2"
  shows "twin_https pl lp ttl meth (protected lib srv1 h1) (protected lib srv2 h2)"
  unfolding protected_def
proof (intro twin_serve twin_handlersI)
  fix dr and r :: "User Request" and w :: Writer and s1 s2
  assume m: "match_method meth (rq_Method r)" and W: "twin_worlds pl s1 s2" and D: "smooth_draws pl ttl (wd_store s2) dr"
    and R: "smooth_request pl lp r" and w: "wr_Status w = 0"
  have auth: "authenticate lib srv1 dr r (wd_store s1) = authenticate lib srv2 dr r (wd_store s2)"
    unfolding authenticate_def twin_reads(1) [OF srv W smooth_dr(2) [OF D]] twin_serversD(2) [OF srv] ..
  show "same_result pl
      (case authenticate lib srv1 dr r (wd_store s1) of Inl e \<Rightarrow> fail e w s1
       | Inr user \<Rightarrow> h1 (shift_draws 2 dr) (r\<lparr>rq_currentUser := Some user\<rparr>) w s1)
      (case authenticate lib srv2 dr r (wd_store s2) of Inl e \<Rightarrow> fail e w s2
       | Inr user \<Rightarrow> h2 (shift_draws 2 dr) (r\<lparr>rq_currentUser := Some user\<rparr>) w s2)"
    unfolding auth
  proof (rule same_sum)
    fix user
    assume "authenticate lib srv2 dr r (wd_store s2) = Inr user"
    then obtain i where "us_ByID (pg_Users pl) (dr 1) i (wd_store s2) = Inr user"
      by (auto simp: authenticate_def Let_def twin_serversD(7) [OF srv] pg_Store_sel split: if_splits prod.splits sum.splits store_error.splits auth_error.splits)
    from found_user [OF twinsD(2) [OF twin_worldsD(1) [OF W]] smooth_dr(2) [OF D] this]
    have "known_caller (wd_store s2) (r\<lparr>rq_currentUser := Some user\<rparr>)" by (simp add: known_caller_def)
    then show "same_result pl (h1 (shift_draws 2 dr) (r\<lparr>rq_currentUser := Some user\<rparr>) w s1)
        (h2 (shift_draws 2 dr) (r\<lparr>rq_currentUser := Some user\<rparr>) w s2)"
      using h m W smooth_sub(1) [OF D] R w by (simp add: twin_handlers_def)
  qed (use W in simp)
qed

lemma twin_limit:
  assumes h: "twin_https pl lp ttl meth h1 h2" and key: "key1 = key2"
    and sel: "\<And>s1 s2. twin_worlds pl s1 s2 \<Longrightarrow> sel1 s1 = sel2 s2"
    and upd: "\<And>s1 s2 rl. twin_worlds pl s1 s2 \<Longrightarrow> twin_worlds pl (upd1 rl s1) (upd2 rl s2) \<and> wd_store (upd2 rl s2) = wd_store s2"
  shows "twin_https pl lp ttl meth (limit_middleware rnd sel1 upd1 key1 h1) (limit_middleware rnd sel2 upd2 key2 h2)"
proof (rule twin_httpsI)
  fix dr and r :: "User Request" and w :: Writer and s1 s2
  assume m: "match_method meth (rq_Method r)" and W: "twin_worlds pl s1 s2" and D: "smooth_draws pl ttl (wd_store s2) dr"
    and R: "smooth_request pl lp r" "known_caller (wd_store s2) r" and w: "wr_Status w = 0"
  obtain ok after rl where rl: "Allow rnd (own_draw dr 0) (key2 r) (sel2 s2) = ((ok, after), rl)" by (metis prod.exhaust)
  note u = upd [OF W, of rl]
  have "same_response pl (h1 (next_draws dr) r w (upd1 rl s1)) (h2 (next_draws dr) r w (upd2 rl s2))"
    by (rule twin_httpsD [OF h m]) (use u R w smooth_sub(3) [OF D] in simp_all)
  then show "same_response pl (limit_middleware rnd sel1 upd1 key1 h1 dr r w s1) (limit_middleware rnd sel2 upd2 key2 h2 dr r w s2)"
    using u unfolding limit_middleware_def key sel [OF W] rl by (simp add: same_response_def WriteError_def Let_def)
qed

lemma twin_request_id:
  assumes h: "twin_https pl lp ttl [] h1 h2"
  shows "twin_https pl lp ttl [] (WithRequestID h1) (WithRequestID h2)"
  by (rule twin_httpsI) (auto simp: WithRequestID_def Let_def match_method_def intro!: twin_httpsD [OF h])

lemma twin_cors:
  assumes h: "twin_https pl lp ttl [] h1 h2"
  shows "twin_https pl lp ttl [] (WithCORS h1) (WithCORS h2)"
  by (rule twin_httpsI) (auto simp: WithCORS_def Let_def same_response_def [of _ "(Completed, _)"] match_method_def intro!: twin_httpsD [OF h])

lemma twin_recovery:
  assumes h: "twin_https pl lp ttl [] h1 h2"
  shows "twin_https pl lp ttl [] (WithRecovery h1) (WithRecovery h2)"
proof (rule twin_httpsI)
  fix dr and r :: "User Request" and w :: Writer and s1 s2
  assume *: "match_method [] (rq_Method r)" "twin_worlds pl s1 s2" "smooth_draws pl ttl (wd_store s2) dr" "smooth_request pl lp r"
    "known_caller (wd_store s2) r" "wr_Status w = 0"
  from twin_httpsD [OF h *] show "same_response pl (WithRecovery h1 dr r w s1) (WithRecovery h2 dr r w s2)"
    by (auto simp: WithRecovery_def same_response_def split: prod.splits outcome.splits)
qed

lemma twin_logging:
  assumes h: "twin_https pl lp ttl [] h1 h2"
  shows "twin_https pl lp ttl [] (WithLogging h1) (WithLogging h2)"
proof (rule twin_httpsI)
  fix dr and r :: "User Request" and w :: Writer and s1 s2
  assume *: "match_method [] (rq_Method r)" "twin_worlds pl s1 s2" "smooth_draws pl ttl (wd_store s2) dr" "smooth_request pl lp r"
    "known_caller (wd_store s2) r" "wr_Status w = 0"
  have "same_response pl (h1 (next_draws dr) r (w\<lparr>wr_rec := Some (0, 0)\<rparr>) s1) (h2 (next_draws dr) r (w\<lparr>wr_rec := Some (0, 0)\<rparr>) s2)"
    using * smooth_sub(3) by (intro twin_httpsD [OF h]) auto
  then show "same_response pl (WithLogging h1 dr r w s1) (WithLogging h2 dr r w s2)"
    by (auto simp: WithLogging_def same_response_def Let_def split: prod.splits outcome.splits)
qed

section \<open>The router\<close>

definition twin_entry ::
    "PgLib \<Rightarrow> (gostring \<Rightarrow> time option) \<Rightarrow> duration \<Rightarrow> gostring \<times> pattern \<times> (MemStore, User) http_handler
      \<Rightarrow> gostring \<times> pattern \<times> (PgDB, User) http_handler \<Rightarrow> bool" where
  "twin_entry pl lp ttl e1 e2 \<longleftrightarrow>
     fst e1 = fst e2 \<and> fst (snd e1) = fst (snd e2) \<and> twin_https pl lp ttl (fst e2) (snd (snd e1)) (snd (snd e2))"

lemma twin_best_match:
  assumes "list_all2 (twin_entry pl lp ttl) rs1 rs2"
    and "rel_option (\<lambda>(p1, v1, h1) (p2, v2, h2). p1 = p2 \<and> v1 = v2 \<and> (\<exists>m. match_method m method \<and> twin_https pl lp ttl m h1 h2)) b1 b2"
  shows "rel_option (\<lambda>(p1, v1, h1) (p2, v2, h2). p1 = p2 \<and> v1 = v2 \<and> (\<exists>m. match_method m method \<and> twin_https pl lp ttl m h1 h2))
    (best_match b1 rs1 method path) (best_match b2 rs2 method path)"
  using assms
proof (induction arbitrary: b1 b2 rule: list_all2_induct)
  case Nil
  then show ?case by simp
next
  case (Cons e1 rs1 e2 rs2)
  obtain m p h1 h2 where e: "e1 = (m, p, h1)" "e2 = (m, p, h2)" "twin_https pl lp ttl m h1 h2"
    using Cons(1) by (cases e1; cases e2) (auto simp: twin_entry_def)
  show ?case
    unfolding e(1,2) best_match.simps
    by (rule Cons.IH) (use Cons.prems e(3) in \<open>cases b1; cases b2; auto split: option.split\<close>)
qed

lemma twin_mux:
  assumes "list_all2 (twin_entry pl lp ttl) rs1 rs2"
  shows "twin_https pl lp ttl [] (serve_mux rs1) (serve_mux rs2)"
proof (rule twin_httpsI)
  fix dr and r :: "User Request" and w :: Writer and s1 s2
  assume W: "twin_worlds pl s1 s2" and *: "smooth_draws pl ttl (wd_store s2) dr" "smooth_request pl lp r"
    "known_caller (wd_store s2) r" "wr_Status w = 0"
  from twin_best_match [OF assms, of "rq_Method r" None None "rq_Path r"]
  show "same_response pl (serve_mux rs1 dr r w s1) (serve_mux rs2 dr r w s2)"
    using * W by (cases "best_match None rs1 (rq_Method r) (rq_Path r)"; cases "best_match None rs2 (rq_Method r) (rq_Path r)")
      (auto simp: serve_mux_def not_found_page_def same_response_def [of _ "(Completed, _)"] intro!: twin_httpsD)
qed

lemma same_clientKey: "twin_servers lib pl lp srv1 srv2 \<Longrightarrow> clientKey srv1 = clientKey srv2"
  by (simp add: clientKey_def fun_eq_iff twin_serversD(1))

lemma twin_auth_limit:
  assumes srv: "twin_servers lib pl lp srv1 srv2" and h: "twin_https pl lp ttl meth h1 h2"
  shows "twin_https pl lp ttl meth
    (limit_middleware rnd wd_authLimiter (\<lambda>rl. wd_authLimiter_update (\<lambda>_. rl)) (clientKey srv1) h1)
    (limit_middleware rnd wd_authLimiter (\<lambda>rl. wd_authLimiter_update (\<lambda>_. rl)) (clientKey srv2) h2)"
  by (rule twin_limit [OF h same_clientKey [OF srv]]) (simp_all add: twin_worlds_def)

lemma twin_routes:
  assumes srv: "twin_servers lib pl lp srv1 srv2"
  shows "list_all2 (twin_entry pl lp (sv_refreshTTL (sr_sessions srv2))) (mux_table (Routes lib srv1)) (mux_table (Routes lib srv2))"
proof -
  note unguarded = twin_health [OF srv] twin_ready [OF srv] twin_static twin_register [OF srv] twin_login [OF srv] twin_refresh [OF srv]
  note guarded = twin_logout [OF srv] twin_get_me [OF srv] twin_update_me [OF srv] twin_get_user [OF srv] twin_user_posts [OF srv]
    twin_presign [OF srv] twin_feed [OF srv] twin_create_post [OF srv] twin_get_post [OF srv] twin_delete_post [OF srv]
  note entries = unguarded [THEN twin_serve] unguarded(6-8) [THEN twin_serve, THEN twin_auth_limit [OF srv]] guarded [THEN twin_protected [OF srv]]
  show ?thesis
    unfolding mux_table_def Routes_def Let_def route_def twin_serversD(1) [OF srv]
    by (simp add: twin_entry_def entries)
qed

text \<open>The whole server.\<close>

lemma twin_Handler:
  assumes srv: "twin_servers lib pl lp srv1 srv2"
  shows "twin_https pl lp (sv_refreshTTL (sr_sessions srv2)) [] (Handler lib srv1) (Handler lib srv2)"
  unfolding Handler_def Chain.simps
  by (intro twin_request_id twin_recovery twin_logging twin_cors twin_limit twin_mux twin_routes [OF srv] same_clientKey [OF srv])
    (simp_all add: twin_worlds_def)

section \<open>Sequences of requests\<close>

text \<open>Requests served one after the other: the outcomes and responses, and the world at the end.\<close>

fun serve_requests ::
    "('s, 'u) http_handler \<Rightarrow> ((nat \<Rightarrow> Draw) \<times> 'u Request) list \<Rightarrow> 's World \<Rightarrow> (outcome \<times> Writer) list \<times> 's World" where
  "serve_requests h [] s = ([], s)"
| "serve_requests h ((dr, r) # rs) s =
     (case h dr r new_writer s of (out, w, s') \<Rightarrow> case serve_requests h rs s' of (ws, t) \<Rightarrow> ((out, w) # ws, t))"

text \<open>Every request of the sequence is one the two stores must agree on.\<close>

fun smooth_run ::
    "PgLib \<Rightarrow> (gostring \<Rightarrow> time option) \<Rightarrow> duration \<Rightarrow> (PgDB, User) http_handler \<Rightarrow> ((nat \<Rightarrow> Draw) \<times> User Request) list \<Rightarrow> PgDB World \<Rightarrow> bool" where
  "smooth_run pl lp ttl h [] s \<longleftrightarrow> True"
| "smooth_run pl lp ttl h ((dr, r) # rs) s \<longleftrightarrow>
     smooth_draws pl ttl (wd_store s) dr \<and> smooth_request pl lp r \<and> rq_currentUser r = None
     \<and> smooth_run pl lp ttl h rs (snd (snd (h dr r new_writer s)))"

definition alike :: "outcome \<times> Writer \<Rightarrow> outcome \<times> Writer \<Rightarrow> bool" where
  "alike a b \<longleftrightarrow> fst a = fst b \<and> (snd a = snd b \<or> wr_Status (snd a) = 409 \<and> wr_Status (snd b) = 409)"

lemma twin_sequence:
  assumes "twin_https pl lp ttl [] h1 h2" "twin_worlds pl s1 s2" "smooth_run pl lp ttl h2 rs s2"
  shows "list_all2 alike (fst (serve_requests h1 rs s1)) (fst (serve_requests h2 rs s2))
    \<and> twin_worlds pl (snd (serve_requests h1 rs s1)) (snd (serve_requests h2 rs s2))"
  using assms(2,3)
proof (induction rs arbitrary: s1 s2)
  case Nil
  then show ?case by simp
next
  case (Cons p rs)
  obtain dr r where p: "p = (dr, r)" by fastforce
  obtain o1 w1 t1 o2 w2 t2 where h: "h1 dr r new_writer s1 = (o1, w1, t1)" "h2 dr r new_writer s2 = (o2, w2, t2)" by (metis prod.exhaust)
  have "same_response pl (h1 dr r new_writer s1) (h2 dr r new_writer s2)"
    using Cons.prems by (intro twin_httpsD [OF assms(1)]) (simp_all add: p match_method_def known_caller_def)
  then have same: "alike (o1, w1) (o2, w2)" "twin_worlds pl t1 t2" by (auto simp: same_response_def h alike_def)
  show ?case
    using same(1) Cons.IH [OF same(2)] Cons.prems(2) by (simp add: p h case_prod_beta)
qed

lemma twins_empty: "twins pl mem_New pg_empty"
  using mem_inv_New pg_inv_empty by (simp add: twins_def mem_New_def pg_empty_def go_index_def pg_hash_of_def keyed_def pg_users_def fun_eq_iff)


text \<open>The same server over the example stores.\<close>

definition tx_srv :: "MemStore Server" where
  "tx_srv = \<lparr>sr_cfg = undefined, sr_store = mem_Store (\<lambda>r. r) (\<lambda>_. None),
     sr_sessions = NewService mem_Tokens ex_issuer (30 * 24 * hour), sr_issuer = ex_issuer,
     sr_presigner = op_presigner, sr_startedAt = 0\<rparr>"

definition tx_world :: "MemStore World" where
  "tx_world = \<lparr>wd_store = sp_mem, wd_limiter = NewRateLimiter (\<lambda>x. x) 1 1, wd_authLimiter = NewRateLimiter (\<lambda>x. x) 1 1, wd_log = []\<rparr>"

lemma tx_servers: "twin_servers ax_lib sp_pl (\<lambda>_. None) tx_srv ax_srv"
  by (simp add: twin_servers_def tx_srv_def ax_srv_def same_service_def NewService_def ax_lib_def lower_table_def sp_pl_def Let_def in_range_def clean_rune_def rune_error_def)

lemma tx_worlds: "twin_worlds sp_pl tx_world ax_world"
  by (simp add: twin_worlds_def tx_world_def ax_world_def twins_def sp_mem_inv sp_pg_inv fun_eq_iff sp_rows)
    (simp add: sp_mem_def sp_db_def go_index_def pg_hash_of_def keyed_def sp_user_def)

definition tx_login :: "User Request" where
  "tx_login = (ax_request (''{'' @ quoted ''email'' @ '':'' @ quoted ''ada@example.com'' @ '','' @ quoted ''password'' @ '':'' @ quoted ''h'' @ ''}''))
     \<lparr>rq_Path := [''v1'', ''auth'', ''login''], rq_currentUser := None\<rparr>"

lemma tx_draws: "smooth_draws sp_pl (sv_refreshTTL (sr_sessions ax_srv)) sp_db (\<lambda>_. sp_draw)"
proof -
  have "NewID sp_draw \<noteq> ''pa'' \<and> NewID sp_draw \<noteq> ''pb''" using length_NewID [of sp_draw] by (intro conjI notI) simp_all
  moreover have "newKey sp_draw purpose ext \<noteq> ''k''" for purpose ext by (simp add: newKey_def)
  moreover have "pg_timestamptz sp_pl (d_now sp_draw + sv_refreshTTL (sr_sessions ax_srv)) = d_now sp_draw + sv_refreshTTL (sr_sessions ax_srv)"
    by (simp add: sp_pl_def sp_draw_def ax_srv_def NewService_def)
  ultimately show ?thesis
    using sp_ok sp_new_user by (simp add: smooth_draws_def sp_no_tokens) (simp add: sp_rows)
qed


end
