(* ===== verification/Spec2Isabelle.thy ===== *)
theory Spec2Isabelle
  imports SessionProps StoreProps DataProps HttpProps OpsProps ApiProps AccountProps ProfileProps PostProps FeedProps
    PrivacyProps RouteProps RefreshProps LifeProps ImageProps FuelProps TwinProps
begin

text \<open>
  A model of the domieface server, a JSON API for accounts, sessions, image posts and uploads
  written in Go, with the theorems that make it correct.

  \<^bold>\<open>The program.\<close>  \<open>main.go\<close> loads the configuration (\<open>internal/config\<close>), connects to Postgres and
  migrates it (\<open>internal/store/postgres\<close>), and starts an HTTP server over the handlers of
  \<open>internal/api\<close>.  A request passes the middleware of \<open>internal/httpx\<close> (request identifier, recovery,
  logging, CORS, rate limit), is routed, authenticated where the route asks for it
  (\<open>internal/auth\<close>), decoded and validated (\<open>internal/httpx/respond.go\<close>, \<open>internal/validate\<close>) and
  answered from a store (\<open>internal/store\<close> with the Postgres and the in-memory implementation) and the
  object storage (\<open>internal/uploads\<close>).  Two background loops run beside it: the janitor
  (\<open>internal/janitor\<close>) and the self-ping (\<open>internal/keepalive\<close>).

  \<^bold>\<open>Theories and code.\<close>
  \<^item> \<open>Prelude\<close>, \<open>Tables\<close>: Go's strings as lists of bytes, maps with unspecified iteration order,
    \<open>sort.Slice\<close>, keyed tables; \<open>Draw\<close>, see below.
  \<^item> \<open>GoStrings\<close>, \<open>Encoding\<close>, \<open>Sha256\<close>, \<open>CivilTime\<close>, \<open>Json\<close>, \<open>Body\<close>, \<open>Net\<close>: what the program uses of the
    standard library: UTF-8, trimming, numbers, hex, base32, base64, SHA-256 on 32-bit words, the
    calendar, the grammar and the decoder of \<open>encoding/json\<close>, host and port.
  \<^item> \<open>StoreTypes\<close>, \<open>Cursor\<close>, \<open>Paging\<close>, \<open>Timestamps\<close>: \<open>store.go\<close>, \<open>id.go\<close>, \<open>cursor.go\<close> and
    \<open>jsontime.go\<close>: entities, the store interfaces as records of operations, keyset pages.
  \<^item> \<open>Interfaces\<close>: one locale per store interface (\<open>token_store\<close>, \<open>upload_store\<close>, \<open>user_store\<close>,
    \<open>post_store\<close>) with the laws a client may rely on.
  \<^item> \<open>MemoryStore\<close>, \<open>Postgres\<close>, \<open>PostgresLaws\<close>: the two implementations, their invariants, and the
    interpretations of all four locales for each.
  \<^item> \<open>Sessions\<close>, \<open>SessionLaws\<close>, \<open>Concurrency\<close>: \<open>password.go\<close>, \<open>tokens.go\<close>, \<open>session.go\<close>; the token
    table as an abstract machine every call refines; interleaved calls as a step relation.
  \<^item> \<open>Validate\<close>, \<open>Http\<close>, \<open>RateLimit\<close>, \<open>Middleware\<close>: \<open>validate.go\<close>, \<open>errors.go\<close>, \<open>respond.go\<close>,
    \<open>optional.go\<close>, \<open>ratelimit.go\<close>, \<open>middleware.go\<close> and the precedence rules of \<open>http.ServeMux\<close>.
  \<^item> \<open>Config\<close>, \<open>Uploads\<close>, \<open>Buildinfo\<close>, \<open>Dto\<close>, \<open>Handlers\<close>: \<open>config.go\<close>, \<open>internal/uploads\<close>,
    \<open>buildinfo.go\<close> and \<open>internal/api\<close>: response types, every handler, the routing table.
  \<^item> \<open>Janitor\<close>, \<open>Startup\<close>, \<open>Lifecycle\<close>: \<open>janitor.go\<close>, \<open>keepalive.go\<close>, \<open>Connect\<close> and \<open>Migrate\<close>, \<open>main.go\<close>:
    the wiring, and the running process as a step relation \<open>process_step\<close>: the main thread, the server's
    goroutine, the janitor, the self-ping and the reapers, the signal, the channel \<open>serveErr\<close>, requests
    and panics, in any order.
  \<^item> \<open>Effects\<close>, \<open>SchemaLaws\<close>, \<open>ImageLaws\<close>: the locale \<open>store_relation\<close>: a relation that the operations of the
    store interface keep, those that name an upload apart, is kept by every other handler and by the
    sweep; \<open>server_guarantee\<close> adds the two handlers that name an upload and gets every request and every
    step of the process; \<open>store_guarantee\<close> gets these from the two operations.  The interpretation on the
    schema's constraints and the list of accounts is of the last kind, the one on images needs the handlers,
    which claim an upload before they name it; the interpretation on the operations themselves says that
    nothing else touches the store.
  \<^item> \<open>Twins\<close>, \<open>TwinServers\<close>, \<open>TwinHandlers\<close>, \<open>LowerCase\<close>: a simulation between the in-memory store and
    Postgres, operation by operation, then for the session service and each handler; UTF-8 decoding of
    what was encoded, and lower-casing twice.
  \<^item> \<open>Contract\<close>, \<open>HandlerLaws\<close>, \<open>ApiInputs\<close>: what every handler owes the layers around it, the
    handlers' building blocks over Postgres, and a concrete server for the examples.

  \<^bold>\<open>Conventions.\<close>  Go structs are records, sentinel errors a datatype, fallible calls return a sum
  with the error on the left, a panic is a value of \<open>verdict\<close> or \<open>outcome\<close>.  State is passed
  explicitly: a store operation maps the store to a result and the store after it, a handler maps
  draws, request, writer and \<open>World\<close> (store, limiters, log) to a verdict and both of them
  afterwards.  Everything a call reads from outside the program (the clock, random bytes, the order
  of a map iteration, a fault of the database) is one \<open>Draw\<close>; a handler gets numbered draws, one
  for every call it makes, so a theorem over all draws covers every behaviour of the environment.
  Libraries that are not in the repository are records of functions (\<open>BcryptLib\<close>, \<open>JwtLib\<close>,
  \<open>S3Lib\<close>, \<open>PgLib\<close>, \<open>BuildLib\<close>); what is assumed of them is stated in the theorems that need it.

  \<^bold>\<open>What is proved.\<close>
  \<^item> \<open>SessionProps\<close>: a refresh token family has at most one live token; replaying a consumed token
    revokes its family for good; rotation, rejection and logout; two concurrent refreshes never both
    succeed; the step relation run without interruption is the sequential code; a logout between
    the two store calls of a refresh does not end the session; the life of an access token.
  \<^item> \<open>StoreProps\<close>: following the page cursors visits every post once; pages are stable under changes
    and independent of map order; the two stores answer alike; claims, deletions, unique accounts,
    the release of abandoned uploads.
  \<^item> \<open>DataProps\<close>: cursors and timestamps survive the trip through their text.
  \<^item> \<open>HttpProps\<close>, \<open>ApiProps\<close>, \<open>RouteProps\<close>: budgets of the rate limiter; every request is answered
    with a documented status and logged, panics included; the mux serves exactly the documented
    endpoints; protected endpoints are reached only with the token of a stored user.
  \<^item> \<open>LifeProps\<close>: at every moment of the process the tables satisfy the schema and no account is lost or
    renamed; a signalled process terminates, and what each exit code says of the work that was left.
  \<^item> \<open>ImageProps\<close>: at every moment of the process an image that is shown belongs to who shows it.
  \<^item> \<open>TwinProps\<close>: a server over the in-memory store and one over Postgres answer every sequence of requests
    alike, so what the tests see of the one holds of the other; a 409 may name another field, an empty
    profile update is outside.
  \<^item> \<open>FuelProps\<close>: the rounds the parsers are given are always enough.
  \<^item> \<open>AccountProps\<close>, \<open>RefreshProps\<close>, \<open>ProfileProps\<close>, \<open>PostProps\<close>, \<open>FeedProps\<close>, \<open>PrivacyProps\<close>: the outcomes of
    registration, login, refreshing, profile updates, posts, feed requests and presigning over Postgres, what a
    failure between two statements leaves behind, and that no answer about other people depends on
    an email address.
  \<^item> \<open>OpsProps\<close>: no development default outside development, missing settings reported together,
    migrations applied in order with their bookkeeping, a sweep that removes only what is abandoned.

  \<^bold>\<open>Bounds.\<close>  Machine integers are 32-bit words in SHA-256 and unbounded elsewhere, with the limits
  of \<open>int64\<close> checked where text is parsed.  Times are integers, nanoseconds since Go's zero time,
  printed for the years 0 to 9999, the range JSON can carry.  The float64 arithmetic of the rate
  limiter is rational with a rounding function whose properties are assumptions of the theorems.  Loops
  are structural recursions or have termination proofs, except three parsers that count their rounds:
  the JSON parser (two rounds for each byte plus two), the terms of a duration (one for each byte) and
  the groups of an IPv6 address (eight); \<open>FuelProps\<close> shows that more rounds change no answer.  The walk
  over the feed takes the number of pages a client is willing to fetch, and one more than the number of
  posts is shown to be enough.  Loops over a ticker take the list of their events, and the steps of the
  process are not bounded.

  \<^bold>\<open>Not modelled.\<close>  Tests, the OpenAPI document and the README, build and deployment files.  The embedded files of
  \<open>migrations/embed.go\<close> are an argument of the migration, the SQL they contain is an argument
  too (the schema of the store is written out from it in \<open>Postgres\<close>).  The
  Presigner interface is merged with its one implementation.  What happens after \<open>run\<close> has returned (closing
  the pool, the exit of the remaining goroutines) is left out.  Times a request takes are not modelled, so the constant-time intent of the
  dummy hash is not stated.  Concurrency is modelled call by call
  for the session service (\<open>Concurrency\<close>) and, in \<open>Effects\<close>, as any sequence of store operations; a step of the process
  serves one request as a whole, and the outcome theorems on handlers describe one request at a time.
\<close>

end
